theory Spec2Isabelle
  imports Main "HOL-Library.AList"
begin

section \<open>Go string primitives used by the sources\<close>

text \<open>
  Go strings are byte sequences; they are modelled as \<open>string\<close> (a list of
  characters).  The functions below follow the definitions of the Go standard
  library package \<open>strings\<close>.
\<close>

definition HasPrefix :: "string \<Rightarrow> string \<Rightarrow> bool" where
  "HasPrefix s pre = (length pre \<le> length s \<and> take (length pre) s = pre)"

definition HasSuffix :: "string \<Rightarrow> string \<Rightarrow> bool" where
  "HasSuffix s suf = (length suf \<le> length s \<and> drop (length s - length suf) s = suf)"

definition TrimSuffix :: "string \<Rightarrow> string \<Rightarrow> string" where
  "TrimSuffix s suf = (if HasSuffix s suf then take (length s - length suf) s else s)"

text \<open>\<open>strings.Index(s, ".")\<close> for a one-byte separator: the index of the first
  occurrence, or \<open>-1\<close>.\<close>

fun IndexByte :: "string \<Rightarrow> char \<Rightarrow> int" where
  "IndexByte [] c = -1"
| "IndexByte (x # xs) c =
     (if x = c then 0
      else (let i = IndexByte xs c in if i < 0 then -1 else i + 1))"

text \<open>\<open>strings.Contains(s, sub)\<close>.\<close>

fun Contains :: "string \<Rightarrow> string \<Rightarrow> bool" where
  "Contains [] sub = (sub = [])"
| "Contains (x # xs) sub = (HasPrefix (x # xs) sub \<or> Contains xs sub)"

section \<open>Credential router (package cloudflare)\<close>

record Credential =
  Name :: string
  APIToken :: string
  Zones :: "string list"
  Default :: bool

record TunnelCredential =
  tcTunnelID :: string
  tcTunnelName :: string
  tcAccountID :: string
  tcCredential :: string

text \<open>The manager's \<open>defaultCredential\<close> is a nullable pointer; \<open>None\<close> is nil.
  The client cache of the manager is part of the mutable world defined below.\<close>

record CredentialManager =
  credentials :: "Credential list"
  tunnelCredentials :: "TunnelCredential list"
  defaultCredential :: "Credential option"

text \<open>One iteration of the loop of \<open>matchZone\<close> over an already trimmed hostname.\<close>

definition zoneMatches :: "string \<Rightarrow> string \<Rightarrow> bool" where
  "zoneMatches hostname zone0 =
     (let zone = TrimSuffix zone0 ''.'' in
      if hostname = zone then True
      else if HasSuffix hostname (''.'' @ zone) then True
      else if HasPrefix zone ''*.'' then
        (let baseDomain = drop 2 zone in
         hostname = baseDomain \<or> HasSuffix hostname (''.'' @ baseDomain))
      else False)"

fun matchZoneLoop :: "string \<Rightarrow> string list \<Rightarrow> bool" where
  "matchZoneLoop hostname [] = False"
| "matchZoneLoop hostname (zone # zones) =
     (if zoneMatches hostname zone then True else matchZoneLoop hostname zones)"

definition matchZone :: "Credential \<Rightarrow> string \<Rightarrow> bool" where
  "matchZone cred hostname = matchZoneLoop (TrimSuffix hostname ''.'') (Zones cred)"

fun findByName :: "Credential list \<Rightarrow> string \<Rightarrow> Credential option" where
  "findByName [] n = None"
| "findByName (c # cs) n = (if Name c = n then Some c else findByName cs n)"

fun findByZone :: "Credential list \<Rightarrow> string \<Rightarrow> Credential option" where
  "findByZone [] hostname = None"
| "findByZone (c # cs) hostname =
     (if matchZone c hostname then Some c else findByZone cs hostname)"

text \<open>Errors are Go \<open>error\<close> values, identified with their message.\<close>

definition GetCredentialForZone ::
  "CredentialManager \<Rightarrow> string \<Rightarrow> string \<Rightarrow> string + Credential" where
  "GetCredentialForZone cm hostname explicitCredName =
     (if explicitCredName \<noteq> '''' then
        (case findByName (credentials cm) explicitCredName of
           Some c \<Rightarrow> Inr c
         | None \<Rightarrow> Inl (''credential not found: '' @ explicitCredName))
      else
        (case findByZone (credentials cm) hostname of
           Some c \<Rightarrow> Inr c
         | None \<Rightarrow>
             (case defaultCredential cm of
                Some d \<Rightarrow> Inr d
              | None \<Rightarrow> Inl (''no matching credential found for hostname: '' @ hostname))))"

section \<open>Zone resolution (package cloudflare, \<open>Client\<close>)\<close>

text \<open>A client holds the API token it was built with (standing for the SDK
  client), the account ID set on it, and its zone cache.\<close>

record Client =
  apiToken :: string
  accountID :: string
  zoneCache :: "string \<rightharpoonup> string"
  zonesLoaded :: bool

text \<open>The loop of \<open>matchZoneForHostname\<close>: try the candidate, then cut it after
  its first dot.\<close>

function walkZones :: "(string \<rightharpoonup> string) \<Rightarrow> string \<Rightarrow> string \<times> string" where
  "walkZones cache candidate =
     (if candidate = '''' then ('''', '''')
      else
        (case cache candidate of
           Some zoneID \<Rightarrow> (candidate, zoneID)
         | None \<Rightarrow>
             (let idx = IndexByte candidate (CHR ''.'') in
              if idx < 0 then ('''', '''')
              else walkZones cache (drop (nat (idx + 1)) candidate))))"
  by pat_completeness auto
termination
  by (relation "measure (\<lambda>(cache, candidate). length candidate)") auto

declare walkZones.simps [simp del]

definition matchZoneForHostname :: "Client \<Rightarrow> string \<Rightarrow> string \<times> string" where
  "matchZoneForHostname c hostname = walkZones (zoneCache c) (TrimSuffix hostname ''.'')"

text \<open>\<open>loadZones\<close>: the zone listing of the remote API is a parameter, either an
  error message or the (name, ID) pairs in the order returned.\<close>

fun fillCache :: "(string \<rightharpoonup> string) \<Rightarrow> (string \<times> string) list \<Rightarrow> (string \<rightharpoonup> string)" where
  "fillCache cache [] = cache"
| "fillCache cache ((n, i) # zs) = fillCache (cache(n \<mapsto> i)) zs"

definition loadZones :: "(string + (string \<times> string) list) \<Rightarrow> Client \<Rightarrow> string option \<times> Client" where
  "loadZones zoneList c =
     (if zonesLoaded c then (None, c)
      else
        (case zoneList of
           Inl err \<Rightarrow> (Some (''failed to list zones: '' @ err), c)
         | Inr zs \<Rightarrow> (None, c\<lparr>zoneCache := fillCache (zoneCache c) zs, zonesLoaded := True\<rparr>)))"

definition GetZoneID ::
  "(string + (string \<times> string) list) \<Rightarrow> Client \<Rightarrow> string \<Rightarrow> (string + string) \<times> Client" where
  "GetZoneID zoneList c hostname =
     (case loadZones zoneList c of
        (Some err, c') \<Rightarrow> (Inl err, c')
      | (None, c') \<Rightarrow>
          (let (zoneName, zoneID) = matchZoneForHostname c' hostname in
           if zoneID = '''' then (Inl (''no matching zone found for hostname: '' @ hostname), c')
           else (Inr zoneID, c')))"

section \<open>Data model (packages types and storage)\<close>

text \<open>
  Field names carry a short prefix of their struct, since record fields share one
  name space; the ledger row \<open>ManagedResource\<close> keeps the source's names.
  Timestamps (\<open>time.Time\<close>) are integers, the zero time being \<open>0\<close>.
  Fields of the source that no modelled function reads (container image, labels,
  state, creation times) are left out of \<open>ContainerInfo\<close>.
\<close>

record OriginRequestConfig =
  orConnectTimeout :: string
  orTLSTimeout :: string
  orTCPKeepAlive :: string
  orKeepAliveConnections :: int
  orKeepAliveTimeout :: string
  orNoTLSVerify :: bool
  orOriginServerName :: string
  orCAPool :: string
  orHTTPHostHeader :: string
  orNoHappyEyeballs :: bool
  orDisableChunkedEncoding :: bool
  orProxyType :: string

record TunnelService =
  tunServiceName :: string
  tunHostname :: string
  tunService :: string
  tunTunnel :: string
  tunPath :: string
  tunCredential :: string
  tunCleanup :: bool
  tunAccess :: string
  tunOriginRequest :: "OriginRequestConfig option"

text \<open>\<open>TunnelIngress\<close> and \<open>IngressRule\<close> have the same four fields.\<close>

record TunnelIngress =
  ingHostname :: string
  ingPath :: string
  ingService :: string
  ingOriginRequest :: "OriginRequestConfig option"

record DNSService =
  dnsServiceName :: string
  dnsHostname :: string
  dnsType :: string
  dnsTarget :: string
  dnsProxied :: bool
  dnsTTL :: int
  dnsCredential :: string
  dnsCleanup :: bool
  dnsComment :: string
  dnsAccess :: string
  dnsPriority :: int

record DNSRecord =
  recID :: string
  recZoneID :: string
  recZoneName :: string
  recName :: string
  recType :: string
  recContent :: string
  recProxied :: bool
  recTTL :: int
  recPriority :: int
  recComment :: string

record AccessRule =
  ruleSelector :: string
  ruleValues :: "string list"

record AccessPolicy =
  polDecision :: string
  polName :: string
  polInclude :: "AccessRule list"
  polRequire :: "AccessRule list"
  polExclude :: "AccessRule list"

record AccessPolicyDef =
  pdName :: string
  pdAppName :: string
  pdSessionDuration :: string
  pdPolicies :: "AccessPolicy list"

record ResolvedAccessBinding =
  bHostname :: string
  bPolicyDef :: AccessPolicyDef
  bContainerID :: string
  bContainerName :: string
  bServiceName :: string
  bAgentID :: string
  bCleanup :: bool
  bCredential :: string

text \<open>\<open>Networks\<close> and \<open>AccessPolicies\<close> are Go maps; they are association lists
  in the order in which a \<open>range\<close> loop happens to visit them.\<close>

record ContainerInfo =
  ciID :: string
  ciName :: string
  ciNetworks :: "(string \<times> string) list"

record ParsedContainer =
  Info :: ContainerInfo
  DNSServices :: "DNSService list"
  TunnelServices :: "TunnelService list"
  AccessPolicies :: "(string \<times> AccessPolicyDef) list"
  pcAgentID :: string

record ManagedResource =
  ID :: string
  ResourceType :: string
  CFID :: string
  ZoneID :: string
  Hostname :: string
  RecordType :: string
  Content :: string
  Proxied :: bool
  TTL :: int
  TunnelID :: string
  Service :: string
  Path :: string
  AccessAppID :: string
  AccountID :: string
  ContainerID :: string
  ContainerName :: string
  ServiceName :: string
  AgentID :: string
  Status :: string
  CleanupEnabled :: bool
  LastError :: string
  CreatedAt :: int
  UpdatedAt :: int
  DeletedAt :: "int option"

definition ResourceTypeDNS :: string where "ResourceTypeDNS = ''dns''"
definition ResourceTypeTunnelIngress :: string where "ResourceTypeTunnelIngress = ''tunnel_ingress''"
definition ResourceTypeAccessApp :: string where "ResourceTypeAccessApp = ''access_app''"

definition StatusActive :: string where "StatusActive = ''active''"
definition StatusOrphaned :: string where "StatusOrphaned = ''orphaned''"
definition StatusPendingCleanup :: string where "StatusPendingCleanup = ''pending_cleanup''"
definition StatusDeleted :: string where "StatusDeleted = ''deleted''"
definition StatusError :: string where "StatusError = ''error''"

text \<open>The zero value of \<open>ManagedResource\<close>, from which the source builds rows
  with a struct literal.\<close>

definition emptyResource :: ManagedResource where
  "emptyResource =
     \<lparr>ID = '''', ResourceType = '''', CFID = '''', ZoneID = '''', Hostname = '''',
      RecordType = '''', Content = '''', Proxied = False, TTL = 0, TunnelID = '''',
      Service = '''', Path = '''', AccessAppID = '''', AccountID = '''', ContainerID = '''',
      ContainerName = '''', ServiceName = '''', AgentID = '''', Status = '''',
      CleanupEnabled = False, LastError = '''', CreatedAt = 0, UpdatedAt = 0,
      DeletedAt = None\<rparr>"

section \<open>The remote API and the mutable world\<close>

text \<open>
  The Cloudflare SDK is not part of the repository.  Every SDK request the sources
  issue is a constructor of \<open>RemoteCall\<close>; the remote system is an arbitrary state
  machine \<open>remoteStep\<close> over a state of type \<open>'r\<close> that answers each request.  A
  response of the wrong shape stands for a reply the SDK cannot decode and is
  turned into an error by the wrapper that issued the request.  Requests are
  tagged with the API token of the client that issues them.
\<close>

record AccessApp =
  aaID :: string
  aaName :: string
  aaDomain :: string

datatype RemoteCall =
    ZonesList string
  | RecordsNew string string DNSRecord
  | RecordsList string string string string
  | RecordsUpdate string string string DNSRecord
  | RecordsDelete string string string
  | PublicIPGet string
  | TunnelConfigGet string string string
  | TunnelConfigUpdate string string string "TunnelIngress list"
  | AccessAppsList string string
  | AccessPolicyNew string string AccessPolicy string
  | AccessAppPoliciesList string string string
  | AccessPolicyDelete string string string
  | AccessAppNew string string string string string "(string \<times> int) list"
  | AccessAppUpdate string string string string string string "(string \<times> int) list"
  | AccessAppDelete string string string

datatype RemoteResp =
    RespErr string
  | RespOK
  | RespID string
  | RespText string
  | RespZones "(string \<times> string) list"
  | RespRecord DNSRecord
  | RespRecords "DNSRecord list"
  | RespIngress "TunnelIngress list"
  | RespApps "AccessApp list"
  | RespIDs "string list"

text \<open>The requests that change the remote system; the others only read it.\<close>

fun isMutating :: "RemoteCall \<Rightarrow> bool" where
  "isMutating (RecordsNew _ _ _) = True"
| "isMutating (RecordsUpdate _ _ _ _) = True"
| "isMutating (RecordsDelete _ _ _) = True"
| "isMutating (TunnelConfigUpdate _ _ _ _) = True"
| "isMutating (AccessPolicyNew _ _ _ _) = True"
| "isMutating (AccessPolicyDelete _ _ _) = True"
| "isMutating (AccessAppNew _ _ _ _ _ _) = True"
| "isMutating (AccessAppUpdate _ _ _ _ _ _ _) = True"
| "isMutating (AccessAppDelete _ _ _) = True"
| "isMutating _ = False"

text \<open>
  The world: the ledger table, the number of clock readings and of UUIDs drawn so
  far, the credential manager's client cache (credential name to client), the
  state of the remote system and the log of requests sent to it.
\<close>

record 'r world =
  ledger :: "ManagedResource list"
  ticks :: nat
  uuidsUsed :: nat
  clients :: "(string \<times> Client) list"
  remote :: 'r
  calls :: "RemoteCall list"

text \<open>
  The environment: the readings of \<open>time.Now()\<close> in the order they are taken,
  the UUIDs in the order \<open>uuid.New()\<close> returns them, the order in which a
  \<open>range\<close> over a Go map visits its keys, the configured credential manager,
  the remote system's behaviour, and the strings the standard library's
  \<open>net.ParseIP\<close> accepts as IP addresses.
\<close>

record 'r env =
  clock :: "nat \<Rightarrow> int"
  uuids :: "nat \<Rightarrow> string"
  rangeOrder :: "string list \<Rightarrow> string list"
  credManager :: CredentialManager
  remoteStep :: "RemoteCall \<Rightarrow> 'r \<Rightarrow> RemoteResp \<times> 'r"
  parseIP :: "string \<Rightarrow> bool"

definition Now :: "'r env \<Rightarrow> 'r world \<Rightarrow> int \<times> 'r world" where
  "Now e w = (clock e (ticks w), w\<lparr>ticks := Suc (ticks w)\<rparr>)"

definition uuidNew :: "'r env \<Rightarrow> 'r world \<Rightarrow> string \<times> 'r world" where
  "uuidNew e w = (uuids e (uuidsUsed w), w\<lparr>uuidsUsed := Suc (uuidsUsed w)\<rparr>)"

definition invoke :: "'r env \<Rightarrow> RemoteCall \<Rightarrow> 'r world \<Rightarrow> RemoteResp \<times> 'r world" where
  "invoke e c w =
     (let (resp, r') = remoteStep e c (remote w)
      in (resp, w\<lparr>remote := r', calls := calls w @ [c]\<rparr>))"

text \<open>
  A \<open>range\<close> over a Go map visits every key once, in an order the language leaves
  open.  The keys named by \<open>rangeOrder\<close> come first, in that order, and the
  remaining keys follow, so that every choice of \<open>rangeOrder\<close> gives a visiting
  order and every visiting order is given by some choice.
\<close>

definition rangeKeys :: "(string list \<Rightarrow> string list) \<Rightarrow> string list \<Rightarrow> string list" where
  "rangeKeys ord ks =
     (let first = remdups (filter (\<lambda>k. k \<in> set ks) (ord ks))
      in first @ filter (\<lambda>k. k \<notin> set first) (remdups ks))"

definition rangeMap :: "(string list \<Rightarrow> string list) \<Rightarrow> (string \<times> 'v) list \<Rightarrow> (string \<times> 'v) list" where
  "rangeMap ord m =
     List.map_filter (\<lambda>k. map_option (Pair k) (map_of m k)) (rangeKeys ord (map fst m))"

section \<open>The ledger (package storage, SQLite implementation)\<close>

text \<open>
  The table \<open>managed_resources\<close> is the list of its rows.  It has the primary key
  \<open>id\<close> and the constraint \<open>UNIQUE(resource_type, hostname, record_type)\<close>.
  The statements are modelled by their effect on the rows; failures of the
  database engine itself (I/O) are outside the model, so the only error a
  statement returns is a violated constraint.
\<close>

definition sameKey :: "ManagedResource \<Rightarrow> ManagedResource \<Rightarrow> bool" where
  "sameKey a b =
     (ResourceType a = ResourceType b \<and> Hostname a = Hostname b \<and> RecordType a = RecordType b)"

text \<open>The \<open>DO UPDATE SET\<close> list of \<open>SaveResource\<close>: every column except \<open>id\<close>, the
  three key columns and \<open>created_at\<close> is taken from the new row.\<close>

definition upsertRow :: "ManagedResource \<Rightarrow> ManagedResource \<Rightarrow> ManagedResource" where
  "upsertRow old new =
     old\<lparr>CFID := CFID new, ZoneID := ZoneID new, Content := Content new,
         Proxied := Proxied new, TTL := TTL new, TunnelID := TunnelID new,
         Service := Service new, Path := Path new, AccessAppID := AccessAppID new,
         AccountID := AccountID new, ContainerID := ContainerID new,
         ContainerName := ContainerName new, ServiceName := ServiceName new,
         AgentID := AgentID new, Status := Status new,
         CleanupEnabled := CleanupEnabled new, LastError := LastError new,
         UpdatedAt := UpdatedAt new, DeletedAt := DeletedAt new\<rparr>"

text \<open>\<open>SaveResource\<close> first fills in the ID and the timestamps of the in-memory
  resource (\<open>stampResource\<close>), then upserts the row (\<open>upsertLedger\<close>).  The
  stamped resource is returned next to the error.\<close>

definition stampResource :: "'r env \<Rightarrow> ManagedResource \<Rightarrow> 'r world \<Rightarrow> ManagedResource \<times> 'r world" where
  "stampResource e resource w =
     (let (rid, w1) = (if ID resource = '''' then uuidNew e w else (ID resource, w));
          (created, w2) = (if CreatedAt resource = 0 then Now e w1 else (CreatedAt resource, w1));
          (updated, w3) = Now e w2
      in (resource\<lparr>ID := rid, CreatedAt := created, UpdatedAt := updated\<rparr>, w3))"

definition upsertLedger ::
  "ManagedResource \<Rightarrow> ManagedResource list \<Rightarrow> string option \<times> ManagedResource list" where
  "upsertLedger r rows =
     (if \<exists>x \<in> set rows. sameKey x r then
        (None, map (\<lambda>x. if sameKey x r then upsertRow x r else x) rows)
      else if \<exists>x \<in> set rows. ID x = ID r then
        (Some ''UNIQUE constraint failed: managed_resources.id'', rows)
      else (None, rows @ [r]))"

definition SaveResource ::
  "'r env \<Rightarrow> ManagedResource \<Rightarrow> 'r world \<Rightarrow> string option \<times> ManagedResource \<times> 'r world" where
  "SaveResource e resource w =
     (let (r, w1) = stampResource e resource w;
          (err, rows) = upsertLedger r (ledger w1)
      in (err, r, w1\<lparr>ledger := rows\<rparr>))"

definition UpdateResourceStatus ::
  "'r env \<Rightarrow> string \<Rightarrow> string \<Rightarrow> 'r world \<Rightarrow> string option \<times> 'r world" where
  "UpdateResourceStatus e rid status w =
     (let (now, w1) = Now e w
      in (None,
          w1\<lparr>ledger :=
               map (\<lambda>x. if ID x = rid then
                           (if status = StatusDeleted
                            then x\<lparr>Status := status, UpdatedAt := now, DeletedAt := Some now\<rparr>
                            else x\<lparr>Status := status, UpdatedAt := now\<rparr>)
                         else x) (ledger w1)\<rparr>))"

definition UpdateResourceError ::
  "'r env \<Rightarrow> string \<Rightarrow> string \<Rightarrow> string \<Rightarrow> 'r world \<Rightarrow> string option \<times> 'r world" where
  "UpdateResourceError e rid status lastError w =
     (let (now, w1) = Now e w
      in (None,
          w1\<lparr>ledger :=
               map (\<lambda>x. if ID x = rid
                         then x\<lparr>Status := status, LastError := lastError, UpdatedAt := now\<rparr>
                         else x) (ledger w1)\<rparr>))"

definition DeleteResource :: "string \<Rightarrow> 'r world \<Rightarrow> string option \<times> 'r world" where
  "DeleteResource rid w = (None, w\<lparr>ledger := filter (\<lambda>x. ID x \<noteq> rid) (ledger w)\<rparr>)"

text \<open>\<open>ListResources\<close> with the filter the operators use (a resource type and a list
  of statuses), ordered by \<open>created_at DESC\<close>.\<close>

definition ListResources :: "string \<Rightarrow> string list \<Rightarrow> 'r world \<Rightarrow> ManagedResource list" where
  "ListResources resourceType statuses w =
     rev (sort_key CreatedAt
       (filter (\<lambda>x. (resourceType = '''' \<or> ResourceType x = resourceType) \<and>
                     (statuses = [] \<or> Status x \<in> set statuses)) (ledger w)))"

definition ListExpiredOrphans :: "int \<Rightarrow> 'r world \<Rightarrow> ManagedResource list" where
  "ListExpiredOrphans olderThan w =
     sort_key UpdatedAt
       (filter (\<lambda>x. Status x = ''orphaned'' \<and> CleanupEnabled x = False \<and> UpdatedAt x < olderThan)
          (ledger w))"

definition ListOrphanedForCleanup :: "int \<Rightarrow> 'r world \<Rightarrow> ManagedResource list" where
  "ListOrphanedForCleanup olderThan w =
     sort_key UpdatedAt
       (filter (\<lambda>x. Status x = ''orphaned'' \<and> CleanupEnabled x = True \<and> UpdatedAt x < olderThan)
          (ledger w))"

section \<open>Client construction (\<open>CredentialManager\<close>)\<close>

definition NewClient :: "string \<Rightarrow> Client" where
  "NewClient token = \<lparr>apiToken = token, accountID = '''', zoneCache = Map.empty, zonesLoaded = False\<rparr>"

text \<open>A \<open>*Client\<close> is referred to by the credential name under which the manager
  caches it; \<open>clientOf\<close> dereferences it.\<close>

definition clientOf :: "'r world \<Rightarrow> string \<Rightarrow> Client" where
  "clientOf w ref = (case map_of (clients w) ref of Some c \<Rightarrow> c | None \<Rightarrow> NewClient '''')"

definition setClient :: "string \<Rightarrow> Client \<Rightarrow> 'r world \<Rightarrow> 'r world" where
  "setClient ref c w = w\<lparr>clients := AList.update ref c (clients w)\<rparr>"

definition SetAccountID :: "string \<Rightarrow> string \<Rightarrow> 'r world \<Rightarrow> 'r world" where
  "SetAccountID ref acct w = setClient ref ((clientOf w ref)\<lparr>accountID := acct\<rparr>) w"

definition GetClient :: "Credential \<Rightarrow> 'r world \<Rightarrow> (string + string) \<times> 'r world" where
  "GetClient cred w =
     (case map_of (clients w) (Name cred) of
        Some c \<Rightarrow> (Inr (Name cred), w)
      | None \<Rightarrow>
          if APIToken cred = '''' then
            (Inl (''invalid credential '' @ Name cred @ '': missing API token''), w)
          else (Inr (Name cred), setClient (Name cred) (NewClient (APIToken cred)) w))"

definition GetClientForHostname ::
  "CredentialManager \<Rightarrow> string \<Rightarrow> string \<Rightarrow> 'r world \<Rightarrow> (string + string) \<times> 'r world" where
  "GetClientForHostname cm hostname explicitCredName w =
     (case GetCredentialForZone cm hostname explicitCredName of
        Inl err \<Rightarrow> (Inl err, w)
      | Inr cred \<Rightarrow> GetClient cred w)"

fun findTunnelCredential :: "TunnelCredential list \<Rightarrow> string \<Rightarrow> TunnelCredential option" where
  "findTunnelCredential [] x = None"
| "findTunnelCredential (tc # tcs) x =
     (if tcTunnelID tc = x \<or> tcTunnelName tc = x then Some tc else findTunnelCredential tcs x)"

definition GetTunnelCredential :: "CredentialManager \<Rightarrow> string \<Rightarrow> string + TunnelCredential" where
  "GetTunnelCredential cm tunnelIDOrName =
     (case findTunnelCredential (tunnelCredentials cm) tunnelIDOrName of
        Some tc \<Rightarrow> Inr tc
      | None \<Rightarrow> Inl (''tunnel credential not found: '' @ tunnelIDOrName))"

definition GetTunnelClient ::
  "CredentialManager \<Rightarrow> string \<Rightarrow> 'r world
     \<Rightarrow> (string + string \<times> TunnelCredential option) \<times> 'r world" where
  "GetTunnelClient cm tunnelIDOrName w =
     (case GetTunnelCredential cm tunnelIDOrName of
        Inl err \<Rightarrow>
          (case defaultCredential cm of
             Some d \<Rightarrow>
               (case GetClient d w of
                  (Inl clientErr, w1) \<Rightarrow> (Inl clientErr, w1)
                | (Inr client, w1) \<Rightarrow>
                    (case tunnelCredentials cm of
                       tc0 # _ \<Rightarrow> (Inr (client, Some tc0), SetAccountID client (tcAccountID tc0) w1)
                     | [] \<Rightarrow> (Inr (client, None), w1)))
           | None \<Rightarrow> (Inl err, w))
      | Inr tunnelCred \<Rightarrow>
          (let cred =
                 (if tcCredential tunnelCred \<noteq> '''' then
                    (case GetCredentialForZone cm '''' (tcCredential tunnelCred) of
                       Inl err \<Rightarrow> defaultCredential cm
                     | Inr c \<Rightarrow> Some c)
                  else defaultCredential cm)
           in case cred of
                None \<Rightarrow> (Inl (''no credential available for tunnel '' @ tunnelIDOrName), w)
              | Some c \<Rightarrow>
                  (case GetClient c w of
                     (Inl err, w1) \<Rightarrow> (Inl err, w1)
                   | (Inr client, w1) \<Rightarrow>
                       (Inr (client, Some tunnelCred),
                        SetAccountID client (tcAccountID tunnelCred) w1))))"

definition ListTunnels :: "CredentialManager \<Rightarrow> string list" where
  "ListTunnels cm = map tcTunnelName (tunnelCredentials cm)"

section \<open>Zone resolution and DNS requests of a client (\<open>Client\<close>, \<open>DNSClient\<close>)\<close>

text \<open>\<open>Client.GetZoneID\<close> in the world: the zone listing is requested from the remote
  system only while the client's cache is not loaded.\<close>

definition clientGetZoneID ::
  "'r env \<Rightarrow> string \<Rightarrow> string \<Rightarrow> 'r world \<Rightarrow> (string + string) \<times> 'r world" where
  "clientGetZoneID e ref hostname w =
     (let c = clientOf w ref in
      if zonesLoaded c then
        (let (res, c') = GetZoneID (Inr []) c hostname in (res, w))
      else
        (let (resp, w1) = invoke e (ZonesList (apiToken c)) w;
             zoneList = (case resp of
                           RespZones zs \<Rightarrow> Inr zs
                         | RespErr err \<Rightarrow> Inl err
                         | _ \<Rightarrow> Inl ''unexpected response'');
             (res, c') = GetZoneID zoneList c hostname
         in (res, setClient ref c' w1)))"

text \<open>\<open>buildRecordBody\<close> and \<open>buildUpdateRecordBody\<close>: the TTL defaults to 1 (auto) and
  only six record types are supported.\<close>

definition buildRecordBody :: "DNSRecord \<Rightarrow> string + DNSRecord" where
  "buildRecordBody record =
     (if recType record \<in> {''A'', ''AAAA'', ''CNAME'', ''TXT'', ''MX'', ''CAA''} then
        Inr (record\<lparr>recTTL := (if recTTL record > 0 then recTTL record else 1)\<rparr>)
      else Inl (''unsupported DNS record type: '' @ recType record))"

definition convertRecordResponse :: "DNSRecord \<Rightarrow> string \<Rightarrow> string \<Rightarrow> DNSRecord" where
  "convertRecordResponse resp zoneID zoneName = resp\<lparr>recZoneID := zoneID, recZoneName := zoneName\<rparr>"

definition CreateRecord ::
  "'r env \<Rightarrow> string \<Rightarrow> DNSRecord \<Rightarrow> 'r world \<Rightarrow> (string + DNSRecord) \<times> 'r world" where
  "CreateRecord e ref record w =
     (case (if recZoneID record = '''' then clientGetZoneID e ref (recName record) w
            else (Inr (recZoneID record), w)) of
        (Inl err, w1) \<Rightarrow> (Inl (''failed to get zone ID: '' @ err), w1)
      | (Inr zoneID, w1) \<Rightarrow>
          (case buildRecordBody record of
             Inl err \<Rightarrow> (Inl err, w1)
           | Inr body \<Rightarrow>
               (case invoke e (RecordsNew (apiToken (clientOf w1 ref)) zoneID body) w1 of
                  (RespRecord result, w2) \<Rightarrow>
                    (Inr (convertRecordResponse result zoneID (recZoneName record)), w2)
                | (RespErr err, w2) \<Rightarrow> (Inl (''failed to create DNS record: '' @ err), w2)
                | (_, w2) \<Rightarrow> (Inl ''failed to create DNS record: unexpected response'', w2))))"

definition GetRecordByName ::
  "'r env \<Rightarrow> string \<Rightarrow> string \<Rightarrow> string \<Rightarrow> 'r world
     \<Rightarrow> (string + DNSRecord option) \<times> 'r world" where
  "GetRecordByName e ref hostname recordType w =
     (case clientGetZoneID e ref hostname w of
        (Inl err, w1) \<Rightarrow> (Inl err, w1)
      | (Inr zoneID, w1) \<Rightarrow>
          (case invoke e (RecordsList (apiToken (clientOf w1 ref)) zoneID hostname recordType) w1 of
             (RespRecords [], w2) \<Rightarrow> (Inr None, w2)
           | (RespRecords (r # rs), w2) \<Rightarrow> (Inr (Some (convertRecordResponse r zoneID '''')), w2)
           | (RespErr err, w2) \<Rightarrow> (Inl (''failed to list DNS records: '' @ err), w2)
           | (_, w2) \<Rightarrow> (Inl ''failed to list DNS records: unexpected response'', w2)))"

definition UpdateRecord ::
  "'r env \<Rightarrow> string \<Rightarrow> DNSRecord \<Rightarrow> 'r world \<Rightarrow> (string + DNSRecord) \<times> 'r world" where
  "UpdateRecord e ref record w =
     (if recID record = '''' then (Inl ''record ID is required for update'', w)
      else
        (case (if recZoneID record = '''' then clientGetZoneID e ref (recName record) w
               else (Inr (recZoneID record), w)) of
           (Inl err, w1) \<Rightarrow> (Inl (''failed to get zone ID: '' @ err), w1)
         | (Inr zoneID, w1) \<Rightarrow>
             (case buildRecordBody record of
                Inl err \<Rightarrow> (Inl err, w1)
              | Inr body \<Rightarrow>
                  (case invoke e (RecordsUpdate (apiToken (clientOf w1 ref)) zoneID (recID record) body) w1 of
                     (RespRecord result, w2) \<Rightarrow>
                       (Inr (convertRecordResponse result zoneID (recZoneName record)), w2)
                   | (RespErr err, w2) \<Rightarrow> (Inl (''failed to update DNS record: '' @ err), w2)
                   | (_, w2) \<Rightarrow> (Inl ''failed to update DNS record: unexpected response'', w2)))))"

definition DeleteRecord ::
  "'r env \<Rightarrow> string \<Rightarrow> string \<Rightarrow> string \<Rightarrow> 'r world \<Rightarrow> string option \<times> 'r world" where
  "DeleteRecord e ref zoneID recordID w =
     (case invoke e (RecordsDelete (apiToken (clientOf w ref)) zoneID recordID) w of
        (RespErr err, w1) \<Rightarrow> (Some (''failed to delete DNS record: '' @ err), w1)
      | (_, w1) \<Rightarrow> (None, w1))"

text \<open>
  \<open>getPublicIP\<close> asks three address-discovery services over HTTP, in a fixed
  order, and returns the first usable answer.  The reply \<open>RespText body\<close> stands
  for a response with status 200 whose first read yields \<open>body\<close>; any other reply
  stands for a failed request or another status, and the next service is asked.  Of
  the body at most 64 bytes are read and the last byte read is cut off
  unconditionally; what is left is returned when \<open>net.ParseIP\<close> accepts it.  On a
  response with status 200 and an empty body the source panics on the cut; the
  model has no panics, and there the cut leaves the empty string, which
  \<open>net.ParseIP\<close> rejects, so that the next service is asked.
\<close>

fun askIPServices :: "'r env \<Rightarrow> string list \<Rightarrow> 'r world \<Rightarrow> (string + string) \<times> 'r world" where
  "askIPServices e [] w = (Inl ''failed to get public IP'', w)"
| "askIPServices e (svc # services) w =
     (case invoke e (PublicIPGet svc) w of
        (RespText body, w1) \<Rightarrow>
          (let ip = butlast (take 64 body)
           in if ip \<noteq> '''' \<and> parseIP e ip then (Inr ip, w1) else askIPServices e services w1)
      | (_, w1) \<Rightarrow> askIPServices e services w1)"

definition getPublicIP :: "'r env \<Rightarrow> 'r world \<Rightarrow> (string + string) \<times> 'r world" where
  "getPublicIP e w =
     askIPServices e [''https://api.ipify.org'', ''https://ifconfig.me/ip'', ''https://icanhazip.com''] w"

section \<open>The naming operator (package dns, \<open>DNSOperatorImpl\<close>)\<close>

definition isAlreadyExistsError :: "string \<Rightarrow> bool" where
  "isAlreadyExistsError err = Contains err ''already exists''"

definition isNotFoundError :: "string \<Rightarrow> bool" where
  "isNotFoundError s = (Contains s ''Record does not exist'' \<or> Contains s ''404'')"

definition needsUpdate :: "ManagedResource \<Rightarrow> DNSService \<Rightarrow> bool" where
  "needsUpdate current desired =
     (if dnsTarget desired \<noteq> ''auto'' \<and> dnsTarget desired \<noteq> Content current then True
      else if dnsProxied desired \<noteq> Proxied current then True
      else if dnsTTL desired \<noteq> TTL current \<and> dnsTTL desired \<noteq> 0 then True
      else if dnsServiceName desired \<noteq> ServiceName current then True
      else False)"

definition resolveTarget ::
  "'r env \<Rightarrow> string \<Rightarrow> ContainerInfo \<Rightarrow> 'r world \<Rightarrow> (string + string) \<times> 'r world" where
  "resolveTarget e target container w =
     (if target = ''auto'' \<or> target = '''' then getPublicIP e w
      else if target = ''container'' then
        (case ciNetworks container of
           (net, ip) # _ \<Rightarrow> (Inr ip, w)
         | [] \<Rightarrow> (Inl ''container has no network IP'', w))
      else (Inr target, w))"

definition CreateDNSRecord ::
  "'r env \<Rightarrow> ContainerInfo \<Rightarrow> DNSService \<Rightarrow> 'r world
     \<Rightarrow> (string + ManagedResource) \<times> 'r world" where
  "CreateDNSRecord e container service w =
     (case GetClientForHostname (credManager e) (dnsHostname service) (dnsCredential service) w of
        (Inl err, w1) \<Rightarrow> (Inl (''failed to get client: '' @ err), w1)
      | (Inr client, w1) \<Rightarrow>
      (case resolveTarget e (dnsTarget service) container w1 of
        (Inl err, w2) \<Rightarrow> (Inl (''failed to resolve target: '' @ err), w2)
      | (Inr target, w2) \<Rightarrow>
      (case clientGetZoneID e client (dnsHostname service) w2 of
        (Inl err, w3) \<Rightarrow> (Inl err, w3)
      | (Inr zoneID, w3) \<Rightarrow>
      (let record =
             \<lparr>recID = '''', recZoneID = zoneID, recZoneName = '''',
              recName = dnsHostname service, recType = dnsType service,
              recContent = target, recProxied = dnsProxied service, recTTL = dnsTTL service,
              recPriority = dnsPriority service,
              recComment = ''Managed by labelgate [container:'' @ ciName container @
                           '' service:'' @ dnsServiceName service @ '']''\<rparr>;
           (created, w5) =
             (case CreateRecord e client record w3 of
                (Inr c, w4) \<Rightarrow> (Inr c, w4)
              | (Inl err, w4) \<Rightarrow>
                  if isAlreadyExistsError err then
                    (case GetRecordByName e client (dnsHostname service) (dnsType service) w4 of
                       (Inr (Some existing), w4') \<Rightarrow> (Inr existing, w4')
                     | (_, w4') \<Rightarrow> (Inl err, w4'))
                  else (Inl err, w4))
       in case created of
            Inl err \<Rightarrow> (Inl err, w5)
          | Inr c \<Rightarrow>
              (let resource =
                     emptyResource
                       \<lparr>ResourceType := ResourceTypeDNS, CFID := recID c, ZoneID := zoneID,
                        Hostname := dnsHostname service, RecordType := dnsType service,
                        Content := target, Proxied := dnsProxied service, TTL := dnsTTL service,
                        ContainerID := ciID container, ContainerName := ciName container,
                        ServiceName := dnsServiceName service, Status := StatusActive,
                        CleanupEnabled := dnsCleanup service\<rparr>
               in case SaveResource e resource w5 of
                    (Some err, r, w6) \<Rightarrow>
                      (let (rollback, w7) = DeleteRecord e client zoneID (recID c) w6
                       in (Inl (''failed to save resource: '' @ err), w7))
                  | (None, r, w6) \<Rightarrow> (Inr r, w6))))))"

text \<open>\<open>UpdateDNSRecord\<close> mutates the in-memory resource it is given; the mutated
  resource is returned next to the error.\<close>

definition UpdateDNSRecord ::
  "'r env \<Rightarrow> ManagedResource \<Rightarrow> DNSService \<Rightarrow> 'r world
     \<Rightarrow> string option \<times> ManagedResource \<times> 'r world" where
  "UpdateDNSRecord e resource service w =
     (case GetClientForHostname (credManager e) (dnsHostname service) (dnsCredential service) w of
        (Inl err, w1) \<Rightarrow> (Some err, resource, w1)
      | (Inr client, w1) \<Rightarrow>
      (case (if CFID resource = '''' \<or> ZoneID resource = '''' then
               (case GetRecordByName e client (dnsHostname service) (dnsType service) w1 of
                  (Inr (Some existing), w2) \<Rightarrow>
                    (Inr (resource\<lparr>CFID := recID existing, ZoneID := recZoneID existing\<rparr>), w2)
                | (_, w2) \<Rightarrow>
                    (Inl (''cannot update: record not found in Cloudflare and no CFID in storage for ''
                          @ dnsHostname service), w2))
             else (Inr resource, w1)) of
        (Inl err, w2) \<Rightarrow> (Some err, resource, w2)
      | (Inr resource1, w2) \<Rightarrow>
      (case (if dnsTarget service = ''auto'' \<or> dnsTarget service = '''' then getPublicIP e w2
             else (Inr (dnsTarget service), w2)) of
        (Inl err, w3) \<Rightarrow> (Some err, resource1, w3)
      | (Inr target, w3) \<Rightarrow>
      (let record =
             \<lparr>recID = CFID resource1, recZoneID = ZoneID resource1, recZoneName = '''',
              recName = dnsHostname service, recType = dnsType service,
              recContent = target, recProxied = dnsProxied service, recTTL = dnsTTL service,
              recPriority = dnsPriority service, recComment = ''''\<rparr>
       in case UpdateRecord e client record w3 of
            (Inl err, w4) \<Rightarrow> (Some err, resource1, w4)
          | (Inr updated, w4) \<Rightarrow>
              SaveResource e
                (resource1\<lparr>Content := target, Proxied := dnsProxied service, TTL := dnsTTL service,
                           ServiceName := dnsServiceName service,
                           CleanupEnabled := dnsCleanup service\<rparr>) w4))))"

definition DeleteDNSRecord ::
  "'r env \<Rightarrow> ManagedResource \<Rightarrow> 'r world \<Rightarrow> string option \<times> 'r world" where
  "DeleteDNSRecord e resource w =
     (case GetClientForHostname (credManager e) (Hostname resource) '''' w of
        (Inl err, w1) \<Rightarrow> (Some err, w1)
      | (Inr client, w1) \<Rightarrow>
          (case DeleteRecord e client (ZoneID resource) (CFID resource) w1 of
             (Some err, w2) \<Rightarrow>
               if \<not> isNotFoundError err then (Some err, w2)
               else DeleteResource (ID resource) w2
           | (None, w2) \<Rightarrow> DeleteResource (ID resource) w2))"

text \<open>The desired map of \<open>Reconcile\<close>, keyed by \<open>hostname:type\<close>; the first
  container to declare a key keeps it.\<close>

definition dnsKey :: "string \<Rightarrow> string \<Rightarrow> string" where
  "dnsKey hostname recordType = hostname @ '':'' @ recordType"

fun addDesiredDNS ::
  "ParsedContainer \<Rightarrow> DNSService list \<Rightarrow> (string \<times> ParsedContainer \<times> DNSService) list
     \<Rightarrow> (string \<times> ParsedContainer \<times> DNSService) list" where
  "addDesiredDNS container [] m = m"
| "addDesiredDNS container (svc # svcs) m =
     (let key = dnsKey (dnsHostname svc) (dnsType svc) in
      if map_of m key \<noteq> None then addDesiredDNS container svcs m
      else addDesiredDNS container svcs (m @ [(key, (container, svc))]))"

fun desiredDNSMap ::
  "ParsedContainer list \<Rightarrow> (string \<times> ParsedContainer \<times> DNSService) list
     \<Rightarrow> (string \<times> ParsedContainer \<times> DNSService) list" where
  "desiredDNSMap [] m = m"
| "desiredDNSMap (container # rest) m =
     desiredDNSMap rest (addDesiredDNS container (DNSServices container) m)"

fun currentDNSMap ::
  "ManagedResource list \<Rightarrow> (string \<times> ManagedResource) list \<Rightarrow> (string \<times> ManagedResource) list" where
  "currentDNSMap [] m = m"
| "currentDNSMap (r # rs) m = currentDNSMap rs (AList.update (dnsKey (Hostname r) (RecordType r)) r m)"

text \<open>The two branches of the loop body of \<open>Reconcile\<close>: no ledger row for the key
  (create), or a ledger row (update when needed).\<close>

definition dnsCreateBranch ::
  "'r env \<Rightarrow> ParsedContainer \<times> DNSService \<Rightarrow> 'r world \<Rightarrow> 'r world" where
  "dnsCreateBranch e d w =
     (let (container, service) = d in
      case CreateDNSRecord e (Info container) service w of
        (Inl err, w1) \<Rightarrow>
          (let errResource =
                 emptyResource
                   \<lparr>ResourceType := ResourceTypeDNS, Hostname := dnsHostname service,
                    RecordType := dnsType service, Content := dnsTarget service,
                    Proxied := dnsProxied service, TTL := dnsTTL service,
                    ContainerID := ciID (Info container), ContainerName := ciName (Info container),
                    ServiceName := dnsServiceName service, AgentID := pcAgentID container,
                    Status := StatusError, LastError := err,
                    CleanupEnabled := dnsCleanup service\<rparr>;
               (saveErr, r, w2) = SaveResource e errResource w1
           in w2)
      | (Inr resource, w1) \<Rightarrow>
          if pcAgentID container \<noteq> '''' then
            (let (saveErr, r, w2) = SaveResource e (resource\<lparr>AgentID := pcAgentID container\<rparr>) w1
             in w2)
          else w1)"

definition dnsUpdateBranch ::
  "'r env \<Rightarrow> ParsedContainer \<times> DNSService \<Rightarrow> ManagedResource \<Rightarrow> 'r world \<Rightarrow> 'r world" where
  "dnsUpdateBranch e d current0 w =
     (let (container, service) = d;
          (current, w1) =
            (if AgentID current0 \<noteq> pcAgentID container then
               (let (saveErr, r, w') = SaveResource e (current0\<lparr>AgentID := pcAgentID container\<rparr>) w
                in (r, w'))
             else (current0, w))
      in if Status current = StatusError \<or> Status current = StatusOrphaned \<or>
            needsUpdate current service then
           (case UpdateDNSRecord e current service w1 of
              (Some err, current', w2) \<Rightarrow>
                snd (UpdateResourceError e (ID current') StatusError err w2)
            | (None, current', w2) \<Rightarrow>
                if LastError current' \<noteq> '''' \<or> Status current' \<noteq> StatusActive then
                  snd (UpdateResourceError e (ID current') StatusActive '''' w2)
                else w2)
         else w1)"

fun dnsReconcileLoop ::
  "'r env \<Rightarrow> (string \<times> ParsedContainer \<times> DNSService) list
     \<Rightarrow> (string \<times> ManagedResource) list \<times> 'r world
     \<Rightarrow> (string \<times> ManagedResource) list \<times> 'r world" where
  "dnsReconcileLoop e [] s = s"
| "dnsReconcileLoop e ((key, d) # rest) (currentMap, w) =
     (case map_of currentMap key of
        None \<Rightarrow> dnsReconcileLoop e rest (currentMap, dnsCreateBranch e d w)
      | Some current \<Rightarrow>
          dnsReconcileLoop e rest (AList.delete key currentMap, dnsUpdateBranch e d current w))"

text \<open>The loop that marks every remaining ledger row as orphaned; the three
  operators share its body.\<close>

fun markOrphaned :: "'r env \<Rightarrow> ManagedResource list \<Rightarrow> 'r world \<Rightarrow> 'r world" where
  "markOrphaned e [] w = w"
| "markOrphaned e (resource # rest) w =
     (if Status resource \<noteq> StatusOrphaned then
        markOrphaned e rest (snd (UpdateResourceStatus e (ID resource) StatusOrphaned w))
      else markOrphaned e rest w)"

definition DNS_Reconcile ::
  "'r env \<Rightarrow> ParsedContainer list \<Rightarrow> 'r world \<Rightarrow> string option \<times> 'r world" where
  "DNS_Reconcile e desired w =
     (let desiredMap = desiredDNSMap desired [];
          resources = ListResources ResourceTypeDNS [StatusActive, StatusError, StatusOrphaned] w;
          currentMap = currentDNSMap resources [];
          (remaining, w1) =
            dnsReconcileLoop e (rangeMap (rangeOrder e) desiredMap) (currentMap, w);
          w2 = markOrphaned e (map snd (rangeMap (rangeOrder e) remaining)) w1
      in (None, w2))"

section \<open>Tunnel requests of a client (\<open>TunnelClient\<close>)\<close>

text \<open>A \<open>TunnelClient\<close> (and likewise an \<open>AccessClient\<close>) is a client reference with
  an account ID, which defaults to the account ID set on the client.\<close>

definition NewTunnelClient :: "'r world \<Rightarrow> string \<Rightarrow> string \<Rightarrow> string \<times> string" where
  "NewTunnelClient w ref acct = (ref, if acct = '''' then accountID (clientOf w ref) else acct)"

text \<open>The reply to \<open>TunnelConfigGet\<close> is the rule list already converted to the
  internal rule type.\<close>

definition GetTunnelConfiguration ::
  "'r env \<Rightarrow> string \<times> string \<Rightarrow> string \<Rightarrow> 'r world
     \<Rightarrow> (string + TunnelIngress list) \<times> 'r world" where
  "GetTunnelConfiguration e t tunnelID w =
     (let (ref, acct) = t in
      if acct = '''' then (Inl ''account ID is required for tunnel operations'', w)
      else
        (case invoke e (TunnelConfigGet (apiToken (clientOf w ref)) acct tunnelID) w of
           (RespIngress rules, w1) \<Rightarrow> (Inr rules, w1)
         | (RespErr err, w1) \<Rightarrow> (Inl (''failed to get tunnel configuration: '' @ err), w1)
         | (_, w1) \<Rightarrow> (Inl ''failed to get tunnel configuration: unexpected response'', w1)))"

definition catchAllRule :: TunnelIngress where
  "catchAllRule =
     \<lparr>ingHostname = '''', ingPath = '''', ingService = ''http_status:404'', ingOriginRequest = None\<rparr>"

definition UpdateTunnelConfiguration ::
  "'r env \<Rightarrow> string \<times> string \<Rightarrow> string \<Rightarrow> TunnelIngress list \<Rightarrow> 'r world
     \<Rightarrow> string option \<times> 'r world" where
  "UpdateTunnelConfiguration e t tunnelID ingresses w =
     (let (ref, acct) = t in
      if acct = '''' then (Some ''account ID is required for tunnel operations'', w)
      else
        (let ingressParams =
               (if ingresses = [] \<or> ingHostname (last ingresses) \<noteq> ''''
                then ingresses @ [catchAllRule] else ingresses)
         in case invoke e (TunnelConfigUpdate (apiToken (clientOf w ref)) acct tunnelID ingressParams) w of
              (RespErr err, w1) \<Rightarrow> (Some (''failed to update tunnel configuration: '' @ err), w1)
            | (_, w1) \<Rightarrow> (None, w1)))"

definition TunnelClient_RemoveIngressRule ::
  "'r env \<Rightarrow> string \<times> string \<Rightarrow> string \<Rightarrow> string \<Rightarrow> 'r world \<Rightarrow> string option \<times> 'r world" where
  "TunnelClient_RemoveIngressRule e t tunnelID hostname w =
     (case GetTunnelConfiguration e t tunnelID w of
        (Inl err, w1) \<Rightarrow> (Some (''failed to get current configuration: '' @ err), w1)
      | (Inr config, w1) \<Rightarrow>
          (let named = filter (\<lambda>rule. ingHostname rule \<noteq> '''') config;
               found = (\<exists>rule \<in> set named. ingHostname rule = hostname);
               ingresses = filter (\<lambda>rule. ingHostname rule \<noteq> hostname) named
           in if \<not> found then (None, w1)
              else UpdateTunnelConfiguration e t tunnelID ingresses w1))"

section \<open>The ingress operator (package tunnel, \<open>TunnelOperatorImpl\<close>)\<close>





















text \<open>\<open>RemoveIngressRule\<close> of the operator, which is its \<open>Delete\<close>.\<close>

fun listTunnelCredentialsLoop ::
  "CredentialManager \<Rightarrow> string list \<Rightarrow> (string \<times> TunnelCredential) list
     \<Rightarrow> (string \<times> TunnelCredential) list" where
  "listTunnelCredentialsLoop cm [] m = m"
| "listTunnelCredentialsLoop cm (name # names) m =
     (case GetTunnelCredential cm name of
        Inr cred \<Rightarrow> listTunnelCredentialsLoop cm names (AList.update name cred m)
      | Inl err \<Rightarrow> listTunnelCredentialsLoop cm names m)"

definition listTunnelCredentials :: "CredentialManager \<Rightarrow> (string \<times> TunnelCredential) list" where
  "listTunnelCredentials cm = listTunnelCredentialsLoop cm (ListTunnels cm) []"

fun findTunnelName :: "(string \<times> TunnelCredential) list \<Rightarrow> string \<Rightarrow> string" where
  "findTunnelName [] tunnelID = ''''"
| "findTunnelName ((name, cred) # rest) tunnelID =
     (if tcTunnelID cred = tunnelID then name else findTunnelName rest tunnelID)"

definition RemoveIngressRule ::
  "'r env \<Rightarrow> ManagedResource \<Rightarrow> 'r world \<Rightarrow> string option \<times> 'r world" where
  "RemoveIngressRule e resource w =
     (let tunnelName =
            findTunnelName (rangeMap (rangeOrder e) (listTunnelCredentials (credManager e)))
              (TunnelID resource)
      in if tunnelName = '''' then
           (Some (''tunnel not found for resource: '' @ TunnelID resource), w)
         else
           (case GetTunnelClient (credManager e) tunnelName w of
              (Inl err, w1) \<Rightarrow> (Some err, w1)
            | (Inr (client, None), w1) \<Rightarrow>
                (Some (''tunnel credential not found: '' @ tunnelName), w1)
            | (Inr (client, Some tunnelCred), w1) \<Rightarrow>
                (let tunnelClient = NewTunnelClient w1 client (tcAccountID tunnelCred) in
                 case TunnelClient_RemoveIngressRule e tunnelClient (tcTunnelID tunnelCred)
                        (Hostname resource) w1 of
                   (Some err, w2) \<Rightarrow> (Some err, w2)
                 | (None, w2) \<Rightarrow> DeleteResource (ID resource) w2)))"

section \<open>Access requests of a client (\<open>AccessClient\<close>)\<close>

text \<open>Decimal rendering of a number (\<open>%d\<close>) and Go's quoted rendering of a string
  (\<open>%q\<close>, which is \<open>strconv.Quote\<close>): between double quotes, the double quote and
  the backslash are preceded by a backslash, the other printable ASCII characters
  (\<open>0x20\<close> to \<open>0x7E\<close>) stand for themselves, seven control characters have a
  letter escape and the remaining bytes below \<open>0x80\<close> are written as a backslash,
  the letter x and two lower-case hexadecimal digits.  Bytes from \<open>0x80\<close> on are copied, which is the
  rendering of the printable characters in UTF-8; the rendering of the other
  characters outside ASCII follows the Unicode tables of the standard library and
  is not modelled.\<close>

definition digitChar :: "nat \<Rightarrow> char" where
  "digitChar d = char_of (48 + d)"

function itoa :: "nat \<Rightarrow> string" where
  "itoa n = (if n < 10 then [digitChar n] else itoa (n div 10) @ [digitChar (n mod 10)])"
  by pat_completeness auto
termination
  by (relation "measure (\<lambda>n. n)") auto

declare itoa.simps [simp del]

definition hexDigit :: "nat \<Rightarrow> char" where
  "hexDigit d = (if d < 10 then char_of (48 + d) else char_of (87 + d))"

definition quoteByte :: "char \<Rightarrow> string" where
  "quoteByte c =
     (let n = (of_char c :: nat) in
      if c = CHR 0x22 \<or> c = CHR 0x5C then [CHR 0x5C, c]
      else if 0x20 \<le> n \<and> n < 0x7F then [c]
      else if c = CHR 0x07 then [CHR 0x5C, CHR ''a'']
      else if c = CHR 0x08 then [CHR 0x5C, CHR ''b'']
      else if c = CHR 0x0C then [CHR 0x5C, CHR ''f'']
      else if c = CHR 0x0A then [CHR 0x5C, CHR ''n'']
      else if c = CHR 0x0D then [CHR 0x5C, CHR ''r'']
      else if c = CHR 0x09 then [CHR 0x5C, CHR ''t'']
      else if c = CHR 0x0B then [CHR 0x5C, CHR ''v'']
      else if n < 0x80 then [CHR 0x5C, CHR ''x'', hexDigit (n div 16), hexDigit (n mod 16)]
      else [c])"

definition quoted :: "string \<Rightarrow> string" where
  "quoted s = [CHR 0x22] @ concat (map quoteByte s) @ [CHR 0x22]"

definition NewAccessClient :: "'r world \<Rightarrow> string \<Rightarrow> string \<Rightarrow> string \<times> string" where
  "NewAccessClient w ref acct = (ref, if acct = '''' then accountID (clientOf w ref) else acct)"

fun findAppByDomain :: "AccessApp list \<Rightarrow> string \<Rightarrow> string \<times> string" where
  "findAppByDomain [] hostname = ('''', '''')"
| "findAppByDomain (app # apps) hostname =
     (if aaDomain app = hostname then (aaID app, aaName app) else findAppByDomain apps hostname)"

definition FindExistingAccessApp ::
  "'r env \<Rightarrow> string \<times> string \<Rightarrow> string \<Rightarrow> 'r world \<Rightarrow> (string + string \<times> string) \<times> 'r world" where
  "FindExistingAccessApp e a hostname w =
     (let (ref, acct) = a in
      if acct = '''' then (Inl ''account ID is required for access operations'', w)
      else
        (case invoke e (AccessAppsList (apiToken (clientOf w ref)) acct) w of
           (RespApps apps, w1) \<Rightarrow> (Inr (findAppByDomain apps hostname), w1)
         | (RespErr err, w1) \<Rightarrow> (Inl (''failed to list access applications: '' @ err), w1)
         | (_, w1) \<Rightarrow> (Inl ''failed to list access applications: unexpected response'', w1)))"

definition createReusablePolicy ::
  "'r env \<Rightarrow> string \<times> string \<Rightarrow> AccessPolicy \<Rightarrow> nat \<Rightarrow> 'r world \<Rightarrow> (string + string) \<times> 'r world" where
  "createReusablePolicy e a policy index w =
     (let (ref, acct) = a;
          policyName =
            (if polName policy = '''' then ''labelgate-'' @ polDecision policy @ ''-'' @ itoa index
             else polName policy)
      in case invoke e (AccessPolicyNew (apiToken (clientOf w ref)) acct policy policyName) w of
           (RespID pid, w1) \<Rightarrow> (Inr pid, w1)
         | (RespErr err, w1) \<Rightarrow>
             (Inl (''failed to create reusable policy '' @ quoted policyName @ '': '' @ err), w1)
         | (_, w1) \<Rightarrow>
             (Inl (''failed to create reusable policy '' @ quoted policyName @
                   '': unexpected response''), w1))"

fun createPolicies ::
  "'r env \<Rightarrow> string \<times> string \<Rightarrow> string \<Rightarrow> AccessPolicy list \<Rightarrow> nat \<Rightarrow> (string \<times> int) list
     \<Rightarrow> 'r world \<Rightarrow> (string + (string \<times> int) list) \<times> 'r world" where
  "createPolicies e a hostname [] i links w = (Inr links, w)"
| "createPolicies e a hostname (policy # rest) i links w =
     (case createReusablePolicy e a policy i w of
        (Inl err, w1) \<Rightarrow>
          (Inl (''failed to create reusable policy '' @ itoa i @ '' for '' @ hostname @ '': '' @ err), w1)
      | (Inr policyID, w1) \<Rightarrow>
          createPolicies e a hostname rest (Suc i) (links @ [(policyID, int i + 1)]) w1)"

fun deletePolicies :: "'r env \<Rightarrow> string \<times> string \<Rightarrow> string list \<Rightarrow> 'r world \<Rightarrow> 'r world" where
  "deletePolicies e a [] w = w"
| "deletePolicies e a (p # ps) w =
     deletePolicies e a ps
       (snd (invoke e (AccessPolicyDelete (apiToken (clientOf w (fst a))) (snd a) p) w))"

definition cleanupOldAppPolicies :: "'r env \<Rightarrow> string \<times> string \<Rightarrow> string \<Rightarrow> 'r world \<Rightarrow> 'r world" where
  "cleanupOldAppPolicies e a appID w =
     (case invoke e (AccessAppPoliciesList (apiToken (clientOf w (fst a))) (snd a) appID) w of
        (RespIDs policies, w1) \<Rightarrow> deletePolicies e a policies w1
      | (_, w1) \<Rightarrow> w1)"

definition updateApplication ::
  "'r env \<Rightarrow> string \<times> string \<Rightarrow> string \<Rightarrow> string \<Rightarrow> string \<Rightarrow> string \<Rightarrow> (string \<times> int) list
     \<Rightarrow> 'r world \<Rightarrow> string option \<times> 'r world" where
  "updateApplication e a appID hostname appName sessionDuration links w =
     (case invoke e (AccessAppUpdate (apiToken (clientOf w (fst a))) (snd a) appID hostname appName
                       sessionDuration links) w of
        (RespErr err, w1) \<Rightarrow>
          (Some (''failed to update access application '' @ appID @ '': '' @ err), w1)
      | (_, w1) \<Rightarrow> (None, w1))"

definition createApplication ::
  "'r env \<Rightarrow> string \<times> string \<Rightarrow> string \<Rightarrow> string \<Rightarrow> string \<Rightarrow> (string \<times> int) list
     \<Rightarrow> 'r world \<Rightarrow> (string + string) \<times> 'r world" where
  "createApplication e a hostname appName sessionDuration links w =
     (case invoke e (AccessAppNew (apiToken (clientOf w (fst a))) (snd a) hostname appName
                       sessionDuration links) w of
        (RespID app, w1) \<Rightarrow> (Inr app, w1)
      | (RespErr err, w1) \<Rightarrow>
          (Inl (''failed to create access application for '' @ hostname @ '': '' @ err), w1)
      | (_, w1) \<Rightarrow>
          (Inl (''failed to create access application for '' @ hostname @
                '': unexpected response''), w1))"

definition EnsureAccessForHostname ::
  "'r env \<Rightarrow> string \<times> string \<Rightarrow> string \<Rightarrow> AccessPolicyDef \<Rightarrow> string \<Rightarrow> 'r world
     \<Rightarrow> (string + string) \<times> 'r world" where
  "EnsureAccessForHostname e a hostname policyDef existingAppID w =
     (if snd a = '''' then (Inl ''account ID is required for access operations'', w)
      else
        (case createPolicies e a hostname (pdPolicies policyDef) 0 [] w of
           (Inl err, w1) \<Rightarrow> (Inl err, w1)
         | (Inr policyLinks, w1) \<Rightarrow>
             (let appName =
                    (if pdAppName policyDef = '''' then ''labelgate-'' @ pdName policyDef
                     else pdAppName policyDef)
              in if existingAppID \<noteq> '''' then
                   (let w2 = cleanupOldAppPolicies e a existingAppID w1 in
                    case updateApplication e a existingAppID hostname appName
                           (pdSessionDuration policyDef) policyLinks w2 of
                      (Some err, w3) \<Rightarrow> (Inl err, w3)
                    | (None, w3) \<Rightarrow> (Inr existingAppID, w3))
                 else
                   createApplication e a hostname appName (pdSessionDuration policyDef)
                     policyLinks w1)))"

definition DeleteAccessApplication ::
  "'r env \<Rightarrow> string \<times> string \<Rightarrow> string \<Rightarrow> 'r world \<Rightarrow> string option \<times> 'r world" where
  "DeleteAccessApplication e a appID w =
     (if snd a = '''' then (Some ''account ID is required for access operations'', w)
      else
        (let w1 = cleanupOldAppPolicies e a appID w in
         case invoke e (AccessAppDelete (apiToken (clientOf w1 (fst a))) (snd a) appID) w1 of
           (RespErr err, w2) \<Rightarrow>
             (Some (''failed to delete access application '' @ appID @ '': '' @ err), w2)
         | (_, w2) \<Rightarrow> (None, w2)))"

section \<open>The access operator (package access, \<open>AccessOperatorImpl\<close>)\<close>

text \<open>The message of the conflict error of \<open>EnsureAccess\<close>.  Between \<open>labelgate\<close>
  and \<open>refusing\<close> the format string of the source file holds the eight bytes
  \<open>C3 A2 E2 82 AC E2 80 9D\<close>, which are kept as they are.\<close>

definition conflictMessage :: "string \<Rightarrow> string \<Rightarrow> string \<Rightarrow> string" where
  "conflictMessage existingAppName existingAppID hostname =
     ''access application '' @ quoted existingAppName @ '' (ID: '' @ existingAppID @
     '') already exists for hostname '' @ hostname @ '', not managed by labelgate '' @
     [CHR 0xC3, CHR 0xA2, CHR 0xE2, CHR 0x82, CHR 0xAC, CHR 0xE2, CHR 0x80, CHR 0x9D] @
     '' refusing to overwrite''"

definition EnsureAccess ::
  "'r env \<Rightarrow> ResolvedAccessBinding \<Rightarrow> 'r world \<Rightarrow> (string + ManagedResource) \<times> 'r world" where
  "EnsureAccess e binding w =
     (case GetTunnelClient (credManager e) ''default'' w of
        (Inl err, w1) \<Rightarrow> (Inl (''failed to get client for access: '' @ err), w1)
      | (Inr (client, tunnelCred), w1) \<Rightarrow>
      (let acct0 = (case tunnelCred of Some tc \<Rightarrow> tcAccountID tc | None \<Rightarrow> '''');
           acct = (if acct0 = '''' then accountID (clientOf w1 client) else acct0)
       in if acct = '''' then (Inl ''account ID is required for access operations'', w1)
          else
            (let accessClient = NewAccessClient w1 client acct;
                 (probe, w2) = FindExistingAccessApp e accessClient (bHostname binding) w1;
                 conflict =
                   (case probe of
                      Inl err \<Rightarrow> None
                    | Inr (existingAppID, existingAppName) \<Rightarrow>
                        if existingAppID \<noteq> '''' then
                          Some (conflictMessage existingAppName existingAppID (bHostname binding))
                        else None)
             in case conflict of
                  Some msg \<Rightarrow> (Inl msg, w2)
                | None \<Rightarrow>
                    (case EnsureAccessForHostname e accessClient (bHostname binding)
                            (bPolicyDef binding) '''' w2 of
                       (Inl err, w3) \<Rightarrow> (Inl err, w3)
                     | (Inr app, w3) \<Rightarrow>
                         (let resource =
                                emptyResource
                                  \<lparr>ResourceType := ResourceTypeAccessApp,
                                   Hostname := bHostname binding, CFID := app,
                                   AccessAppID := app, AccountID := acct,
                                   ContainerID := bContainerID binding,
                                   ContainerName := bContainerName binding,
                                   ServiceName := bServiceName binding,
                                   AgentID := bAgentID binding, Status := StatusActive,
                                   CleanupEnabled := bCleanup binding\<rparr>
                          in case SaveResource e resource w3 of
                               (Some err, r, w4) \<Rightarrow>
                                 (Inl (''failed to save access resource: '' @ err), w4)
                             | (None, r, w4) \<Rightarrow> (Inr r, w4))))))"

definition updateAccess ::
  "'r env \<Rightarrow> ManagedResource \<Rightarrow> ResolvedAccessBinding \<Rightarrow> 'r world
     \<Rightarrow> string option \<times> ManagedResource \<times> 'r world" where
  "updateAccess e existing binding w =
     (case GetTunnelClient (credManager e) ''default'' w of
        (Inl err, w1) \<Rightarrow> (Some (''failed to get client for access: '' @ err), existing, w1)
      | (Inr (client, tunnelCred), w1) \<Rightarrow>
      (let acct0 = AccountID existing;
           acct1 = (case tunnelCred of
                      Some tc \<Rightarrow> if acct0 = '''' then tcAccountID tc else acct0
                    | None \<Rightarrow> acct0);
           acct = (if acct1 = '''' then accountID (clientOf w1 client) else acct1);
           accessClient = NewAccessClient w1 client acct
       in case EnsureAccessForHostname e accessClient (bHostname binding) (bPolicyDef binding)
                 (AccessAppID existing) w1 of
            (Inl err, w2) \<Rightarrow> (Some err, existing, w2)
          | (Inr app, w2) \<Rightarrow>
              SaveResource e
                (existing\<lparr>ContainerID := bContainerID binding,
                          ContainerName := bContainerName binding,
                          ServiceName := bServiceName binding, AgentID := bAgentID binding,
                          CleanupEnabled := bCleanup binding\<rparr>) w2))"

definition RemoveAccess ::
  "'r env \<Rightarrow> ManagedResource \<Rightarrow> 'r world \<Rightarrow> string option \<times> 'r world" where
  "RemoveAccess e resource w =
     (if AccessAppID resource = '''' then DeleteResource (ID resource) w
      else
        (case GetTunnelClient (credManager e) ''default'' w of
           (Inl err, w1) \<Rightarrow> (Some (''failed to get client for access: '' @ err), w1)
         | (Inr (client, tunnelCred), w1) \<Rightarrow>
         (let acct0 = AccountID resource;
              acct1 = (case tunnelCred of
                         Some tc \<Rightarrow> if acct0 = '''' then tcAccountID tc else acct0
                       | None \<Rightarrow> acct0);
              acct = (if acct1 = '''' then accountID (clientOf w1 client) else acct1);
              accessClient = NewAccessClient w1 client acct
          in case DeleteAccessApplication e accessClient (AccessAppID resource) w1 of
               (Some err, w2) \<Rightarrow> (Some (''failed to delete access app: '' @ err), w2)
             | (None, w2) \<Rightarrow> DeleteResource (ID resource) w2)))"

text \<open>The maps of \<open>ReconcileBindings\<close>, keyed by hostname; a later binding for a
  hostname replaces an earlier one.\<close>

fun desiredAccessMap ::
  "ResolvedAccessBinding list \<Rightarrow> (string \<times> ResolvedAccessBinding) list
     \<Rightarrow> (string \<times> ResolvedAccessBinding) list" where
  "desiredAccessMap [] m = m"
| "desiredAccessMap (binding # rest) m =
     desiredAccessMap rest (AList.update (bHostname binding) binding m)"

fun currentAccessMap ::
  "ManagedResource list \<Rightarrow> (string \<times> ManagedResource) list \<Rightarrow> (string \<times> ManagedResource) list" where
  "currentAccessMap [] m = m"
| "currentAccessMap (r # rs) m = currentAccessMap rs (AList.update (Hostname r) r m)"

definition accessUpdateBranch ::
  "'r env \<Rightarrow> ResolvedAccessBinding \<Rightarrow> ManagedResource \<Rightarrow> 'r world \<Rightarrow> 'r world" where
  "accessUpdateBranch e binding existing0 w =
     (case updateAccess e existing0 binding w of
        (Some err, existing, w1) \<Rightarrow>
          snd (UpdateResourceError e (ID existing) StatusError err w1)
      | (None, existing, w1) \<Rightarrow>
          if LastError existing \<noteq> '''' \<or> Status existing \<noteq> StatusActive then
            snd (UpdateResourceError e (ID existing) StatusActive '''' w1)
          else w1)"

definition accessCreateBranch ::
  "'r env \<Rightarrow> string \<Rightarrow> ResolvedAccessBinding \<Rightarrow> 'r world \<Rightarrow> 'r world" where
  "accessCreateBranch e hostname binding w =
     (case EnsureAccess e binding w of
        (Inl err, w1) \<Rightarrow>
          (let errResource =
                 emptyResource
                   \<lparr>ResourceType := ResourceTypeAccessApp, Hostname := hostname,
                    ContainerID := bContainerID binding,
                    ContainerName := bContainerName binding,
                    ServiceName := bServiceName binding, AgentID := bAgentID binding,
                    Status := StatusError, LastError := err,
                    CleanupEnabled := bCleanup binding\<rparr>;
               (saveErr, r, w2) = SaveResource e errResource w1
           in w2)
      | (Inr resource, w1) \<Rightarrow> w1)"

fun accessReconcileLoop ::
  "'r env \<Rightarrow> (string \<times> ResolvedAccessBinding) list
     \<Rightarrow> (string \<times> ManagedResource) list \<times> 'r world
     \<Rightarrow> (string \<times> ManagedResource) list \<times> 'r world" where
  "accessReconcileLoop e [] s = s"
| "accessReconcileLoop e ((hostname, binding) # rest) (currentMap, w) =
     (case map_of currentMap hostname of
        Some existing \<Rightarrow>
          accessReconcileLoop e rest
            (AList.delete hostname currentMap, accessUpdateBranch e binding existing w)
      | None \<Rightarrow>
          accessReconcileLoop e rest (currentMap, accessCreateBranch e hostname binding w))"

definition ReconcileBindings ::
  "'r env \<Rightarrow> ResolvedAccessBinding list \<Rightarrow> 'r world \<Rightarrow> string option \<times> 'r world" where
  "ReconcileBindings e bindings w =
     (let desiredMap = desiredAccessMap bindings [];
          resources =
            ListResources ResourceTypeAccessApp [StatusActive, StatusError, StatusOrphaned] w;
          currentMap = currentAccessMap resources [];
          (remaining, w1) =
            accessReconcileLoop e (rangeMap (rangeOrder e) desiredMap) (currentMap, w);
          w2 = markOrphaned e (map snd (rangeMap (rangeOrder e) remaining)) w1
      in (None, w2))"

section \<open>The reconciler (package reconciler)\<close>

text \<open>
  The reconciler holds its three operators behind interfaces that may be nil; the
  only implementations are the operators above, so each field says whether the
  operator is present.  Durations (\<open>time.Duration\<close>) are integers in the unit
  of the clock.  The two container maps are association lists.
\<close>

record Reconciler =
  dnsOp :: bool
  tunnelOp :: bool
  accessOp :: bool
  autoCreateDNS :: bool
  orphanTTL :: int
  removeDelay :: int
  containers :: "(string \<times> ParsedContainer) list"
  agentData :: "(string \<times> ParsedContainer list) list"
  lastSyncTime :: int
  lastSyncError :: "string list"


text \<open>First pass of \<open>filterHostnameConflicts\<close>: the hostnames of each kind, with the
  name of the first container that declares them.\<close>

fun collectDNSHostnames ::
  "string \<Rightarrow> DNSService list \<Rightarrow> (string \<times> string) list \<Rightarrow> (string \<times> string) list" where
  "collectDNSHostnames name [] m = m"
| "collectDNSHostnames name (svc # svcs) m =
     (if map_of m (dnsHostname svc) \<noteq> None then collectDNSHostnames name svcs m
      else collectDNSHostnames name svcs (m @ [(dnsHostname svc, name)]))"

fun collectTunnelHostnames ::
  "string \<Rightarrow> TunnelService list \<Rightarrow> (string \<times> string) list \<Rightarrow> (string \<times> string) list" where
  "collectTunnelHostnames name [] m = m"
| "collectTunnelHostnames name (svc # svcs) m =
     (if map_of m (tunHostname svc) \<noteq> None then collectTunnelHostnames name svcs m
      else collectTunnelHostnames name svcs (m @ [(tunHostname svc, name)]))"

fun collectHostnames ::
  "ParsedContainer list \<Rightarrow> (string \<times> string) list \<times> (string \<times> string) list
     \<Rightarrow> (string \<times> string) list \<times> (string \<times> string) list" where
  "collectHostnames [] s = s"
| "collectHostnames (c # cs) (dnsHostnames, tunnelHostnames) =
     collectHostnames cs
       (collectDNSHostnames (ciName (Info c)) (DNSServices c) dnsHostnames,
        collectTunnelHostnames (ciName (Info c)) (TunnelServices c) tunnelHostnames)"

definition filterHostnameConflicts :: "ParsedContainer list \<Rightarrow> ParsedContainer list" where
  "filterHostnameConflicts cs =
     (let (dnsHostnames, tunnelHostnames) = collectHostnames cs ([], []);
          conflictedHostnames =
            filter (\<lambda>hostname. map_of tunnelHostnames hostname \<noteq> None) (map fst dnsHostnames)
      in if conflictedHostnames = [] then cs
         else
           map (\<lambda>c.
                  if \<exists>svc \<in> set (TunnelServices c). tunHostname svc \<in> set conflictedHostnames
                  then c\<lparr>TunnelServices :=
                            filter (\<lambda>svc. tunHostname svc \<notin> set conflictedHostnames)
                              (TunnelServices c)\<rparr>
                  else c) cs)"







text \<open>Orphan processing.  Each operator's \<open>Delete\<close> is \<open>DeleteDNSRecord\<close>,
  \<open>RemoveIngressRule\<close> and \<open>RemoveAccess\<close> respectively.\<close>

fun cleanupLoop :: "'r env \<Rightarrow> Reconciler \<Rightarrow> ManagedResource list \<Rightarrow> 'r world \<Rightarrow> 'r world" where
  "cleanupLoop e r [] w = w"
| "cleanupLoop e r (resource # rest) w =
     (if ResourceType resource = ResourceTypeDNS then
        (if \<not> dnsOp r then cleanupLoop e r rest w
         else cleanupLoop e r rest (snd (DeleteDNSRecord e resource w)))
      else if ResourceType resource = ResourceTypeTunnelIngress then
        (if \<not> tunnelOp r then cleanupLoop e r rest w
         else cleanupLoop e r rest (snd (RemoveIngressRule e resource w)))
      else if ResourceType resource = ResourceTypeAccessApp then
        (if \<not> accessOp r then cleanupLoop e r rest w
         else cleanupLoop e r rest (snd (RemoveAccess e resource w)))
      else cleanupLoop e r rest (snd (DeleteResource (ID resource) w)))"

definition processOrphanedCleanups :: "'r env \<Rightarrow> Reconciler \<Rightarrow> 'r world \<Rightarrow> 'r world" where
  "processOrphanedCleanups e r w =
     (let (now, w1) = Now e w;
          cutoff = now - removeDelay r
      in cleanupLoop e r (ListOrphanedForCleanup cutoff w1) w1)"

fun deleteRows :: "ManagedResource list \<Rightarrow> 'r world \<Rightarrow> 'r world" where
  "deleteRows [] w = w"
| "deleteRows (resource # rest) w = deleteRows rest (snd (DeleteResource (ID resource) w))"

definition cleanupExpiredOrphans :: "'r env \<Rightarrow> Reconciler \<Rightarrow> 'r world \<Rightarrow> 'r world" where
  "cleanupExpiredOrphans e r w =
     (let (now, w1) = Now e w;
          cutoff = now - orphanTTL r
      in deleteRows (ListExpiredOrphans cutoff w1) w1)"

text \<open>The tail of \<open>reconcile\<close> that processes orphans.\<close>

definition orphanProcessing :: "'r env \<Rightarrow> Reconciler \<Rightarrow> 'r world \<Rightarrow> 'r world" where
  "orphanProcessing e r w =
     (let w1 = processOrphanedCleanups e r w
      in if orphanTTL r > 0 then cleanupExpiredOrphans e r w1 else w1)"


section \<open>Default descriptors (package types)\<close>

definition DefaultDNSService :: DNSService where
  "DefaultDNSService =
     \<lparr>dnsServiceName = '''', dnsHostname = '''', dnsType = ''A'', dnsTarget = ''auto'',
      dnsProxied = True, dnsTTL = 0, dnsCredential = ''default'', dnsCleanup = True,
      dnsComment = '''', dnsAccess = '''', dnsPriority = 0\<rparr>"

definition DefaultTunnelService :: TunnelService where
  "DefaultTunnelService =
     \<lparr>tunServiceName = '''', tunHostname = '''', tunService = '''', tunTunnel = ''default'',
      tunPath = '''', tunCredential = ''default'', tunCleanup = True, tunAccess = '''',
      tunOriginRequest = None\<rparr>"

definition DefaultAccessPolicyDef :: "string \<Rightarrow> AccessPolicyDef" where
  "DefaultAccessPolicyDef name =
     \<lparr>pdName = name, pdAppName = '''', pdSessionDuration = ''24h'',
      pdPolicies = [\<lparr>polDecision = ''allow'', polName = '''', polInclude = [],
                      polRequire = [], polExclude = []\<rparr>]\<rparr>"

section \<open>A small configuration used in the examples\<close>

text \<open>One credential named \<open>default\<close> and one tunnel named \<open>default\<close>; a clock that
  starts at 1000 and advances by one per reading; distinct, non-empty UUIDs; maps
  ranged over in insertion order; as IP addresses, the non-empty strings of digits
  and dots.\<close>

definition exampleManager :: CredentialManager where
  "exampleManager =
     \<lparr>credentials = [\<lparr>Name = ''default'', APIToken = ''tok'', Zones = [], Default = True\<rparr>],
      tunnelCredentials =
        [\<lparr>tcTunnelID = ''tun1'', tcTunnelName = ''default'', tcAccountID = ''acct1'',
          tcCredential = ''''\<rparr>],
      defaultCredential = Some \<lparr>Name = ''default'', APIToken = ''tok'', Zones = [], Default = True\<rparr>\<rparr>"

definition exampleEnv :: "(RemoteCall \<Rightarrow> 'r \<Rightarrow> RemoteResp \<times> 'r) \<Rightarrow> 'r env" where
  "exampleEnv step =
     \<lparr>clock = (\<lambda>n. 1000 + int n), uuids = (\<lambda>n. CHR ''u'' # replicate n (CHR ''x'')),
      rangeOrder = (\<lambda>ks. ks), credManager = exampleManager, remoteStep = step,
      parseIP = (\<lambda>s. s \<noteq> [] \<and> list_all (\<lambda>c. c \<in> set ''0123456789.'') s)\<rparr>"

definition exampleWorld :: "ManagedResource list \<Rightarrow> 'r \<Rightarrow> 'r world" where
  "exampleWorld rows r =
     \<lparr>ledger = rows, ticks = 0, uuidsUsed = 0, clients = [], remote = r, calls = []\<rparr>"

text \<open>A remote system that rejects every request.\<close>

definition rejectAll :: "RemoteCall \<Rightarrow> unit \<Rightarrow> RemoteResp \<times> unit" where
  "rejectAll c r = (RespErr ''token expired'', r)"

text \<open>A reconciler with all three operators, no remove delay and the given orphan
  TTL, watching the given containers.\<close>

definition exampleReconciler :: "int \<Rightarrow> (string \<times> ParsedContainer) list \<Rightarrow> Reconciler" where
  "exampleReconciler ttl cs =
     \<lparr>dnsOp = True, tunnelOp = True, accessOp = True, autoCreateDNS = False,
      orphanTTL = ttl, removeDelay = 0, containers = cs, agentData = [],
      lastSyncTime = 0, lastSyncError = []\<rparr>"

text \<open>A container with one naming entry for \<open>app.example.com\<close> with a literal target.\<close>

definition exampleContainer :: ContainerInfo where
  "exampleContainer = \<lparr>ciID = ''c1'', ciName = ''web'', ciNetworks = []\<rparr>"

definition exampleService :: DNSService where
  "exampleService =
     DefaultDNSService\<lparr>dnsServiceName := ''web'', dnsHostname := ''app.example.com'',
                       dnsTarget := ''203.0.113.7''\<rparr>"

text \<open>A remote system that owns the zone \<open>example.com\<close> and already has an A record
  for \<open>app.example.com\<close> (creating the record fails, listing finds it, and an update
  echoes the record it is sent) and an access application for \<open>admin.example.com\<close>;
  a binding for that hostname.\<close>

definition exampleRecord :: DNSRecord where
  "exampleRecord =
     \<lparr>recID = ''cf1'', recZoneID = '''', recZoneName = '''', recName = ''app.example.com'',
      recType = ''A'', recContent = ''198.51.100.1'', recProxied = False, recTTL = 1,
      recPriority = 0, recComment = ''''\<rparr>"

definition exampleApp :: AccessApp where
  "exampleApp = \<lparr>aaID = ''app9'', aaName = ''Admin'', aaDomain = ''admin.example.com''\<rparr>"

definition exampleBinding :: ResolvedAccessBinding where
  "exampleBinding =
     \<lparr>bHostname = ''admin.example.com'', bPolicyDef = DefaultAccessPolicyDef ''internal'',
      bContainerID = ''c1'', bContainerName = ''web'', bServiceName = ''web'', bAgentID = '''',
      bCleanup = True, bCredential = ''''\<rparr>"

fun occupiedRemote :: "RemoteCall \<Rightarrow> unit \<Rightarrow> RemoteResp \<times> unit" where
  "occupiedRemote (ZonesList token) r = (RespZones [(''example.com'', ''z1'')], r)"
| "occupiedRemote (RecordsNew token zoneID body) r = (RespErr ''An identical record already exists.'', r)"
| "occupiedRemote (RecordsList token zoneID name recordType) r = (RespRecords [exampleRecord], r)"
| "occupiedRemote (RecordsUpdate token zoneID recordID body) r = (RespRecord body, r)"
| "occupiedRemote (AccessAppsList token acct) r = (RespApps [exampleApp], r)"
| "occupiedRemote c r = (RespOK, r)"

text \<open>The container as the reconciler sees it, and a ledger row of an earlier
  naming entry that is no longer desired.\<close>

definition exampleParsed :: ParsedContainer where
  "exampleParsed =
     \<lparr>Info = exampleContainer, DNSServices = [exampleService], TunnelServices = [],
      AccessPolicies = [], pcAgentID = ''''\<rparr>"

definition exampleOldRow :: ManagedResource where
  "exampleOldRow =
     emptyResource\<lparr>ID := ''o1'', ResourceType := ''dns'', Hostname := ''old.example.com'',
                   RecordType := ''A'', Status := ''active'', CreatedAt := 5, UpdatedAt := 5\<rparr>"

text \<open>Two orphaned naming rows of the zone \<open>z1\<close>, last updated at time 10: one that is
  not flagged for cleanup and one that is.\<close>

definition exampleKeptOrphan :: ManagedResource where
  "exampleKeptOrphan =
     emptyResource\<lparr>ID := ''b'', ResourceType := ''dns'', Hostname := ''keep.example.com'',
                   RecordType := ''A'', CFID := ''cf-b'', ZoneID := ''z1'', Status := ''orphaned'',
                   CleanupEnabled := False, UpdatedAt := 10\<rparr>"

definition exampleDueOrphan :: ManagedResource where
  "exampleDueOrphan =
     emptyResource\<lparr>ID := ''a'', ResourceType := ''dns'', Hostname := ''gone.example.com'',
                   RecordType := ''A'', CFID := ''cf-a'', ZoneID := ''z1'', Status := ''orphaned'',
                   CleanupEnabled := True, UpdatedAt := 10\<rparr>"

text \<open>A remote system whose state is the list of its access applications.  It
  refuses to list them, but creates policies and applications when asked to.\<close>

fun unlistableRemote :: "RemoteCall \<Rightarrow> AccessApp list \<Rightarrow> RemoteResp \<times> AccessApp list" where
  "unlistableRemote (AccessAppsList token acct) apps = (RespErr ''forbidden'', apps)"
| "unlistableRemote (AccessPolicyNew token acct policy name) apps = (RespID ''pol1'', apps)"
| "unlistableRemote (AccessAppNew token acct hostname appName sessionDuration links) apps =
     (RespID ''app10'', apps @ [\<lparr>aaID = ''app10'', aaName = appName, aaDomain = hostname\<rparr>])"
| "unlistableRemote c apps = (RespOK, apps)"








section \<open>Projections of the world\<close>

text \<open>The part of the world owned by the storage layer (ledger, clock readings,
  UUIDs drawn) and the part owned by the client layer (remote system, request log,
  client cache).\<close>

definition storeOf :: "'r world \<Rightarrow> ManagedResource list \<times> nat \<times> nat" where
  "storeOf w = (ledger w, ticks w, uuidsUsed w)"

definition netOf :: "'r world \<Rightarrow> 'r \<times> RemoteCall list \<times> (string \<times> Client) list" where
  "netOf w = (remote w, calls w, clients w)"

text \<open>One iteration of the cleanup loop.\<close>

definition cleanupStep :: "'r env \<Rightarrow> Reconciler \<Rightarrow> ManagedResource \<Rightarrow> 'r world \<Rightarrow> 'r world" where
  "cleanupStep e r resource w = cleanupLoop e r [resource] w"

section \<open>Ledger keys\<close>

text \<open>The columns of the constraint \<open>UNIQUE(resource_type, hostname, record_type)\<close>,
  the rows of a ledger that carry a given key, and the ways the statements of the
  storage layer change a ledger during a pass: an upsert, or an update of columns
  outside the key.\<close>

definition keyOf :: "ManagedResource \<Rightarrow> string \<times> string \<times> string" where
  "keyOf x = (ResourceType x, Hostname x, RecordType x)"

definition kRows :: "string \<times> string \<times> string \<Rightarrow> ManagedResource list \<Rightarrow> ManagedResource list" where
  "kRows K rows = filter (\<lambda>x. keyOf x = K) rows"

inductive evolves :: "ManagedResource list \<Rightarrow> ManagedResource list \<Rightarrow> bool" where
  evolves_refl: "evolves L L"
| evolves_upsert: "evolves L L1 \<Longrightarrow> evolves L (snd (upsertLedger r L1))"
| evolves_touch: "evolves L L1 \<Longrightarrow> (\<And>x. keyOf (f x) = keyOf x) \<Longrightarrow> evolves L (map f L1)"

section \<open>Specification-level notions\<close>

text \<open>The words of the specification: a zone name that is the hostname itself or a
  dot-separated suffix of it.\<close>

definition spec_dotSuffixOrSelf :: "string \<Rightarrow> string \<Rightarrow> bool" where
  "spec_dotSuffixOrSelf z h = (z = h \<or> HasSuffix h (''.'' @ z))"

definition spec_zoneCandidate :: "(string \<rightharpoonup> string) \<Rightarrow> string \<Rightarrow> string \<Rightarrow> bool" where
  "spec_zoneCandidate cache h z = (z \<noteq> '''' \<and> cache z \<noteq> None \<and> spec_dotSuffixOrSelf z h)"

text \<open>The words of the specification for credential zones: exact match, dot-suffix
  match, or a wildcard zone \<open>*.base\<close> matching the base domain and its subdomains.\<close>

definition spec_zoneMatch :: "string \<Rightarrow> string \<Rightarrow> bool" where
  "spec_zoneMatch h z =
     (h = z \<or> HasSuffix h (''.'' @ z) \<or>
      (HasPrefix z ''*.'' \<and> (h = drop 2 z \<or> HasSuffix h (''.'' @ drop 2 z))))"

text \<open>The same three kinds of match after one trailing dot has been removed from
  the hostname and from the zone.\<close>

definition spec_credMatches :: "string \<Rightarrow> Credential \<Rightarrow> bool" where
  "spec_credMatches hostname c =
     (\<exists>zone \<in> set (Zones c). spec_zoneMatch (TrimSuffix hostname ''.'') (TrimSuffix zone ''.''))"

text \<open>The hostnames declared by a naming entry, respectively an ingress entry,
  anywhere in the aggregated desired set.\<close>

definition spec_dnsHostnames :: "ParsedContainer list \<Rightarrow> string set" where
  "spec_dnsHostnames cs = (\<Union>c \<in> set cs. dnsHostname ` set (DNSServices c))"

definition spec_tunnelHostnames :: "ParsedContainer list \<Rightarrow> string set" where
  "spec_tunnelHostnames cs = (\<Union>c \<in> set cs. tunHostname ` set (TunnelServices c))"

section \<open>Frame properties\<close>

text \<open>The client layer (credential manager, DNS, tunnel and access clients) never
  touches the ledger, the clock or the UUID supply; the storage layer never
  touches the remote system, the request log or the client cache.\<close>

lemma storeOf_ledger: "storeOf w' = storeOf w \<Longrightarrow> ledger w' = ledger w"
  by (simp add: storeOf_def)

lemma netOf_calls: "netOf w' = netOf w \<Longrightarrow> calls w' = calls w \<and> remote w' = remote w"
  by (simp add: netOf_def)

lemma storeOf_invoke [simp]: "storeOf (snd (invoke e c w)) = storeOf w"
  by (simp add: invoke_def storeOf_def case_prod_beta)

lemma storeOf_setClient [simp]: "storeOf (setClient ref c w) = storeOf w"
  by (simp add: setClient_def storeOf_def)

lemma storeOf_SetAccountID [simp]: "storeOf (SetAccountID ref a w) = storeOf w"
  by (simp add: SetAccountID_def)

lemma storeOf_GetClient [simp]: "storeOf (snd (GetClient cred w)) = storeOf w"
  by (simp add: GetClient_def split: option.splits)

lemma storeOf_GetClientForHostname [simp]:
  "storeOf (snd (GetClientForHostname cm h x w)) = storeOf w"
  by (simp add: GetClientForHostname_def split: sum.splits)

lemma storeOf_GetTunnelClient [simp]: "storeOf (snd (GetTunnelClient cm n w)) = storeOf w"
  by (simp add: GetTunnelClient_def Let_def case_prod_beta
      split: sum.splits option.splits list.splits)

lemma storeOf_clientGetZoneID [simp]: "storeOf (snd (clientGetZoneID e ref h w)) = storeOf w"
  by (simp add: clientGetZoneID_def Let_def case_prod_beta)

lemma storeOf_CreateRecord [simp]: "storeOf (snd (CreateRecord e ref r w)) = storeOf w"
  by (simp add: CreateRecord_def Let_def case_prod_beta
      split: sum.splits RemoteResp.splits)

lemma storeOf_GetRecordByName [simp]: "storeOf (snd (GetRecordByName e ref h t w)) = storeOf w"
  by (simp add: GetRecordByName_def Let_def case_prod_beta
      split: sum.splits RemoteResp.splits list.splits)

lemma storeOf_UpdateRecord [simp]: "storeOf (snd (UpdateRecord e ref r w)) = storeOf w"
  by (simp add: UpdateRecord_def Let_def case_prod_beta
      split: sum.splits RemoteResp.splits)

lemma storeOf_DeleteRecord [simp]: "storeOf (snd (DeleteRecord e ref z i w)) = storeOf w"
  by (simp add: DeleteRecord_def Let_def case_prod_beta split: RemoteResp.splits)

lemma storeOf_askIPServices [simp]: "storeOf (snd (askIPServices e services w)) = storeOf w"
proof (induction services arbitrary: w)
  case Nil
  show ?case by simp
next
  case (Cons svc services)
  have "storeOf (snd (askIPServices e services (snd (invoke e (PublicIPGet svc) w)))) = storeOf w"
    by (simp add: Cons.IH)
  then show ?case
    by (simp add: Let_def case_prod_beta split: RemoteResp.splits)
qed

lemma storeOf_getPublicIP [simp]: "storeOf (snd (getPublicIP e w)) = storeOf w"
  unfolding getPublicIP_def by (rule storeOf_askIPServices)

lemma storeOf_GetTunnelConfiguration [simp]:
  "storeOf (snd (GetTunnelConfiguration e t i w)) = storeOf w"
  by (simp add: GetTunnelConfiguration_def case_prod_beta split: RemoteResp.splits)

lemma storeOf_UpdateTunnelConfiguration [simp]:
  "storeOf (snd (UpdateTunnelConfiguration e t i rs w)) = storeOf w"
  by (simp add: UpdateTunnelConfiguration_def Let_def case_prod_beta split: RemoteResp.splits)

lemma storeOf_TunnelClient_RemoveIngressRule [simp]:
  "storeOf (snd (TunnelClient_RemoveIngressRule e t i h w)) = storeOf w"
  by (simp add: TunnelClient_RemoveIngressRule_def Let_def case_prod_beta split: sum.splits)

lemma storeOf_FindExistingAccessApp [simp]:
  "storeOf (snd (FindExistingAccessApp e a h w)) = storeOf w"
  by (simp add: FindExistingAccessApp_def case_prod_beta split: RemoteResp.splits)

lemma storeOf_createReusablePolicy [simp]:
  "storeOf (snd (createReusablePolicy e a p i w)) = storeOf w"
  by (simp add: createReusablePolicy_def Let_def case_prod_beta split: RemoteResp.splits)

lemma storeOf_createPolicies [simp]:
  "storeOf (snd (createPolicies e a h ps i links w)) = storeOf w"
proof (induction e a h ps i links w rule: createPolicies.induct)
  case (1 e a hostname i links w)
  then show ?case by simp
next
  case (2 e a hostname policy rest i links w)
  obtain x y where p: "createReusablePolicy e a policy i w = (x, y)" by force
  have sy: "storeOf y = storeOf w"
    using storeOf_createReusablePolicy[of e a policy i w] p by simp
  show ?case
  proof (cases x)
    case (Inl err)
    then show ?thesis using p sy by simp
  next
    case (Inr b)
    from "2.IH"[OF p[symmetric, unfolded Inr] refl] sy show ?thesis
      using p Inr by simp
  qed
qed

lemma storeOf_deletePolicies [simp]: "storeOf (deletePolicies e a ps w) = storeOf w"
  by (induction e a ps w rule: deletePolicies.induct) simp_all

lemma storeOf_cleanupOldAppPolicies [simp]:
  "storeOf (cleanupOldAppPolicies e a i w) = storeOf w"
  by (simp add: cleanupOldAppPolicies_def case_prod_beta split: RemoteResp.splits)

lemma storeOf_updateApplication [simp]:
  "storeOf (snd (updateApplication e a i h n s l w)) = storeOf w"
  by (simp add: updateApplication_def case_prod_beta split: RemoteResp.splits)

lemma storeOf_createApplication [simp]:
  "storeOf (snd (createApplication e a h n s l w)) = storeOf w"
  by (simp add: createApplication_def case_prod_beta split: RemoteResp.splits)

lemma storeOf_EnsureAccessForHostname [simp]:
  "storeOf (snd (EnsureAccessForHostname e a h p x w)) = storeOf w"
  by (simp add: EnsureAccessForHostname_def Let_def case_prod_beta
      split: sum.splits option.splits)

lemma storeOf_DeleteAccessApplication [simp]:
  "storeOf (snd (DeleteAccessApplication e a i w)) = storeOf w"
  by (simp add: DeleteAccessApplication_def Let_def case_prod_beta split: RemoteResp.splits)

lemma netOf_Now [simp]: "netOf (snd (Now e w)) = netOf w"
  by (simp add: Now_def netOf_def)

lemma netOf_uuidNew [simp]: "netOf (snd (uuidNew e w)) = netOf w"
  by (simp add: uuidNew_def netOf_def)

lemma netOf_stampResource [simp]: "netOf (snd (stampResource e r w)) = netOf w"
  by (simp add: stampResource_def Let_def case_prod_beta)

lemma netOf_ledger_update [simp]: "netOf (w\<lparr>ledger := l\<rparr>) = netOf w"
  by (simp add: netOf_def)

lemma netOf_SaveResource [simp]: "netOf (snd (snd (SaveResource e r w))) = netOf w"
  by (simp add: SaveResource_def Let_def case_prod_beta)

lemma netOf_UpdateResourceStatus [simp]: "netOf (snd (UpdateResourceStatus e i s w)) = netOf w"
  by (simp add: UpdateResourceStatus_def Let_def case_prod_beta)

lemma netOf_UpdateResourceError [simp]: "netOf (snd (UpdateResourceError e i s m w)) = netOf w"
  by (simp add: UpdateResourceError_def Let_def case_prod_beta)

lemma netOf_DeleteResource [simp]: "netOf (snd (DeleteResource i w)) = netOf w"
  by (simp add: DeleteResource_def)

text \<open>What \<open>stampResource\<close> does to the in-memory resource.\<close>

lemma stampResource_eq:
  "fst (stampResource e r w) =
     r\<lparr>ID := ID (fst (stampResource e r w)),
       CreatedAt := CreatedAt (fst (stampResource e r w)),
       UpdatedAt := UpdatedAt (fst (stampResource e r w))\<rparr>"
  by (simp add: stampResource_def Let_def case_prod_beta)

lemma stampResource_fields:
  "\<exists>i c u. fst (stampResource e r w) = r\<lparr>ID := i, CreatedAt := c, UpdatedAt := u\<rparr>"
  using stampResource_eq[of e r w] by blast

lemma SaveResource_fields:
  "\<exists>i c u. fst (snd (SaveResource e r w)) = r\<lparr>ID := i, CreatedAt := c, UpdatedAt := u\<rparr>"
  using stampResource_fields[of e r w] by (simp add: SaveResource_def Let_def case_prod_beta)

lemma stampResource_ID: "ID r \<noteq> '''' \<Longrightarrow> ID (fst (stampResource e r w)) = ID r"
  by (simp add: stampResource_def Let_def case_prod_beta)

section \<open>Facts about the string primitives\<close>

lemma HasSuffix_iff: "HasSuffix s suf \<longleftrightarrow> (\<exists>p. s = p @ suf)"
proof
  assume "HasSuffix s suf"
  then have "s = take (length s - length suf) s @ suf"
    unfolding HasSuffix_def by (metis append_take_drop_id)
  then show "\<exists>p. s = p @ suf" by blast
next
  assume "\<exists>p. s = p @ suf"
  then show "HasSuffix s suf" unfolding HasSuffix_def by auto
qed

lemma HasPrefix_iff: "HasPrefix s pre \<longleftrightarrow> (\<exists>t. s = pre @ t)"
proof
  assume "HasPrefix s pre"
  then have "s = pre @ drop (length pre) s"
    unfolding HasPrefix_def by (metis append_take_drop_id)
  then show "\<exists>t. s = pre @ t" by blast
next
  assume "\<exists>t. s = pre @ t"
  then show "HasPrefix s pre" unfolding HasPrefix_def by auto
qed

lemma IndexByte_neg: "IndexByte s c < 0 \<longleftrightarrow> c \<notin> set s"
  by (induction s) (auto simp: Let_def)

lemma IndexByte_split:
  "0 \<le> IndexByte s c \<Longrightarrow>
     s = take (nat (IndexByte s c)) s @ c # drop (nat (IndexByte s c + 1)) s \<and>
     c \<notin> set (take (nat (IndexByte s c)) s)"
proof (induction s)
  case Nil then show ?case by simp
next
  case (Cons x xs)
  show ?case
  proof (cases "x = c")
    case True then show ?thesis by simp
  next
    case False
    with Cons.prems have nn: "0 \<le> IndexByte xs c" by (auto simp: Let_def split: if_splits)
    then have eq: "IndexByte (x # xs) c = IndexByte xs c + 1" using False by (simp add: Let_def)
    from Cons.IH[OF nn] show ?thesis using False nn unfolding eq
      by (simp add: nat_add_distrib)
  qed
qed

section \<open>Zone resolution: longest suffix\<close>

lemma dot_suffix_step:
  assumes "cand = pre @ CHR ''.'' # rest" and "CHR ''.'' \<notin> set pre"
  shows "HasSuffix cand (''.'' @ z) \<longleftrightarrow> spec_dotSuffixOrSelf z rest"
proof
  assume "HasSuffix cand (''.'' @ z)"
  then obtain p where p: "pre @ CHR ''.'' # rest = p @ CHR ''.'' # z"
    using assms(1) by (auto simp: HasSuffix_iff)
  then consider us where "pre = p @ us" "us @ CHR ''.'' # rest = CHR ''.'' # z"
    | us where "pre @ us = p" "CHR ''.'' # rest = us @ CHR ''.'' # z"
    by (auto simp: append_eq_append_conv2)
  then show "spec_dotSuffixOrSelf z rest"
  proof cases
    case 1
    then show ?thesis using assms(2)
      by (cases us) (auto simp: spec_dotSuffixOrSelf_def)
  next
    case 2
    then show ?thesis
      by (cases us) (auto simp: spec_dotSuffixOrSelf_def HasSuffix_iff)
  qed
next
  assume "spec_dotSuffixOrSelf z rest"
  then show "HasSuffix cand (''.'' @ z)"
    unfolding spec_dotSuffixOrSelf_def HasSuffix_iff assms(1)
  proof
    assume "z = rest" then show "\<exists>p. pre @ CHR ''.'' # rest = p @ ''.'' @ z" by auto
  next
    assume "\<exists>p. rest = p @ ''.'' @ z"
    then obtain p where "rest = p @ ''.'' @ z" by blast
    then have "pre @ CHR ''.'' # rest = (pre @ CHR ''.'' # p) @ ''.'' @ z" by simp
    then show "\<exists>p. pre @ CHR ''.'' # rest = p @ ''.'' @ z" by blast
  qed
qed

lemma spec_dotSuffixOrSelf_length: "spec_dotSuffixOrSelf z h \<Longrightarrow> length z \<le> length h"
  by (auto simp: spec_dotSuffixOrSelf_def HasSuffix_iff)

lemma walkZones_longest:
  "walkZones cache cand = (zn, zid) \<Longrightarrow>
     (if \<exists>z. spec_zoneCandidate cache cand z
      then spec_zoneCandidate cache cand zn \<and> cache zn = Some zid \<and>
           (\<forall>z. spec_zoneCandidate cache cand z \<longrightarrow> length z \<le> length zn)
      else zn = '''' \<and> zid = '''')"
proof (induction cache cand arbitrary: zn zid rule: walkZones.induct)
  case (1 cache candidate)
  show ?case
  proof (cases "candidate = ''''")
    case True
    then have "\<not> (\<exists>z. spec_zoneCandidate cache candidate z)"
      by (auto simp: spec_zoneCandidate_def spec_dotSuffixOrSelf_def HasSuffix_iff)
    moreover have "zn = '''' \<and> zid = ''''"
      using "1.prems" True by (simp add: walkZones.simps)
    ultimately show ?thesis by simp
  next
    case ne: False
    show ?thesis
    proof (cases "cache candidate")
      case (Some i)
      then have r: "zn = candidate" "zid = i"
        using "1.prems" ne by (auto simp: walkZones.simps)
      have c: "spec_zoneCandidate cache candidate candidate"
        using ne Some by (simp add: spec_zoneCandidate_def spec_dotSuffixOrSelf_def)
      show ?thesis using c r Some
        by (auto simp: spec_zoneCandidate_def dest: spec_dotSuffixOrSelf_length)
    next
      case None
      show ?thesis
      proof (cases "IndexByte candidate (CHR ''.'') < 0")
        case True
        then have nodot: "CHR ''.'' \<notin> set candidate" by (simp add: IndexByte_neg)
        have "\<not> (\<exists>z. spec_zoneCandidate cache candidate z)"
        proof
          assume "\<exists>z. spec_zoneCandidate cache candidate z"
          then obtain z where z: "spec_zoneCandidate cache candidate z" by blast
          then have "z \<noteq> candidate" using None by (auto simp: spec_zoneCandidate_def)
          with z obtain p where "candidate = p @ ''.'' @ z"
            by (auto simp: spec_zoneCandidate_def spec_dotSuffixOrSelf_def HasSuffix_iff)
          with nodot show False by simp
        qed
        moreover have "zn = '''' \<and> zid = ''''"
          using "1.prems" ne None True by (simp add: walkZones.simps Let_def)
        ultimately show ?thesis by simp
      next
        case False
        define rest where "rest = drop (nat (IndexByte candidate (CHR ''.'') + 1)) candidate"
        define pre where "pre = take (nat (IndexByte candidate (CHR ''.''))) candidate"
        have sp: "candidate = pre @ CHR ''.'' # rest" "CHR ''.'' \<notin> set pre"
          using IndexByte_split[of candidate "CHR ''.''"] False unfolding pre_def rest_def by auto
        have w: "walkZones cache rest = (zn, zid)"
          using "1.prems" ne None False unfolding rest_def
          by (simp add: walkZones.simps[of cache candidate] Let_def)
        have eqv: "spec_zoneCandidate cache candidate z \<longleftrightarrow> spec_zoneCandidate cache rest z" for z
        proof -
          have "cache z \<noteq> None \<Longrightarrow> z \<noteq> candidate" using None by auto
          then show ?thesis
            unfolding spec_zoneCandidate_def using dot_suffix_step[OF sp, of z]
            by (auto simp: spec_dotSuffixOrSelf_def)
        qed
        have "(if \<exists>z. spec_zoneCandidate cache rest z
           then spec_zoneCandidate cache rest zn \<and> cache zn = Some zid \<and>
             (\<forall>z. spec_zoneCandidate cache rest z \<longrightarrow> length z \<le> length zn)
           else zn = '''' \<and> zid = '''')"
          using "1.IH"[OF ne None refl False w[unfolded rest_def]] unfolding rest_def .
        then show ?thesis unfolding eqv .
      qed
    qed
  qed
qed

text \<open>
  Claim C8, as stated, at a hostname written with a trailing dot: with the single
  zone \<open>example.com\<close> cached, the hostname \<open>a.example.com.\<close> resolves to
  \<open>example.com\<close>, although that zone name is neither the hostname nor a
  dot-separated suffix of it.
\<close>

theorem matchZoneForHostname_trailing_dot_counterexample:
  "matchZoneForHostname \<lparr>apiToken = ''t'', accountID = '''', zoneCache = [''example.com'' \<mapsto> ''z1''], zonesLoaded = True\<rparr>
     ''a.example.com.'' = (''example.com'', ''z1'') \<and>
   \<not> spec_dotSuffixOrSelf ''example.com'' ''a.example.com.''"
  by (simp add: matchZoneForHostname_def walkZones.simps TrimSuffix_def HasSuffix_def Let_def
      spec_dotSuffixOrSelf_def)

text \<open>
  Claim C8, amended: zone resolution strips one trailing dot from the hostname and
  then returns the longest non-empty cached zone name that is the stripped hostname
  itself or a dot-separated suffix of it, together with its ID; when no cached zone
  qualifies it returns the empty pair.  With a loaded cache \<open>GetZoneID\<close> returns
  that ID, and an error when the ID is empty.
\<close>

theorem matchZoneForHostname_longest_suffix:
  assumes "matchZoneForHostname c hostname = (zn, zid)"
  shows "(if \<exists>z. spec_zoneCandidate (zoneCache c) (TrimSuffix hostname ''.'') z
          then spec_zoneCandidate (zoneCache c) (TrimSuffix hostname ''.'') zn \<and>
               zoneCache c zn = Some zid \<and>
               (\<forall>z. spec_zoneCandidate (zoneCache c) (TrimSuffix hostname ''.'') z
                    \<longrightarrow> length z \<le> length zn)
          else zn = '''' \<and> zid = '''') \<and>
         (zonesLoaded c \<longrightarrow>
            GetZoneID zoneList c hostname =
              (if zid = '''' then Inl (''no matching zone found for hostname: '' @ hostname)
               else Inr zid, c))"
proof -
  have w: "walkZones (zoneCache c) (TrimSuffix hostname ''.'') = (zn, zid)"
    using assms by (simp add: matchZoneForHostname_def)
  have g: "zonesLoaded c \<longrightarrow>
            GetZoneID zoneList c hostname =
              (if zid = '''' then Inl (''no matching zone found for hostname: '' @ hostname)
               else Inr zid, c)"
    using assms by (simp add: GetZoneID_def loadZones_def)
  from walkZones_longest[OF w] g show ?thesis by blast
qed

theorem matchZoneForHostname_longest_suffix_witness:
  "matchZoneForHostname
     \<lparr>apiToken = ''t'', accountID = '''', zoneCache = [''example.com'' \<mapsto> ''z1'', ''b.example.com'' \<mapsto> ''z2''], zonesLoaded = True\<rparr>
     ''a.b.example.com'' = (''b.example.com'', ''z2'') \<and>
   GetZoneID (Inl ''unused'')
     \<lparr>apiToken = ''t'', accountID = '''', zoneCache = [''example.com'' \<mapsto> ''z1'', ''b.example.com'' \<mapsto> ''z2''], zonesLoaded = True\<rparr>
     ''a.b.example.com'' =
     (Inr ''z2'',
      \<lparr>apiToken = ''t'', accountID = '''', zoneCache = [''example.com'' \<mapsto> ''z1'', ''b.example.com'' \<mapsto> ''z2''], zonesLoaded = True\<rparr>) \<and>
   spec_zoneCandidate [''example.com'' \<mapsto> ''z1'', ''b.example.com'' \<mapsto> ''z2'']
     ''a.b.example.com'' ''example.com'' \<and>
   spec_zoneCandidate [''example.com'' \<mapsto> ''z1'', ''b.example.com'' \<mapsto> ''z2'']
     ''a.b.example.com'' ''b.example.com'' \<and>
   length ''example.com'' \<le> length ''b.example.com''"
proof -
  let ?c = "\<lparr>apiToken = ''t'', accountID = '''', zoneCache = [''example.com'' \<mapsto> ''z1'', ''b.example.com'' \<mapsto> ''z2''],
             zonesLoaded = True\<rparr>"
  have t: "TrimSuffix ''a.b.example.com'' ''.'' = ''a.b.example.com''"
    by (simp add: TrimSuffix_def HasSuffix_def)
  have e: "matchZoneForHostname ?c ''a.b.example.com'' = (''b.example.com'', ''z2'')"
    by (simp add: matchZoneForHostname_def walkZones.simps t Let_def)
  have ex: "\<exists>z. spec_zoneCandidate (zoneCache ?c) (TrimSuffix ''a.b.example.com'' ''.'') z"
    unfolding t
    by (rule exI[of _ "''example.com''"])
       (simp add: spec_zoneCandidate_def spec_dotSuffixOrSelf_def HasSuffix_def)
  have c1: "spec_zoneCandidate (zoneCache ?c) ''a.b.example.com'' ''example.com''"
    by (simp add: spec_zoneCandidate_def spec_dotSuffixOrSelf_def HasSuffix_def)
  from matchZoneForHostname_longest_suffix[OF e, of "Inl ''unused''"] ex c1 show ?thesis
    using e unfolding t by simp
qed

section \<open>Credential resolution\<close>


lemma zoneMatches_spec: "zoneMatches h z0 \<longleftrightarrow> spec_zoneMatch h (TrimSuffix z0 ''.'')"
  by (auto simp: zoneMatches_def spec_zoneMatch_def Let_def)

lemma matchZoneLoop_iff: "matchZoneLoop h zs \<longleftrightarrow> (\<exists>z \<in> set zs. zoneMatches h z)"
  by (induction zs) auto

lemma matchZone_spec: "matchZone c h \<longleftrightarrow> spec_credMatches h c"
  by (simp add: matchZone_def matchZoneLoop_iff zoneMatches_spec spec_credMatches_def)

lemma findByName_find: "findByName cs n = find (\<lambda>c. Name c = n) cs"
  by (induction cs) auto

lemma findByZone_find: "findByZone cs h = find (spec_credMatches h) cs"
  by (induction cs) (auto simp: matchZone_spec)

text \<open>
  Claim C9, amended: an explicit credential name, when given, selects the first
  credential of that name (an error when there is none); otherwise the first
  configured credential with a zone that matches the hostname is returned, where
  one trailing dot is first removed from the hostname and from the zone and the
  match is exact, by dot-suffix, or by a \<open>*.\<close>-wildcard zone covering its base
  domain and every subdomain; otherwise the default credential is returned (an error
  when none is configured).  A credential with zone \<open>*.example.com\<close> matches both
  \<open>example.com\<close> and \<open>foo.example.com\<close>.
\<close>

theorem GetCredentialForZone_priority:
  "GetCredentialForZone cm hostname explicitCredName =
     (if explicitCredName \<noteq> '''' then
        (case find (\<lambda>c. Name c = explicitCredName) (credentials cm) of
           Some c \<Rightarrow> Inr c
         | None \<Rightarrow> Inl (''credential not found: '' @ explicitCredName))
      else
        (case find (spec_credMatches hostname) (credentials cm) of
           Some c \<Rightarrow> Inr c
         | None \<Rightarrow>
             (case defaultCredential cm of
                Some d \<Rightarrow> Inr d
              | None \<Rightarrow> Inl (''no matching credential found for hostname: '' @ hostname)))) \<and>
   matchZone \<lparr>Name = n, APIToken = t, Zones = [''*.example.com''], Default = d\<rparr> ''example.com'' \<and>
   matchZone \<lparr>Name = n, APIToken = t, Zones = [''*.example.com''], Default = d\<rparr> ''foo.example.com''"
  by (simp add: GetCredentialForZone_def findByName_find findByZone_find
      matchZone_def zoneMatches_def TrimSuffix_def HasSuffix_def HasPrefix_def Let_def)


text \<open>
  Claim C9, as stated, at a hostname written with a trailing dot: the credential
  \<open>corp\<close> owns the zone \<open>example.com\<close>, which matches the hostname
  \<open>app.example.com.\<close> in none of the three listed ways; the claim then asks for
  the default credential, but \<open>corp\<close> is returned.
\<close>

theorem GetCredentialForZone_trailing_dot_counterexample:
  "GetCredentialForZone
     \<lparr>credentials =
        [\<lparr>Name = ''default'', APIToken = ''t0'', Zones = [], Default = True\<rparr>,
         \<lparr>Name = ''corp'', APIToken = ''t1'', Zones = [''example.com''], Default = False\<rparr>],
      tunnelCredentials = [],
      defaultCredential = Some \<lparr>Name = ''default'', APIToken = ''t0'', Zones = [], Default = True\<rparr>\<rparr>
     ''app.example.com.'' '''' =
   Inr \<lparr>Name = ''corp'', APIToken = ''t1'', Zones = [''example.com''], Default = False\<rparr> \<and>
   \<not> spec_zoneMatch ''app.example.com.'' ''example.com''"
  by (simp add: GetCredentialForZone_def matchZone_def zoneMatches_def TrimSuffix_def
      HasSuffix_def HasPrefix_def Let_def spec_zoneMatch_def)

theorem GetCredentialForZone_priority_witness:
  "GetCredentialForZone
     \<lparr>credentials =
        [\<lparr>Name = ''default'', APIToken = ''t0'', Zones = [], Default = True\<rparr>,
         \<lparr>Name = ''corp'', APIToken = ''t1'', Zones = [''*.example.com''], Default = False\<rparr>],
      tunnelCredentials = [],
      defaultCredential = Some \<lparr>Name = ''default'', APIToken = ''t0'', Zones = [], Default = True\<rparr>\<rparr>
     ''foo.example.com'' '''' =
   Inr \<lparr>Name = ''corp'', APIToken = ''t1'', Zones = [''*.example.com''], Default = False\<rparr> \<and>
   GetCredentialForZone
     \<lparr>credentials =
        [\<lparr>Name = ''default'', APIToken = ''t0'', Zones = [], Default = True\<rparr>,
         \<lparr>Name = ''corp'', APIToken = ''t1'', Zones = [''*.example.com''], Default = False\<rparr>],
      tunnelCredentials = [],
      defaultCredential = Some \<lparr>Name = ''default'', APIToken = ''t0'', Zones = [], Default = True\<rparr>\<rparr>
     ''foo.example.com'' ''default'' =
   Inr \<lparr>Name = ''default'', APIToken = ''t0'', Zones = [], Default = True\<rparr> \<and>
   GetCredentialForZone
     \<lparr>credentials =
        [\<lparr>Name = ''default'', APIToken = ''t0'', Zones = [], Default = True\<rparr>,
         \<lparr>Name = ''corp'', APIToken = ''t1'', Zones = [''*.example.com''], Default = False\<rparr>],
      tunnelCredentials = [],
      defaultCredential = Some \<lparr>Name = ''default'', APIToken = ''t0'', Zones = [], Default = True\<rparr>\<rparr>
     ''other.org'' '''' =
   Inr \<lparr>Name = ''default'', APIToken = ''t0'', Zones = [], Default = True\<rparr>"
  using GetCredentialForZone_priority[of
     "\<lparr>credentials =
        [\<lparr>Name = ''default'', APIToken = ''t0'', Zones = [], Default = True\<rparr>,
         \<lparr>Name = ''corp'', APIToken = ''t1'', Zones = [''*.example.com''], Default = False\<rparr>],
      tunnelCredentials = [],
      defaultCredential = Some \<lparr>Name = ''default'', APIToken = ''t0'', Zones = [], Default = True\<rparr>\<rparr>"
     "''foo.example.com''" "''''"]
    GetCredentialForZone_priority[of
     "\<lparr>credentials =
        [\<lparr>Name = ''default'', APIToken = ''t0'', Zones = [], Default = True\<rparr>,
         \<lparr>Name = ''corp'', APIToken = ''t1'', Zones = [''*.example.com''], Default = False\<rparr>],
      tunnelCredentials = [],
      defaultCredential = Some \<lparr>Name = ''default'', APIToken = ''t0'', Zones = [], Default = True\<rparr>\<rparr>"
     "''foo.example.com''" "''default''"]
    GetCredentialForZone_priority[of
     "\<lparr>credentials =
        [\<lparr>Name = ''default'', APIToken = ''t0'', Zones = [], Default = True\<rparr>,
         \<lparr>Name = ''corp'', APIToken = ''t1'', Zones = [''*.example.com''], Default = False\<rparr>],
      tunnelCredentials = [],
      defaultCredential = Some \<lparr>Name = ''default'', APIToken = ''t0'', Zones = [], Default = True\<rparr>\<rparr>"
     "''other.org''" "''''"]
  by (simp add: spec_credMatches_def spec_zoneMatch_def TrimSuffix_def
      HasSuffix_def HasPrefix_def)

section \<open>Conflict resolution across kinds\<close>

lemma map_of_Some_ex_iff: "(\<exists>y. map_of m k = Some y) \<longleftrightarrow> k \<in> fst ` set m"
  using map_of_eq_None_iff[of m k] by auto

lemma map_of_Some_in_keys: "map_of m k = Some y \<Longrightarrow> k \<in> fst ` set m"
  using map_of_Some_ex_iff[of m k] by blast

lemma collectDNSHostnames_keys:
  "fst ` set (collectDNSHostnames n svcs m) = fst ` set m \<union> dnsHostname ` set svcs"
  by (induction n svcs m rule: collectDNSHostnames.induct)
     (auto simp: map_of_Some_ex_iff dest: map_of_Some_in_keys)

lemma collectTunnelHostnames_keys:
  "fst ` set (collectTunnelHostnames n svcs m) = fst ` set m \<union> tunHostname ` set svcs"
  by (induction n svcs m rule: collectTunnelHostnames.induct)
     (auto simp: map_of_Some_ex_iff dest: map_of_Some_in_keys)

lemma collectHostnames_keys:
  "collectHostnames cs (d, t) = (d', t') \<Longrightarrow>
     fst ` set d' = fst ` set d \<union> spec_dnsHostnames cs \<and>
     fst ` set t' = fst ` set t \<union> spec_tunnelHostnames cs"
proof (induction cs arbitrary: d t)
  case Nil
  then show ?case by (simp add: spec_dnsHostnames_def spec_tunnelHostnames_def)
next
  case (Cons c cs)
  from Cons.prems have
    "collectHostnames cs
       (collectDNSHostnames (ciName (Info c)) (DNSServices c) d,
        collectTunnelHostnames (ciName (Info c)) (TunnelServices c) t) = (d', t')"
    by simp
  from Cons.IH[OF this] show ?case
    by (auto simp: collectDNSHostnames_keys collectTunnelHostnames_keys
        spec_dnsHostnames_def spec_tunnelHostnames_def)
qed

text \<open>
  Claim C2: conflict resolution returns the aggregated desired set with every
  container unchanged except for its ingress (tunnel) services, from which
  exactly the entries are removed whose hostname is also declared by some naming
  (DNS) entry anywhere in the set.  So for a hostname declared in both kinds only
  the naming entries remain, every tunnel entry of that hostname is removed, and
  the naming services and the tunnel services of all other hostnames are left as
  they were, in their order.
\<close>

theorem filterHostnameConflicts_cross_kind:
  "filterHostnameConflicts cs =
     map (\<lambda>c. c\<lparr>TunnelServices :=
                  filter (\<lambda>svc. tunHostname svc \<notin> spec_dnsHostnames cs) (TunnelServices c)\<rparr>) cs"
proof -
  obtain d t where dt: "collectHostnames cs ([], []) = (d, t)"
    by (cases "collectHostnames cs ([], [])")
  from collectHostnames_keys[OF dt] have
    kd: "fst ` set d = spec_dnsHostnames cs" and kt: "fst ` set t = spec_tunnelHostnames cs"
    by auto
  define conf where "conf = filter (\<lambda>hostname. map_of t hostname \<noteq> None) (map fst d)"
  have conf_set: "set conf = spec_dnsHostnames cs \<inter> spec_tunnelHostnames cs"
    unfolding conf_def using kd kt map_of_Some_ex_iff[of t]
    by (auto dest: map_of_Some_in_keys)
  have tun_in: "c \<in> set cs \<Longrightarrow> svc \<in> set (TunnelServices c) \<Longrightarrow>
      tunHostname svc \<in> spec_tunnelHostnames cs" for c svc
    by (auto simp: spec_tunnelHostnames_def)
  have filt: "c \<in> set cs \<Longrightarrow>
      filter (\<lambda>svc. tunHostname svc \<notin> set conf) (TunnelServices c) =
      filter (\<lambda>svc. tunHostname svc \<notin> spec_dnsHostnames cs) (TunnelServices c)" for c
    by (rule filter_cong) (auto simp: conf_set dest: tun_in)
  have noconf: "c \<in> set cs \<Longrightarrow>
      \<not> (\<exists>svc \<in> set (TunnelServices c). tunHostname svc \<in> set conf) \<Longrightarrow>
      c\<lparr>TunnelServices :=
           filter (\<lambda>svc. tunHostname svc \<notin> spec_dnsHostnames cs) (TunnelServices c)\<rparr> = c" for c
  proof -
    assume c: "c \<in> set cs"
      and n: "\<not> (\<exists>svc \<in> set (TunnelServices c). tunHostname svc \<in> set conf)"
    have "filter (\<lambda>svc. tunHostname svc \<notin> set conf) (TunnelServices c) = TunnelServices c"
      using n by (simp add: filter_id_conv)
    with filt[OF c] show ?thesis by simp
  qed
  have fh: "filterHostnameConflicts cs =
      (if conf = [] then cs
       else map (\<lambda>c. if \<exists>svc \<in> set (TunnelServices c). tunHostname svc \<in> set conf
                  then c\<lparr>TunnelServices :=
                            filter (\<lambda>svc. tunHostname svc \<notin> set conf) (TunnelServices c)\<rparr>
                  else c) cs)"
    by (simp add: filterHostnameConflicts_def dt conf_def)
  show ?thesis
  proof (cases "conf = []")
    case True
    have "map (\<lambda>c. c\<lparr>TunnelServices :=
                  filter (\<lambda>svc. tunHostname svc \<notin> spec_dnsHostnames cs)
                    (TunnelServices c)\<rparr>) cs = map (\<lambda>c. c) cs"
      by (rule map_cong[OF refl]) (use True noconf in auto)
    then show ?thesis unfolding fh using True by simp
  next
    case False
    have "map (\<lambda>c. if \<exists>svc \<in> set (TunnelServices c). tunHostname svc \<in> set conf
                  then c\<lparr>TunnelServices :=
                            filter (\<lambda>svc. tunHostname svc \<notin> set conf) (TunnelServices c)\<rparr>
                  else c) cs =
          map (\<lambda>c. c\<lparr>TunnelServices :=
                  filter (\<lambda>svc. tunHostname svc \<notin> spec_dnsHostnames cs)
                    (TunnelServices c)\<rparr>) cs"
      by (rule map_cong[OF refl]) (use filt noconf in auto)
    then show ?thesis unfolding fh using False by simp
  qed
qed

theorem filterHostnameConflicts_cross_kind_witness:
  "filterHostnameConflicts
     [\<lparr>Info = \<lparr>ciID = ''c1'', ciName = ''web'', ciNetworks = []\<rparr>,
       DNSServices = [DefaultDNSService\<lparr>dnsServiceName := ''web'', dnsHostname := ''app.example.com''\<rparr>],
       TunnelServices = [], AccessPolicies = [], pcAgentID = ''''\<rparr>,
      \<lparr>Info = \<lparr>ciID = ''c2'', ciName = ''edge'', ciNetworks = []\<rparr>,
       DNSServices = [],
       TunnelServices =
         [DefaultTunnelService\<lparr>tunServiceName := ''a'', tunHostname := ''app.example.com''\<rparr>,
          DefaultTunnelService\<lparr>tunServiceName := ''b'', tunHostname := ''other.example.com''\<rparr>],
       AccessPolicies = [], pcAgentID = ''''\<rparr>]
   =
     [\<lparr>Info = \<lparr>ciID = ''c1'', ciName = ''web'', ciNetworks = []\<rparr>,
       DNSServices = [DefaultDNSService\<lparr>dnsServiceName := ''web'', dnsHostname := ''app.example.com''\<rparr>],
       TunnelServices = [], AccessPolicies = [], pcAgentID = ''''\<rparr>,
      \<lparr>Info = \<lparr>ciID = ''c2'', ciName = ''edge'', ciNetworks = []\<rparr>,
       DNSServices = [],
       TunnelServices =
         [DefaultTunnelService\<lparr>tunServiceName := ''b'', tunHostname := ''other.example.com''\<rparr>],
       AccessPolicies = [], pcAgentID = ''''\<rparr>]"
  by (simp add: filterHostnameConflicts_cross_kind spec_dnsHostnames_def
      DefaultDNSService_def DefaultTunnelService_def)

section \<open>Drift check of the naming operator\<close>


lemma needsUpdate_cong:
  "Content a = Content b \<Longrightarrow> Proxied a = Proxied b \<Longrightarrow> TTL a = TTL b \<Longrightarrow>
   ServiceName a = ServiceName b \<Longrightarrow> needsUpdate a s = needsUpdate b s"
  by (simp add: needsUpdate_def)

lemma needsUpdate_SaveResource:
  "needsUpdate (fst (snd (SaveResource e r w))) service = needsUpdate r service"
proof -
  obtain i c u where "fst (snd (SaveResource e r w)) = r\<lparr>ID := i, CreatedAt := c, UpdatedAt := u\<rparr>"
    using SaveResource_fields by blast
  then show ?thesis by (intro needsUpdate_cong) simp_all
qed

lemma Status_SaveResource: "Status (fst (snd (SaveResource e r w))) = Status r"
proof -
  obtain i c u where "fst (snd (SaveResource e r w)) = r\<lparr>ID := i, CreatedAt := c, UpdatedAt := u\<rparr>"
    using SaveResource_fields by blast
  then show ?thesis by simp
qed

text \<open>
  Claim C10: for a naming ledger row that is neither in error nor orphaned and
  whose desired target is \<open>auto\<close>, the drift check reports drift exactly when the
  proxied flag differs, the desired TTL is non-zero and differs, or the service
  name differs; it does not depend on the stored content.  Without such a
  difference the loop body of the pass sends no request at all for the entry (in
  particular it does not ask for the public address) and leaves the remote system
  as it is.
\<close>

theorem needsUpdate_auto_target:
  assumes "dnsTarget service = ''auto''"
    and "Status current \<noteq> StatusError" and "Status current \<noteq> StatusOrphaned"
  shows "needsUpdate current service =
           (dnsProxied service \<noteq> Proxied current \<or>
            (dnsTTL service \<noteq> TTL current \<and> dnsTTL service \<noteq> 0) \<or>
            dnsServiceName service \<noteq> ServiceName current) \<and>
         needsUpdate (current\<lparr>Content := ip\<rparr>) service = needsUpdate current service \<and>
         (\<not> needsUpdate current service \<longrightarrow>
            calls (dnsUpdateBranch e (container, service) current w) = calls w \<and>
            remote (dnsUpdateBranch e (container, service) current w) = remote w)"
proof -
  have a: "needsUpdate current service =
           (dnsProxied service \<noteq> Proxied current \<or>
            (dnsTTL service \<noteq> TTL current \<and> dnsTTL service \<noteq> 0) \<or>
            dnsServiceName service \<noteq> ServiceName current)"
    using assms(1) by (auto simp: needsUpdate_def)
  have b: "needsUpdate (current\<lparr>Content := ip\<rparr>) service = needsUpdate current service"
    using assms(1) by (simp add: needsUpdate_def)
  have c: "\<not> needsUpdate current service \<Longrightarrow>
            calls (dnsUpdateBranch e (container, service) current w) = calls w \<and>
            remote (dnsUpdateBranch e (container, service) current w) = remote w"
  proof -
    assume n: "\<not> needsUpdate current service"
    have "needsUpdate (current\<lparr>AgentID := x\<rparr>) service = needsUpdate current service" for x
      by (rule needsUpdate_cong) simp_all
    with n have n': "\<not> needsUpdate (current\<lparr>AgentID := x\<rparr>) service" for x
      by simp
    have "netOf (dnsUpdateBranch e (container, service) current w) = netOf w"
      using assms(2,3) n n'
      by (simp add: dnsUpdateBranch_def Let_def case_prod_beta needsUpdate_SaveResource
          Status_SaveResource)
    then show ?thesis by (simp add: netOf_def)
  qed
  from a b c show ?thesis by blast
qed

theorem needsUpdate_auto_target_witness:
  "needsUpdate
     (emptyResource\<lparr>ID := ''r1'', ResourceType := ResourceTypeDNS, CFID := ''cf1'',
        ZoneID := ''z1'', Hostname := ''app.example.com'', RecordType := ''A'',
        Content := ''203.0.113.7'', Proxied := True, ServiceName := ''web'',
        Status := StatusActive, CleanupEnabled := True, CreatedAt := 5, UpdatedAt := 5\<rparr>)
     (DefaultDNSService\<lparr>dnsServiceName := ''web'', dnsHostname := ''app.example.com''\<rparr>) = False \<and>
   calls (dnsUpdateBranch (exampleEnv rejectAll)
      (\<lparr>Info = \<lparr>ciID = ''c1'', ciName = ''web'', ciNetworks = []\<rparr>,
        DNSServices = [DefaultDNSService\<lparr>dnsServiceName := ''web'', dnsHostname := ''app.example.com''\<rparr>],
        TunnelServices = [], AccessPolicies = [], pcAgentID = ''''\<rparr>,
       DefaultDNSService\<lparr>dnsServiceName := ''web'', dnsHostname := ''app.example.com''\<rparr>)
      (emptyResource\<lparr>ID := ''r1'', ResourceType := ResourceTypeDNS, CFID := ''cf1'',
        ZoneID := ''z1'', Hostname := ''app.example.com'', RecordType := ''A'',
        Content := ''203.0.113.7'', Proxied := True, ServiceName := ''web'',
        Status := StatusActive, CleanupEnabled := True, CreatedAt := 5, UpdatedAt := 5\<rparr>)
      (exampleWorld [] ())) = []"
proof -
  let ?cur = "emptyResource\<lparr>ID := ''r1'', ResourceType := ResourceTypeDNS, CFID := ''cf1'',
        ZoneID := ''z1'', Hostname := ''app.example.com'', RecordType := ''A'',
        Content := ''203.0.113.7'', Proxied := True, ServiceName := ''web'',
        Status := StatusActive, CleanupEnabled := True, CreatedAt := 5, UpdatedAt := 5\<rparr>"
  let ?svc = "DefaultDNSService\<lparr>dnsServiceName := ''web'', dnsHostname := ''app.example.com''\<rparr>"
  have h1: "dnsTarget ?svc = ''auto''" by (simp add: DefaultDNSService_def)
  have h2: "Status ?cur \<noteq> StatusError" by (simp add: StatusActive_def StatusError_def)
  have h3: "Status ?cur \<noteq> StatusOrphaned" by (simp add: StatusActive_def StatusOrphaned_def)
  have n: "needsUpdate ?cur ?svc = False"
    by (simp add: needsUpdate_def DefaultDNSService_def emptyResource_def)
  let ?c = "\<lparr>Info = \<lparr>ciID = ''c1'', ciName = ''web'', ciNetworks = []\<rparr>,
        DNSServices = [?svc], TunnelServices = [], AccessPolicies = [], pcAgentID = ''''\<rparr>"
  note th = needsUpdate_auto_target[OF h1 h2 h3, where e = "exampleEnv rejectAll"
        and container = ?c and w = "exampleWorld [] ()" and ip = "''''"]
  have nn: "\<not> needsUpdate ?cur ?svc" by (simp only: n not_False_eq_True)
  note res = th[THEN conjunct2, THEN conjunct2, THEN mp, OF nn, THEN conjunct1]
  have c0: "calls (exampleWorld [] ()) = []" by (simp add: exampleWorld_def)
  show ?thesis by (intro conjI) (rule n, rule trans[OF res c0])
qed


section \<open>The ledger statements\<close>

lemma stampResource_ID_new:
  "ID r = '''' \<Longrightarrow> ID (fst (stampResource e r w)) = uuids e (uuidsUsed w)"
  by (simp add: stampResource_def Let_def case_prod_beta uuidNew_def)

lemma ledger_stampResource [simp]: "ledger (snd (stampResource e r w)) = ledger w"
  by (simp add: stampResource_def Let_def case_prod_beta uuidNew_def Now_def)

lemma SaveResource_stamped: "fst (snd (SaveResource e r w)) = fst (stampResource e r w)"
  by (simp add: SaveResource_def Let_def case_prod_beta)

lemma SaveResource_ledger:
  "ledger (snd (snd (SaveResource e r w))) = snd (upsertLedger (fst (stampResource e r w)) (ledger w))"
  by (simp add: SaveResource_def Let_def case_prod_beta)

lemma SaveResource_err:
  "fst (SaveResource e r w) = fst (upsertLedger (fst (stampResource e r w)) (ledger w))"
  by (simp add: SaveResource_def Let_def case_prod_beta)

lemma sameKey_stampResource [simp]: "sameKey x (fst (stampResource e r w)) = sameKey x r"
  by (simp add: stampResource_def Let_def case_prod_beta sameKey_def)

lemma stamped_fields [simp]:
  "CFID (fst (stampResource e r w)) = CFID r"
  "ZoneID (fst (stampResource e r w)) = ZoneID r"
  "Status (fst (stampResource e r w)) = Status r"
  "LastError (fst (stampResource e r w)) = LastError r"
  "Hostname (fst (stampResource e r w)) = Hostname r"
  "RecordType (fst (stampResource e r w)) = RecordType r"
  "ResourceType (fst (stampResource e r w)) = ResourceType r"
  "AccessAppID (fst (stampResource e r w)) = AccessAppID r"
  by (simp_all add: stampResource_def Let_def case_prod_beta)

lemma upsertLedger_ok: "ID r \<notin> ID ` set rows \<Longrightarrow> fst (upsertLedger r rows) = None"
  by (simp add: upsertLedger_def image_iff) metis

lemma upsertLedger_row:
  assumes "fst (upsertLedger r rows) = None"
  shows "\<exists>x \<in> set (snd (upsertLedger r rows)).
           sameKey x r \<and> CFID x = CFID r \<and> ZoneID x = ZoneID r \<and> Status x = Status r \<and>
           LastError x = LastError r \<and> AccessAppID x = AccessAppID r"
proof (cases "\<exists>x \<in> set rows. sameKey x r")
  case True
  then obtain x where x: "x \<in> set rows" "sameKey x r" by blast
  then have "upsertRow x r \<in> set (snd (upsertLedger r rows))"
    using True by (force simp: upsertLedger_def)
  moreover have "sameKey (upsertRow x r) r" using x(2) by (simp add: sameKey_def upsertRow_def)
  ultimately show ?thesis by (intro bexI[of _ "upsertRow x r"]) (simp_all add: upsertRow_def)
next
  case False
  with assms have "snd (upsertLedger r rows) = rows @ [r]"
    by (auto simp: upsertLedger_def split: if_splits)
  then show ?thesis by (intro bexI[of _ r]) (simp_all add: sameKey_def)
qed

lemma SaveResource_ok:
  "ID r = '''' \<Longrightarrow> uuids e (uuidsUsed w) \<notin> ID ` set (ledger w) \<Longrightarrow> fst (SaveResource e r w) = None"
  by (simp add: SaveResource_err upsertLedger_ok stampResource_ID_new)

lemma SaveResource_row:
  assumes "fst (SaveResource e r w) = None"
  shows "\<exists>x \<in> set (ledger (snd (snd (SaveResource e r w)))).
           sameKey x r \<and> CFID x = CFID r \<and> ZoneID x = ZoneID r \<and> Status x = Status r \<and>
           LastError x = LastError r \<and> AccessAppID x = AccessAppID r"
  using upsertLedger_row[of "fst (stampResource e r w)" "ledger w"] assms
  by (simp add: SaveResource_err SaveResource_ledger)


section \<open>Orphan processing\<close>

lemma ledger_conv: "ledger w = fst (storeOf w)"
  by (simp add: storeOf_def)

lemma ticks_conv: "ticks w = fst (snd (storeOf w))"
  by (simp add: storeOf_def)

lemma storeOf_DeleteResource:
  "storeOf (snd (DeleteResource i w)) = (filter (\<lambda>x. ID x \<noteq> i) (fst (storeOf w)), snd (storeOf w))"
  by (simp add: DeleteResource_def storeOf_def)

lemma fst_DeleteResource [simp]: "fst (DeleteResource i w) = None"
  by (simp add: DeleteResource_def)

text \<open>Each operator's delete either fails and leaves the ledger alone, or removes
  the row of the resource it was given.\<close>

lemma DeleteDNSRecord_store:
  "storeOf (snd (DeleteDNSRecord e res w)) =
     (if fst (DeleteDNSRecord e res w) = None
      then (filter (\<lambda>x. ID x \<noteq> ID res) (fst (storeOf w)), snd (storeOf w))
      else storeOf w)"
  by (simp add: DeleteDNSRecord_def case_prod_beta storeOf_DeleteResource
      split: sum.splits option.splits)

lemma RemoveIngressRule_store:
  "storeOf (snd (RemoveIngressRule e res w)) =
     (if fst (RemoveIngressRule e res w) = None
      then (filter (\<lambda>x. ID x \<noteq> ID res) (fst (storeOf w)), snd (storeOf w))
      else storeOf w)"
  by (simp add: RemoveIngressRule_def Let_def case_prod_beta storeOf_DeleteResource
      split: sum.splits option.splits)

lemma RemoveAccess_store:
  "storeOf (snd (RemoveAccess e res w)) =
     (if fst (RemoveAccess e res w) = None
      then (filter (\<lambda>x. ID x \<noteq> ID res) (fst (storeOf w)), snd (storeOf w))
      else storeOf w)"
  by (simp add: RemoveAccess_def Let_def case_prod_beta storeOf_DeleteResource
      split: sum.splits option.splits)

lemma cleanupLoop_Cons:
  "cleanupLoop e r (resource # rest) w = cleanupLoop e r rest (cleanupStep e r resource w)"
  by (simp add: cleanupStep_def)

lemma cleanupStep_ledger:
  "ledger (cleanupStep e r res w) = ledger w \<or>
   ledger (cleanupStep e r res w) = filter (\<lambda>x. ID x \<noteq> ID res) (ledger w)"
  unfolding cleanupStep_def ledger_conv
  by (simp add: DeleteDNSRecord_store RemoveIngressRule_store RemoveAccess_store
      storeOf_DeleteResource)

lemma cleanupStep_ticks: "ticks (cleanupStep e r res w) = ticks w"
  unfolding cleanupStep_def ticks_conv
  by (simp add: DeleteDNSRecord_store RemoveIngressRule_store RemoveAccess_store
      storeOf_DeleteResource)

lemma cleanupLoop_ticks: "ticks (cleanupLoop e r rs w) = ticks w"
proof (induction rs arbitrary: w)
  case Nil
  show ?case by simp
next
  case (Cons res rs)
  show ?case unfolding cleanupLoop_Cons by (simp add: Cons.IH cleanupStep_ticks)
qed

lemma cleanupLoop_ledger:
  "\<exists>S. S \<subseteq> ID ` set rs \<and> ledger (cleanupLoop e r rs w) = filter (\<lambda>x. ID x \<notin> S) (ledger w)"
proof (induction rs arbitrary: w)
  case Nil
  show ?case by (rule exI[of _ "{}"]) simp
next
  case (Cons res rs)
  obtain S where S: "S \<subseteq> ID ` set rs"
    "ledger (cleanupLoop e r rs (cleanupStep e r res w)) =
       filter (\<lambda>x. ID x \<notin> S) (ledger (cleanupStep e r res w))"
    using Cons.IH[of "cleanupStep e r res w"] by blast
  from cleanupStep_ledger[of e r res w] show ?case
  proof
    assume "ledger (cleanupStep e r res w) = ledger w"
    with S show ?thesis unfolding cleanupLoop_Cons by (intro exI[of _ S]) auto
  next
    assume "ledger (cleanupStep e r res w) = filter (\<lambda>x. ID x \<noteq> ID res) (ledger w)"
    with S show ?thesis unfolding cleanupLoop_Cons
      by (intro exI[of _ "insert (ID res) S"]) (auto intro: filter_cong)
  qed
qed

lemma deleteRows_ledger:
  "ledger (deleteRows rs w) = filter (\<lambda>x. ID x \<notin> ID ` set rs) (ledger w)"
  by (induction rs arbitrary: w) (auto simp: DeleteResource_def intro: filter_cong)

lemma deleteRows_netOf [simp]: "netOf (deleteRows rs w) = netOf w"
  by (induction rs arbitrary: w) simp_all

lemma ledger_Now [simp]: "ledger (snd (Now e w)) = ledger w"
  by (simp add: Now_def)

lemma ticks_Now [simp]: "ticks (snd (Now e w)) = Suc (ticks w)"
  by (simp add: Now_def)

lemma fst_Now: "fst (Now e w) = clock e (ticks w)"
  by (simp add: Now_def)

lemma set_ListOrphanedForCleanup:
  "x \<in> set (ListOrphanedForCleanup c w) \<longleftrightarrow>
     x \<in> set (ledger w) \<and> Status x = StatusOrphaned \<and> CleanupEnabled x \<and> UpdatedAt x < c"
  by (auto simp: ListOrphanedForCleanup_def StatusOrphaned_def)

lemma set_ListExpiredOrphans:
  "x \<in> set (ListExpiredOrphans c w) \<longleftrightarrow>
     x \<in> set (ledger w) \<and> Status x = StatusOrphaned \<and> \<not> CleanupEnabled x \<and> UpdatedAt x < c"
  by (auto simp: ListExpiredOrphans_def StatusOrphaned_def)

lemma processOrphanedCleanups_unfold:
  "processOrphanedCleanups e r w =
     cleanupLoop e r (ListOrphanedForCleanup (clock e (ticks w) - removeDelay r) (snd (Now e w)))
       (snd (Now e w))"
  by (simp add: processOrphanedCleanups_def case_prod_beta fst_Now)

lemma cleanupExpiredOrphans_unfold:
  "cleanupExpiredOrphans e r w =
     deleteRows (ListExpiredOrphans (clock e (ticks w) - orphanTTL r) (snd (Now e w)))
       (snd (Now e w))"
  by (simp add: cleanupExpiredOrphans_def case_prod_beta fst_Now)

lemma processOrphanedCleanups_ticks: "ticks (processOrphanedCleanups e r w) = Suc (ticks w)"
  by (simp add: processOrphanedCleanups_unfold cleanupLoop_ticks)

lemma processOrphanedCleanups_subset:
  "set (ledger (processOrphanedCleanups e r w)) \<subseteq> set (ledger w)"
proof -
  obtain S where
    "ledger (processOrphanedCleanups e r w) = filter (\<lambda>x. ID x \<notin> S) (ledger (snd (Now e w)))"
    unfolding processOrphanedCleanups_unfold using cleanupLoop_ledger by blast
  then show ?thesis by auto
qed

lemma distinct_ID_eq:
  "distinct (map ID rows) \<Longrightarrow> x \<in> set rows \<Longrightarrow> y \<in> set rows \<Longrightarrow> ID x = ID y \<Longrightarrow> x = y"
  by (meson distinct_map inj_onD)

text \<open>Rows that are not flagged for cleanup survive the remote-delete path, because
  that path only ever removes rows that carry the ID of a flagged row.\<close>

lemma processOrphanedCleanups_keeps_disabled:
  assumes d: "distinct (map ID (ledger w))"
  shows "filter (\<lambda>x. \<not> CleanupEnabled x) (ledger (processOrphanedCleanups e r w)) =
         filter (\<lambda>x. \<not> CleanupEnabled x) (ledger w)"
proof -
  let ?sel = "ListOrphanedForCleanup (clock e (ticks w) - removeDelay r) (snd (Now e w))"
  obtain S where S: "S \<subseteq> ID ` set ?sel"
    "ledger (processOrphanedCleanups e r w) = filter (\<lambda>x. ID x \<notin> S) (ledger w)"
    unfolding processOrphanedCleanups_unfold
    using cleanupLoop_ledger[of ?sel e r "snd (Now e w)"] by auto
  have "ID x \<notin> S" if x: "x \<in> set (ledger w)" "\<not> CleanupEnabled x" for x
  proof
    assume "ID x \<in> S"
    with S(1) obtain y where y: "y \<in> set ?sel" "ID x = ID y" by auto
    then have "y \<in> set (ledger w)" "CleanupEnabled y"
      by (simp_all add: set_ListOrphanedForCleanup)
    with distinct_ID_eq[OF d x(1) this(1) y(2)] x(2) show False by simp
  qed
  then show ?thesis unfolding S(2) by (auto intro: filter_cong)
qed

lemma cleanupExpiredOrphans_ledger:
  assumes d: "distinct (map ID (ledger w))"
  shows "ledger (cleanupExpiredOrphans e r w) =
         filter (\<lambda>x. \<not> (Status x = StatusOrphaned \<and> \<not> CleanupEnabled x \<and>
                         UpdatedAt x < clock e (ticks w) - orphanTTL r)) (ledger w)"
proof -
  let ?sel = "ListExpiredOrphans (clock e (ticks w) - orphanTTL r) (snd (Now e w))"
  have eq: "ID x \<notin> ID ` set ?sel \<longleftrightarrow>
        \<not> (Status x = StatusOrphaned \<and> \<not> CleanupEnabled x \<and>
           UpdatedAt x < clock e (ticks w) - orphanTTL r)"
    if x: "x \<in> set (ledger w)" for x
  proof
    assume a: "ID x \<notin> ID ` set ?sel"
    then have "x \<notin> set ?sel" by blast
    with x show "\<not> (Status x = StatusOrphaned \<and> \<not> CleanupEnabled x \<and>
           UpdatedAt x < clock e (ticks w) - orphanTTL r)"
      by (simp add: set_ListExpiredOrphans)
  next
    assume a: "\<not> (Status x = StatusOrphaned \<and> \<not> CleanupEnabled x \<and>
           UpdatedAt x < clock e (ticks w) - orphanTTL r)"
    show "ID x \<notin> ID ` set ?sel"
    proof
      assume "ID x \<in> ID ` set ?sel"
      then obtain y where y: "y \<in> set ?sel" "ID x = ID y" by auto
      then have "y \<in> set (ledger w)" by (simp add: set_ListExpiredOrphans)
      from distinct_ID_eq[OF d x this y(2)] y(1) a show False
        by (simp add: set_ListExpiredOrphans)
    qed
  qed
  show ?thesis
    unfolding cleanupExpiredOrphans_unfold deleteRows_ledger ledger_Now
    by (rule filter_cong[OF refl]) (rule eq)
qed

lemma processOrphanedCleanups_distinct:
  assumes d: "distinct (map ID (ledger w))"
  shows "distinct (map ID (ledger (processOrphanedCleanups e r w)))"
proof -
  obtain S where
    "ledger (processOrphanedCleanups e r w) = filter (\<lambda>x. ID x \<notin> S) (ledger (snd (Now e w)))"
    unfolding processOrphanedCleanups_unfold using cleanupLoop_ledger by blast
  with d show ?thesis by (simp add: distinct_map_filter)
qed

text \<open>Claim C3.  Orphan exclusivity.  The remote-delete path selects exactly the
  ledger rows that are orphaned, flagged for cleanup and older than its cutoff;
  the row-only path selects exactly the rows that are orphaned, not flagged for
  cleanup and older than its cutoff; no row is selected by both, whatever the two
  cutoffs and whatever happened to the ledger in between.  Orphan processing in a
  pass runs the remote-delete path with cutoff now minus the remove delay and
  then, only when the orphan TTL is greater than 0, the row-only path with cutoff
  now minus the orphan TTL.  In a ledger with unique row IDs the two selections of
  one pass do not even share a row ID.\<close>

theorem orphan_paths_exclusive:
  assumes "distinct (map ID (ledger w))"
  shows
   "(x \<in> set (ListOrphanedForCleanup c1 w) \<longleftrightarrow>
       x \<in> set (ledger w) \<and> Status x = StatusOrphaned \<and> CleanupEnabled x \<and> UpdatedAt x < c1) \<and>
    (x \<in> set (ListExpiredOrphans c2 w) \<longleftrightarrow>
       x \<in> set (ledger w) \<and> Status x = StatusOrphaned \<and> \<not> CleanupEnabled x \<and> UpdatedAt x < c2) \<and>
    \<not> (x \<in> set (ListOrphanedForCleanup c1 w) \<and> x \<in> set (ListExpiredOrphans c2 w')) \<and>
    orphanProcessing e r w =
      (let selected1 = ListOrphanedForCleanup (clock e (ticks w) - removeDelay r) (snd (Now e w));
           w1 = cleanupLoop e r selected1 (snd (Now e w))
       in if orphanTTL r > 0 then
            (let selected2 = ListExpiredOrphans (clock e (ticks w1) - orphanTTL r) (snd (Now e w1))
             in deleteRows selected2 (snd (Now e w1)))
          else w1) \<and>
    ID ` set (ListOrphanedForCleanup (clock e (ticks w) - removeDelay r) (snd (Now e w))) \<inter>
    ID ` set (ListExpiredOrphans
               (clock e (ticks (processOrphanedCleanups e r w)) - orphanTTL r)
               (snd (Now e (processOrphanedCleanups e r w)))) = {}"
proof -
  have a: "\<not> (x \<in> set (ListOrphanedForCleanup c1 w) \<and> x \<in> set (ListExpiredOrphans c2 w'))"
    by (auto simp: set_ListOrphanedForCleanup set_ListExpiredOrphans)
  have b: "orphanProcessing e r w =
      (let selected1 = ListOrphanedForCleanup (clock e (ticks w) - removeDelay r) (snd (Now e w));
           w1 = cleanupLoop e r selected1 (snd (Now e w))
       in if orphanTTL r > 0 then
            (let selected2 = ListExpiredOrphans (clock e (ticks w1) - orphanTTL r) (snd (Now e w1))
             in deleteRows selected2 (snd (Now e w1)))
          else w1)"
    by (simp add: orphanProcessing_def Let_def processOrphanedCleanups_unfold[symmetric]
        cleanupExpiredOrphans_unfold)
  have c: "ID ` set (ListOrphanedForCleanup ca (snd (Now e w))) \<inter>
           ID ` set (ListExpiredOrphans cb (snd (Now e (processOrphanedCleanups e r w)))) = {}"
    for ca cb
  proof (rule ccontr)
    assume "\<not> ?thesis"
    then obtain y z where y: "y \<in> set (ListOrphanedForCleanup ca (snd (Now e w)))"
      and z: "z \<in> set (ListExpiredOrphans cb (snd (Now e (processOrphanedCleanups e r w))))"
      and yz: "ID y = ID z" by auto
    from y have y1: "y \<in> set (ledger w)" "CleanupEnabled y"
      by (simp_all add: set_ListOrphanedForCleanup)
    from z have "z \<in> set (ledger (processOrphanedCleanups e r w))" "\<not> CleanupEnabled z"
      by (simp_all add: set_ListExpiredOrphans)
    with processOrphanedCleanups_subset[of e r w] have z1: "z \<in> set (ledger w)" "\<not> CleanupEnabled z"
      by auto
    from distinct_ID_eq[OF assms y1(1) z1(1) yz] y1(2) z1(2) show False by simp
  qed
  show ?thesis
    using a b c by (simp add: set_ListOrphanedForCleanup set_ListExpiredOrphans)
qed

theorem orphan_paths_exclusive_witness:
  "distinct (map ID (ledger (exampleWorld
      [emptyResource\<lparr>ID := ''a'', Status := ''orphaned'', CleanupEnabled := True, UpdatedAt := 10\<rparr>,
       emptyResource\<lparr>ID := ''b'', Status := ''orphaned'', CleanupEnabled := False, UpdatedAt := 10\<rparr>]
      ()))) \<and>
   ListOrphanedForCleanup 500
     (exampleWorld
      [emptyResource\<lparr>ID := ''a'', Status := ''orphaned'', CleanupEnabled := True, UpdatedAt := 10\<rparr>,
       emptyResource\<lparr>ID := ''b'', Status := ''orphaned'', CleanupEnabled := False, UpdatedAt := 10\<rparr>]
      ()) =
     [emptyResource\<lparr>ID := ''a'', Status := ''orphaned'', CleanupEnabled := True, UpdatedAt := 10\<rparr>] \<and>
   ListExpiredOrphans 500
     (exampleWorld
      [emptyResource\<lparr>ID := ''a'', Status := ''orphaned'', CleanupEnabled := True, UpdatedAt := 10\<rparr>,
       emptyResource\<lparr>ID := ''b'', Status := ''orphaned'', CleanupEnabled := False, UpdatedAt := 10\<rparr>]
      ()) =
     [emptyResource\<lparr>ID := ''b'', Status := ''orphaned'', CleanupEnabled := False, UpdatedAt := 10\<rparr>] \<and>
   \<not> (emptyResource\<lparr>ID := ''b'', Status := ''orphaned'', CleanupEnabled := False, UpdatedAt := 10\<rparr>
        \<in> set (ListOrphanedForCleanup 500
              (exampleWorld
                [emptyResource\<lparr>ID := ''a'', Status := ''orphaned'', CleanupEnabled := True, UpdatedAt := 10\<rparr>,
                 emptyResource\<lparr>ID := ''b'', Status := ''orphaned'', CleanupEnabled := False, UpdatedAt := 10\<rparr>]
                ())) \<and>
      emptyResource\<lparr>ID := ''b'', Status := ''orphaned'', CleanupEnabled := False, UpdatedAt := 10\<rparr>
        \<in> set (ListExpiredOrphans 500
              (exampleWorld
                [emptyResource\<lparr>ID := ''a'', Status := ''orphaned'', CleanupEnabled := True, UpdatedAt := 10\<rparr>,
                 emptyResource\<lparr>ID := ''b'', Status := ''orphaned'', CleanupEnabled := False, UpdatedAt := 10\<rparr>]
                ())))"
proof -
  let ?a = "emptyResource\<lparr>ID := ''a'', Status := ''orphaned'', CleanupEnabled := True, UpdatedAt := 10\<rparr>"
  let ?b = "emptyResource\<lparr>ID := ''b'', Status := ''orphaned'', CleanupEnabled := False, UpdatedAt := 10\<rparr>"
  let ?w = "exampleWorld [?a, ?b] () :: unit world"
  have d: "distinct (map ID (ledger ?w))"
    by (simp add: exampleWorld_def emptyResource_def)
  have l1: "ListOrphanedForCleanup 500 ?w = [?a]"
    by (simp add: ListOrphanedForCleanup_def exampleWorld_def emptyResource_def)
  have l2: "ListExpiredOrphans 500 ?w = [?b]"
    by (simp add: ListExpiredOrphans_def exampleWorld_def emptyResource_def)
  note th = orphan_paths_exclusive[OF d, where x = "?b" and ?c1.0 = 500 and ?c2.0 = 500
      and w' = "?w"]
  note n = th[THEN conjunct2, THEN conjunct2, THEN conjunct1]
  from d l1 l2 n show ?thesis by (intro conjI)
qed

text \<open>The client layer does not read the ledger: run from a world with another
  ledger, each of its operations returns the same result and the same world but
  for the ledger.\<close>

lemma clientOf_ledger [simp]: "clientOf (w\<lparr>ledger := L\<rparr>) ref = clientOf w ref"
  by (simp add: clientOf_def)

lemma lift_invoke:
  "invoke e c (w\<lparr>ledger := L\<rparr>) = (fst (invoke e c w), (snd (invoke e c w))\<lparr>ledger := L\<rparr>)"
  by (simp add: invoke_def case_prod_beta)

lemma lift_setClient: "setClient ref c (w\<lparr>ledger := L\<rparr>) = (setClient ref c w)\<lparr>ledger := L\<rparr>"
  by (simp add: setClient_def)

lemma lift_SetAccountID:
  "SetAccountID ref a (w\<lparr>ledger := L\<rparr>) = (SetAccountID ref a w)\<lparr>ledger := L\<rparr>"
  by (simp add: SetAccountID_def lift_setClient)

lemma lift_GetClient:
  "GetClient cred (w\<lparr>ledger := L\<rparr>) = (fst (GetClient cred w), (snd (GetClient cred w))\<lparr>ledger := L\<rparr>)"
  by (simp add: GetClient_def lift_setClient split: option.splits)

lemma lift_GetClientForHostname:
  "GetClientForHostname cm h x (w\<lparr>ledger := L\<rparr>) =
   (fst (GetClientForHostname cm h x w), (snd (GetClientForHostname cm h x w))\<lparr>ledger := L\<rparr>)"
  by (simp add: GetClientForHostname_def lift_GetClient split: sum.splits)

lemma lift_GetTunnelClient:
  "GetTunnelClient cm n (w\<lparr>ledger := L\<rparr>) =
   (fst (GetTunnelClient cm n w), (snd (GetTunnelClient cm n w))\<lparr>ledger := L\<rparr>)"
  by (simp add: GetTunnelClient_def Let_def case_prod_beta lift_GetClient lift_SetAccountID
      split: sum.splits option.splits list.splits)

lemma lift_DeleteRecord:
  "DeleteRecord e ref z i (w\<lparr>ledger := L\<rparr>) =
   (fst (DeleteRecord e ref z i w), (snd (DeleteRecord e ref z i w))\<lparr>ledger := L\<rparr>)"
  by (simp add: DeleteRecord_def lift_invoke case_prod_beta split: RemoteResp.splits)

lemma NewTunnelClient_ledger [simp]:
  "NewTunnelClient (w\<lparr>ledger := L\<rparr>) ref a = NewTunnelClient w ref a"
  by (simp add: NewTunnelClient_def)

lemma NewAccessClient_ledger [simp]:
  "NewAccessClient (w\<lparr>ledger := L\<rparr>) ref a = NewAccessClient w ref a"
  by (simp add: NewAccessClient_def)

lemma lift_GetTunnelConfiguration:
  "GetTunnelConfiguration e t i (w\<lparr>ledger := L\<rparr>) =
   (fst (GetTunnelConfiguration e t i w), (snd (GetTunnelConfiguration e t i w))\<lparr>ledger := L\<rparr>)"
  by (simp add: GetTunnelConfiguration_def lift_invoke case_prod_beta split: RemoteResp.splits)

lemma lift_UpdateTunnelConfiguration:
  "UpdateTunnelConfiguration e t i rs (w\<lparr>ledger := L\<rparr>) =
   (fst (UpdateTunnelConfiguration e t i rs w),
    (snd (UpdateTunnelConfiguration e t i rs w))\<lparr>ledger := L\<rparr>)"
  by (simp add: UpdateTunnelConfiguration_def Let_def lift_invoke case_prod_beta
      split: RemoteResp.splits)

lemma lift_TunnelClient_RemoveIngressRule:
  "TunnelClient_RemoveIngressRule e t i h (w\<lparr>ledger := L\<rparr>) =
   (fst (TunnelClient_RemoveIngressRule e t i h w),
    (snd (TunnelClient_RemoveIngressRule e t i h w))\<lparr>ledger := L\<rparr>)"
  by (simp add: TunnelClient_RemoveIngressRule_def Let_def case_prod_beta
      lift_GetTunnelConfiguration lift_UpdateTunnelConfiguration split: sum.splits) auto

lemma lift_deletePolicies:
  "deletePolicies e a ps (w\<lparr>ledger := L\<rparr>) = (deletePolicies e a ps w)\<lparr>ledger := L\<rparr>"
  by (induction e a ps w rule: deletePolicies.induct) (simp_all add: lift_invoke)

lemma lift_cleanupOldAppPolicies:
  "cleanupOldAppPolicies e a i (w\<lparr>ledger := L\<rparr>) = (cleanupOldAppPolicies e a i w)\<lparr>ledger := L\<rparr>"
  by (simp add: cleanupOldAppPolicies_def lift_invoke lift_deletePolicies case_prod_beta
      split: RemoteResp.splits)

lemma lift_DeleteAccessApplication:
  "DeleteAccessApplication e a i (w\<lparr>ledger := L\<rparr>) =
   (fst (DeleteAccessApplication e a i w), (snd (DeleteAccessApplication e a i w))\<lparr>ledger := L\<rparr>)"
  by (simp add: DeleteAccessApplication_def Let_def lift_invoke lift_cleanupOldAppPolicies
      case_prod_beta split: RemoteResp.splits)

lemma lift_DeleteResource:
  "snd (DeleteResource i (w\<lparr>ledger := L\<rparr>)) =
   (snd (DeleteResource i w))\<lparr>ledger := filter (\<lambda>x. ID x \<noteq> i) L\<rparr>"
  by (simp add: DeleteResource_def)

text \<open>The three deletes and the cleanup loop: the ledger they start from changes
  nothing but the ledger they end with.\<close>

lemma lift_DeleteDNSRecord:
  "\<exists>L'. snd (DeleteDNSRecord e res (w\<lparr>ledger := L\<rparr>)) = (snd (DeleteDNSRecord e res w))\<lparr>ledger := L'\<rparr>"
  by (simp add: DeleteDNSRecord_def case_prod_beta lift_GetClientForHostname lift_DeleteRecord
      lift_DeleteResource split: sum.splits option.splits) blast

lemma lift_RemoveIngressRule:
  "\<exists>L'. snd (RemoveIngressRule e res (w\<lparr>ledger := L\<rparr>)) = (snd (RemoveIngressRule e res w))\<lparr>ledger := L'\<rparr>"
  by (simp add: RemoveIngressRule_def Let_def case_prod_beta lift_GetTunnelClient
      lift_TunnelClient_RemoveIngressRule lift_DeleteResource split: sum.splits option.splits) blast

lemma lift_RemoveAccess:
  "\<exists>L'. snd (RemoveAccess e res (w\<lparr>ledger := L\<rparr>)) = (snd (RemoveAccess e res w))\<lparr>ledger := L'\<rparr>"
  by (simp add: RemoveAccess_def Let_def case_prod_beta lift_GetTunnelClient
      lift_DeleteAccessApplication lift_DeleteResource split: sum.splits option.splits) blast

lemma lift_cleanupLoop:
  "\<exists>L'. cleanupLoop e r rs (w\<lparr>ledger := L\<rparr>) = (cleanupLoop e r rs w)\<lparr>ledger := L'\<rparr>"
proof (induction rs arbitrary: w L)
  case Nil
  show ?case by simp blast
next
  case (Cons x rs)
  have step: "\<exists>L'. cleanupStep e r x (w\<lparr>ledger := L\<rparr>) = (cleanupStep e r x w)\<lparr>ledger := L'\<rparr>"
    using lift_DeleteDNSRecord[where e = e and res = x and w = w and L = L]
      lift_RemoveIngressRule[where e = e and res = x and w = w and L = L]
      lift_RemoveAccess[where e = e and res = x and w = w and L = L]
      lift_DeleteResource[where i = "ID x" and w = w and L = L]
    by (auto simp: cleanupStep_def)
  then obtain L1 where "cleanupStep e r x (w\<lparr>ledger := L\<rparr>) = (cleanupStep e r x w)\<lparr>ledger := L1\<rparr>"
    by blast
  with Cons.IH[where w = "cleanupStep e r x w" and L = L1] show ?case
    by (simp only: cleanupLoop_Cons)
qed

lemma cleanupLoop_netOf_ledger:
  "netOf (cleanupLoop e r rs (w\<lparr>ledger := L\<rparr>)) = netOf (cleanupLoop e r rs w)"
proof -
  from lift_cleanupLoop[where e = e and r = r and rs = rs and w = w and L = L] obtain L' where
    "cleanupLoop e r rs (w\<lparr>ledger := L\<rparr>) = (cleanupLoop e r rs w)\<lparr>ledger := L'\<rparr>" by blast
  then show ?thesis by simp
qed

lemma ListOrphanedForCleanup_alt:
  "ListOrphanedForCleanup c v =
   sort_key UpdatedAt (filter (\<lambda>x. Status x = ''orphaned'' \<and> UpdatedAt x < c)
                        (filter CleanupEnabled (ledger v)))"
  by (auto simp: ListOrphanedForCleanup_def intro!: arg_cong[where f = "sort_key UpdatedAt"]
      filter_cong)

lemma ListOrphanedForCleanup_enabled:
  "filter CleanupEnabled (ledger w') = filter CleanupEnabled (ledger w) \<Longrightarrow>
   ListOrphanedForCleanup c w' = ListOrphanedForCleanup c w"
  unfolding ListOrphanedForCleanup_alt by (simp only:)

lemma processOrphanedCleanups_netOf_ledger:
  assumes "filter CleanupEnabled L = filter CleanupEnabled (ledger w)"
  shows "netOf (processOrphanedCleanups e r (w\<lparr>ledger := L\<rparr>)) = netOf (processOrphanedCleanups e r w)"
proof -
  let ?v = "snd (Now e w)"
  have n: "snd (Now e (w\<lparr>ledger := L\<rparr>)) = ?v\<lparr>ledger := L\<rparr>" by (simp add: Now_def)
  have l: "ListOrphanedForCleanup c (?v\<lparr>ledger := L\<rparr>) = ListOrphanedForCleanup c ?v" for c
    by (rule ListOrphanedForCleanup_enabled) (simp add: assms)
  show ?thesis
    by (simp add: processOrphanedCleanups_unfold n l cleanupLoop_netOf_ledger)
qed

lemma orphanProcessing_netOf:
  "netOf (orphanProcessing e r w) = netOf (processOrphanedCleanups e r w)"
  by (simp add: orphanProcessing_def Let_def cleanupExpiredOrphans_unfold)

text \<open>Claim C4.  A ledger row that is not flagged for cleanup is never selected by
  the remote-delete path, which is the only part of orphan processing that talks
  to the remote system; the row-only path issues no request and leaves the remote
  system and the request log as they were.  The requests of orphan processing do
  not depend on the rows that are not flagged for cleanup: started from any ledger
  with the same flagged rows (with other unflagged rows, or none), orphan
  processing sends the same requests, in the same order, and leaves the remote
  system and the client cache in the same state.  In a ledger with unique row IDs,
  when the orphan TTL is 0 (or negative) orphan processing leaves every row that
  is not flagged for cleanup in the ledger; when the orphan TTL is positive the
  rows that are not flagged for cleanup and survive are exactly those that are not
  orphaned for longer than the TTL, and the remote system and the request log are
  those left by the remote-delete path over the flagged rows.\<close>

theorem cleanup_disabled_never_remote_deleted:
  assumes "distinct (map ID (ledger w))"
  shows
   "filter (\<lambda>x. \<not> CleanupEnabled x) (ListOrphanedForCleanup c w) = [] \<and>
    netOf (cleanupExpiredOrphans e r w) = netOf w \<and>
    (\<forall>L. filter CleanupEnabled L = filter CleanupEnabled (ledger w) \<longrightarrow>
         netOf (orphanProcessing e r (w\<lparr>ledger := L\<rparr>)) = netOf (orphanProcessing e r w)) \<and>
    (orphanTTL r \<le> 0 \<longrightarrow>
       filter (\<lambda>x. \<not> CleanupEnabled x) (ledger (orphanProcessing e r w)) =
       filter (\<lambda>x. \<not> CleanupEnabled x) (ledger w)) \<and>
    (orphanTTL r > 0 \<longrightarrow>
       filter (\<lambda>x. \<not> CleanupEnabled x) (ledger (orphanProcessing e r w)) =
       filter (\<lambda>x. \<not> CleanupEnabled x \<and>
                   \<not> (Status x = StatusOrphaned \<and>
                      UpdatedAt x < clock e (Suc (ticks w)) - orphanTTL r)) (ledger w) \<and>
       netOf (orphanProcessing e r w) = netOf (processOrphanedCleanups e r w))"
proof -
  have a: "filter (\<lambda>x. \<not> CleanupEnabled x) (ListOrphanedForCleanup c w) = []"
    by (simp add: filter_empty_conv set_ListOrphanedForCleanup)
  have b: "netOf (cleanupExpiredOrphans e r w) = netOf w" for w :: "'a world"
    by (simp add: cleanupExpiredOrphans_unfold)
  have ni: "netOf (orphanProcessing e r (w\<lparr>ledger := L\<rparr>)) = netOf (orphanProcessing e r w)"
    if "filter CleanupEnabled L = filter CleanupEnabled (ledger w)" for L
    unfolding orphanProcessing_netOf by (rule processOrphanedCleanups_netOf_ledger[OF that])
  let ?w1 = "processOrphanedCleanups e r w"
  have k: "filter (\<lambda>x. \<not> CleanupEnabled x) (ledger ?w1) =
           filter (\<lambda>x. \<not> CleanupEnabled x) (ledger w)"
    by (rule processOrphanedCleanups_keeps_disabled[OF assms])
  have c: "filter (\<lambda>x. \<not> CleanupEnabled x) (ledger (orphanProcessing e r w)) =
           filter (\<lambda>x. \<not> CleanupEnabled x) (ledger w)" if "orphanTTL r \<le> 0"
    using that k by (simp add: orphanProcessing_def Let_def)
  have d: "filter (\<lambda>x. \<not> CleanupEnabled x) (ledger (orphanProcessing e r w)) =
       filter (\<lambda>x. \<not> CleanupEnabled x \<and>
                   \<not> (Status x = StatusOrphaned \<and>
                      UpdatedAt x < clock e (Suc (ticks w)) - orphanTTL r)) (ledger w)"
    if t: "orphanTTL r > 0"
  proof -
    let ?P = "\<lambda>x. \<not> (Status x = StatusOrphaned \<and> UpdatedAt x < clock e (Suc (ticks w)) - orphanTTL r)"
    have "ledger (orphanProcessing e r w) =
          filter (\<lambda>x. \<not> (Status x = StatusOrphaned \<and> \<not> CleanupEnabled x \<and>
                         UpdatedAt x < clock e (Suc (ticks w)) - orphanTTL r)) (ledger ?w1)"
      using t cleanupExpiredOrphans_ledger[OF processOrphanedCleanups_distinct[OF assms], of e r e r]
      by (simp add: orphanProcessing_def Let_def processOrphanedCleanups_ticks)
    then have "filter (\<lambda>x. \<not> CleanupEnabled x) (ledger (orphanProcessing e r w)) =
               filter ?P (filter (\<lambda>x. \<not> CleanupEnabled x) (ledger ?w1))"
      by (auto intro: filter_cong)
    also have "\<dots> = filter ?P (filter (\<lambda>x. \<not> CleanupEnabled x) (ledger w))"
      by (simp only: k)
    finally show ?thesis by (auto intro: filter_cong)
  qed
  have f: "netOf (orphanProcessing e r w) = netOf ?w1" if "orphanTTL r > 0"
    by (rule orphanProcessing_netOf)
  from a b[of w] ni c d f show ?thesis by blast
qed

theorem cleanup_disabled_never_remote_deleted_witness:
  "distinct (map ID (ledger (exampleWorld [exampleKeptOrphan, exampleDueOrphan] ()))) \<and>
   orphanTTL (exampleReconciler 0 []) \<le> 0 \<and>
   filter (\<lambda>x. \<not> CleanupEnabled x)
     (ledger (orphanProcessing (exampleEnv occupiedRemote) (exampleReconciler 0 [])
        (exampleWorld [exampleKeptOrphan, exampleDueOrphan] ()))) = [exampleKeptOrphan] \<and>
   orphanTTL (exampleReconciler 100 []) > 0 \<and>
   filter (\<lambda>x. \<not> CleanupEnabled x)
     (ledger (orphanProcessing (exampleEnv occupiedRemote) (exampleReconciler 100 [])
        (exampleWorld [exampleKeptOrphan, exampleDueOrphan] ()))) = [] \<and>
   filter CleanupEnabled [exampleDueOrphan] =
     filter CleanupEnabled (ledger (exampleWorld [exampleKeptOrphan, exampleDueOrphan] ())) \<and>
   netOf (orphanProcessing (exampleEnv occupiedRemote) (exampleReconciler 100 [])
        (exampleWorld [exampleKeptOrphan, exampleDueOrphan] ())) =
     netOf (orphanProcessing (exampleEnv occupiedRemote) (exampleReconciler 100 [])
        ((exampleWorld [exampleKeptOrphan, exampleDueOrphan] ())\<lparr>ledger := [exampleDueOrphan]\<rparr>)) \<and>
   calls (orphanProcessing (exampleEnv occupiedRemote) (exampleReconciler 100 [])
        (exampleWorld [exampleKeptOrphan, exampleDueOrphan] ())) =
     [RecordsDelete ''tok'' ''z1'' ''cf-a''] \<and>
   calls (cleanupExpiredOrphans (exampleEnv occupiedRemote) (exampleReconciler 100 [])
        (exampleWorld [exampleKeptOrphan, exampleDueOrphan] ())) = []"
proof -
  let ?w = "exampleWorld [exampleKeptOrphan, exampleDueOrphan] () :: unit world"
  let ?e = "exampleEnv occupiedRemote"
  note rows = exampleKeptOrphan_def exampleDueOrphan_def emptyResource_def
  have d: "distinct (map ID (ledger ?w))"
    by (simp add: exampleWorld_def rows)
  have t0: "orphanTTL (exampleReconciler 0 []) \<le> 0"
    by (simp add: exampleReconciler_def)
  have t1: "orphanTTL (exampleReconciler 100 []) > 0"
    by (simp add: exampleReconciler_def)
  have fl: "filter CleanupEnabled [exampleDueOrphan] = filter CleanupEnabled (ledger ?w)"
    by (simp add: exampleWorld_def rows)
  note th0 = cleanup_disabled_never_remote_deleted[OF d, where e = "?e"
      and r = "exampleReconciler 0 []" and c = 0]
  note th1 = cleanup_disabled_never_remote_deleted[OF d, where e = "?e"
      and r = "exampleReconciler 100 []" and c = 0]
  have k0: "filter (\<lambda>x. \<not> CleanupEnabled x) (ledger (orphanProcessing ?e (exampleReconciler 0 []) ?w)) =
            [exampleKeptOrphan]"
    using th0[THEN conjunct2, THEN conjunct2, THEN conjunct2, THEN conjunct1, THEN mp, OF t0]
    by (simp add: exampleWorld_def rows)
  have k1: "filter (\<lambda>x. \<not> CleanupEnabled x) (ledger (orphanProcessing ?e (exampleReconciler 100 []) ?w)) = []"
    using th1[THEN conjunct2, THEN conjunct2, THEN conjunct2, THEN conjunct2, THEN mp, OF t1,
        THEN conjunct1]
    by (simp add: exampleWorld_def rows exampleEnv_def exampleReconciler_def StatusOrphaned_def)
  have ni: "netOf (orphanProcessing ?e (exampleReconciler 100 []) ?w) =
            netOf (orphanProcessing ?e (exampleReconciler 100 []) (?w\<lparr>ledger := [exampleDueOrphan]\<rparr>))"
    using th1[THEN conjunct2, THEN conjunct2, THEN conjunct1, THEN spec, THEN mp, OF fl]
    by simp
  have cs: "calls (orphanProcessing ?e (exampleReconciler 100 [])
              (exampleWorld [exampleDueOrphan] ())) = [RecordsDelete ''tok'' ''z1'' ''cf-a'']"
    by (simp add: orphanProcessing_def processOrphanedCleanups_def cleanupExpiredOrphans_def
        Let_def case_prod_beta Now_def ListOrphanedForCleanup_def ListExpiredOrphans_def
        exampleWorld_def exampleReconciler_def exampleEnv_def exampleManager_def rows
        ResourceTypeDNS_def DeleteDNSRecord_def GetClientForHostname_def
        GetCredentialForZone_def GetClient_def setClient_def clientOf_def NewClient_def
        DeleteRecord_def invoke_def DeleteResource_def)
  have we: "?w\<lparr>ledger := [exampleDueOrphan]\<rparr> = exampleWorld [exampleDueOrphan] ()"
    by (simp add: exampleWorld_def)
  have cs2: "calls (orphanProcessing ?e (exampleReconciler 100 []) ?w) =
             [RecordsDelete ''tok'' ''z1'' ''cf-a'']"
    using ni cs unfolding we by (simp add: netOf_def)
  have n: "calls (cleanupExpiredOrphans ?e (exampleReconciler 100 []) ?w) = []"
    using th1[THEN conjunct2, THEN conjunct1]
    by (simp add: netOf_def exampleWorld_def)
  from d t0 k0 t1 k1 fl ni cs2 n show ?thesis by (intro conjI)
qed

section \<open>Adoption and recovery in the naming operator\<close>

text \<open>Claim C6.  When the creation request of \<open>CreateDNSRecord\<close> fails with an
  "already exists" error, the operator looks the record up by hostname and record
  type.  If the lookup finds a record, the operation continues as if that record
  had been created: the resource saved has its remote ID, and with a fresh UUID
  the operation succeeds, returns the resource as active with that remote ID,
  leaves a ledger row for the key with that remote ID, and sends no further
  request.  If the lookup fails or finds nothing, the creation error is returned.
  When \<open>UpdateDNSRecord\<close> is given a resource whose remote ID or zone ID is empty,
  it performs the same lookup first.  If the lookup finds a record, its ID and zone
  ID are written into the resource and are the ones used in the update request and
  saved; if the lookup fails or finds nothing, the update fails with the
  "cannot update" error and nothing else is requested.\<close>

theorem dns_adopt_on_conflict_and_recover:
  assumes client:
    "GetClientForHostname (credManager e) (dnsHostname service) (dnsCredential service) w =
       (Inr client, w1)"
  shows
   "(resolveTarget e (dnsTarget service) container w1 = (Inr target, w2) \<and>
     clientGetZoneID e client (dnsHostname service) w2 = (Inr zoneID, w3) \<and>
     CreateRecord e client
       \<lparr>recID = '''', recZoneID = zoneID, recZoneName = '''',
        recName = dnsHostname service, recType = dnsType service,
        recContent = target, recProxied = dnsProxied service, recTTL = dnsTTL service,
        recPriority = dnsPriority service,
        recComment = ''Managed by labelgate [container:'' @ ciName container @
                     '' service:'' @ dnsServiceName service @ '']''\<rparr> w3 = (Inl err, w4) \<and>
     isAlreadyExistsError err \<longrightarrow>
       (GetRecordByName e client (dnsHostname service) (dnsType service) w4 =
          (Inr (Some existing), w5) \<longrightarrow>
          CreateDNSRecord e container service w =
            (case SaveResource e
                    (emptyResource
                       \<lparr>ResourceType := ResourceTypeDNS, CFID := recID existing, ZoneID := zoneID,
                        Hostname := dnsHostname service, RecordType := dnsType service,
                        Content := target, Proxied := dnsProxied service, TTL := dnsTTL service,
                        ContainerID := ciID container, ContainerName := ciName container,
                        ServiceName := dnsServiceName service, Status := StatusActive,
                        CleanupEnabled := dnsCleanup service\<rparr>) w5 of
               (Some saveErr, r, w6) \<Rightarrow>
                 (Inl (''failed to save resource: '' @ saveErr),
                  snd (DeleteRecord e client zoneID (recID existing) w6))
             | (None, r, w6) \<Rightarrow> (Inr r, w6)) \<and>
          (uuids e (uuidsUsed w5) \<notin> ID ` set (ledger w5) \<longrightarrow>
             (\<exists>r w6. CreateDNSRecord e container service w = (Inr r, w6) \<and>
                CFID r = recID existing \<and> ZoneID r = zoneID \<and> Status r = StatusActive \<and>
                netOf w6 = netOf w5 \<and>
                (\<exists>x \<in> set (ledger w6).
                   ResourceType x = ResourceTypeDNS \<and> Hostname x = dnsHostname service \<and>
                   RecordType x = dnsType service \<and> CFID x = recID existing \<and>
                   Status x = StatusActive)))) \<and>
       ((\<forall>x. fst (GetRecordByName e client (dnsHostname service) (dnsType service) w4) \<noteq>
               Inr (Some x)) \<longrightarrow>
          CreateDNSRecord e container service w =
            (Inl err, snd (GetRecordByName e client (dnsHostname service) (dnsType service) w4)))) \<and>
    (CFID resource = '''' \<or> ZoneID resource = '''' \<longrightarrow>
       (GetRecordByName e client (dnsHostname service) (dnsType service) w1 =
          (Inr (Some found), v2) \<longrightarrow>
          UpdateDNSRecord e resource service w =
            (case (if dnsTarget service = ''auto'' \<or> dnsTarget service = '''' then getPublicIP e v2
                   else (Inr (dnsTarget service), v2)) of
               (Inl err, v3) \<Rightarrow>
                 (Some err, resource\<lparr>CFID := recID found, ZoneID := recZoneID found\<rparr>, v3)
             | (Inr target, v3) \<Rightarrow>
                 (case UpdateRecord e client
                         \<lparr>recID = recID found, recZoneID = recZoneID found, recZoneName = '''',
                          recName = dnsHostname service, recType = dnsType service,
                          recContent = target, recProxied = dnsProxied service,
                          recTTL = dnsTTL service, recPriority = dnsPriority service,
                          recComment = ''''\<rparr> v3 of
                    (Inl err, v4) \<Rightarrow>
                      (Some err, resource\<lparr>CFID := recID found, ZoneID := recZoneID found\<rparr>, v4)
                  | (Inr updated, v4) \<Rightarrow>
                      SaveResource e
                        (resource\<lparr>CFID := recID found, ZoneID := recZoneID found,
                                  Content := target, Proxied := dnsProxied service,
                                  TTL := dnsTTL service, ServiceName := dnsServiceName service,
                                  CleanupEnabled := dnsCleanup service\<rparr>) v4))) \<and>
       ((\<forall>x. fst (GetRecordByName e client (dnsHostname service) (dnsType service) w1) \<noteq>
               Inr (Some x)) \<longrightarrow>
          UpdateDNSRecord e resource service w =
            (Some (''cannot update: record not found in Cloudflare and no CFID in storage for ''
                   @ dnsHostname service),
             resource,
             snd (GetRecordByName e client (dnsHostname service) (dnsType service) w1))))"
proof -
  let ?host = "dnsHostname service" and ?ty = "dnsType service"
  let ?rec = "\<lparr>recID = '''', recZoneID = zoneID, recZoneName = '''',
        recName = dnsHostname service, recType = dnsType service,
        recContent = target, recProxied = dnsProxied service, recTTL = dnsTTL service,
        recPriority = dnsPriority service,
        recComment = ''Managed by labelgate [container:'' @ ciName container @
                     '' service:'' @ dnsServiceName service @ '']''\<rparr>"
  let ?res = "emptyResource
                       \<lparr>ResourceType := ResourceTypeDNS, CFID := recID existing, ZoneID := zoneID,
                        Hostname := dnsHostname service, RecordType := dnsType service,
                        Content := target, Proxied := dnsProxied service, TTL := dnsTTL service,
                        ContainerID := ciID container, ContainerName := ciName container,
                        ServiceName := dnsServiceName service, Status := StatusActive,
                        CleanupEnabled := dnsCleanup service\<rparr>"
  have create_found:
    "CreateDNSRecord e container service w =
       (case SaveResource e ?res w5 of
          (Some saveErr, r, w6) \<Rightarrow>
            (Inl (''failed to save resource: '' @ saveErr),
             snd (DeleteRecord e client zoneID (recID existing) w6))
        | (None, r, w6) \<Rightarrow> (Inr r, w6))"
    if p: "resolveTarget e (dnsTarget service) container w1 = (Inr target, w2)"
      "clientGetZoneID e client ?host w2 = (Inr zoneID, w3)"
      "CreateRecord e client ?rec w3 = (Inl err, w4)" "isAlreadyExistsError err"
      and l: "GetRecordByName e client ?host ?ty w4 = (Inr (Some existing), w5)"
    using client p l
    by (simp add: CreateDNSRecord_def Let_def case_prod_beta split: option.splits)
  have create_ok:
    "\<exists>r w6. CreateDNSRecord e container service w = (Inr r, w6) \<and>
                CFID r = recID existing \<and> ZoneID r = zoneID \<and> Status r = StatusActive \<and>
                netOf w6 = netOf w5 \<and>
                (\<exists>x \<in> set (ledger w6).
                   ResourceType x = ResourceTypeDNS \<and> Hostname x = dnsHostname service \<and>
                   RecordType x = dnsType service \<and> CFID x = recID existing \<and>
                   Status x = StatusActive)"
    if p: "resolveTarget e (dnsTarget service) container w1 = (Inr target, w2)"
      "clientGetZoneID e client ?host w2 = (Inr zoneID, w3)"
      "CreateRecord e client ?rec w3 = (Inl err, w4)" "isAlreadyExistsError err"
      and l: "GetRecordByName e client ?host ?ty w4 = (Inr (Some existing), w5)"
      and fresh: "uuids e (uuidsUsed w5) \<notin> ID ` set (ledger w5)"
  proof -
    have ok: "fst (SaveResource e ?res w5) = None"
      by (rule SaveResource_ok[OF _ fresh]) (simp add: emptyResource_def)
    obtain r w6 where s: "SaveResource e ?res w5 = (None, r, w6)"
      using ok by (metis prod.collapse)
    have c: "CreateDNSRecord e container service w = (Inr r, w6)"
      using create_found[OF p l] s by simp
    have r: "r = fst (stampResource e ?res w5)"
      using SaveResource_stamped[of e ?res w5] s by simp
    have n: "netOf w6 = netOf w5" using netOf_SaveResource[of e ?res w5] s by simp
    from SaveResource_row[OF ok] s obtain x where
      "x \<in> set (ledger w6)" "sameKey x ?res" "CFID x = CFID ?res" "Status x = Status ?res"
      by auto
    then have "\<exists>x \<in> set (ledger w6).
                   ResourceType x = ResourceTypeDNS \<and> Hostname x = dnsHostname service \<and>
                   RecordType x = dnsType service \<and> CFID x = recID existing \<and>
                   Status x = StatusActive"
      by (intro bexI[of _ x]) (simp_all add: sameKey_def)
    with c r n show ?thesis by simp
  qed
  have create_missing:
    "CreateDNSRecord e container service w =
       (Inl err, snd (GetRecordByName e client ?host ?ty w4))"
    if p: "resolveTarget e (dnsTarget service) container w1 = (Inr target, w2)"
      "clientGetZoneID e client ?host w2 = (Inr zoneID, w3)"
      "CreateRecord e client ?rec w3 = (Inl err, w4)" "isAlreadyExistsError err"
      and l: "\<forall>x. fst (GetRecordByName e client ?host ?ty w4) \<noteq> Inr (Some x)"
  proof -
    obtain res w5 where g: "GetRecordByName e client ?host ?ty w4 = (res, w5)"
      by (cases "GetRecordByName e client ?host ?ty w4")
    with l have "\<forall>x. res \<noteq> Inr (Some x)" by simp
    then show ?thesis using client p g
      by (simp add: CreateDNSRecord_def Let_def split: sum.splits option.splits)
  qed
  have update_found:
    "UpdateDNSRecord e resource service w =
            (case (if dnsTarget service = ''auto'' \<or> dnsTarget service = '''' then getPublicIP e v2
                   else (Inr (dnsTarget service), v2)) of
               (Inl err, v3) \<Rightarrow>
                 (Some err, resource\<lparr>CFID := recID found, ZoneID := recZoneID found\<rparr>, v3)
             | (Inr target, v3) \<Rightarrow>
                 (case UpdateRecord e client
                         \<lparr>recID = recID found, recZoneID = recZoneID found, recZoneName = '''',
                          recName = dnsHostname service, recType = dnsType service,
                          recContent = target, recProxied = dnsProxied service,
                          recTTL = dnsTTL service, recPriority = dnsPriority service,
                          recComment = ''''\<rparr> v3 of
                    (Inl err, v4) \<Rightarrow>
                      (Some err, resource\<lparr>CFID := recID found, ZoneID := recZoneID found\<rparr>, v4)
                  | (Inr updated, v4) \<Rightarrow>
                      SaveResource e
                        (resource\<lparr>CFID := recID found, ZoneID := recZoneID found,
                                  Content := target, Proxied := dnsProxied service,
                                  TTL := dnsTTL service, ServiceName := dnsServiceName service,
                                  CleanupEnabled := dnsCleanup service\<rparr>) v4))"
    if m: "CFID resource = '''' \<or> ZoneID resource = ''''"
      and l: "GetRecordByName e client ?host ?ty w1 = (Inr (Some found), v2)"
    using client m l
    by (simp add: UpdateDNSRecord_def Let_def split: sum.splits prod.splits)
  have update_missing:
    "UpdateDNSRecord e resource service w =
            (Some (''cannot update: record not found in Cloudflare and no CFID in storage for ''
                   @ dnsHostname service),
             resource,
             snd (GetRecordByName e client ?host ?ty w1))"
    if m: "CFID resource = '''' \<or> ZoneID resource = ''''"
      and l: "\<forall>x. fst (GetRecordByName e client ?host ?ty w1) \<noteq> Inr (Some x)"
  proof -
    obtain res v2 where g: "GetRecordByName e client ?host ?ty w1 = (res, v2)"
      by (cases "GetRecordByName e client ?host ?ty w1")
    with l have "\<forall>x. res \<noteq> Inr (Some x)" by simp
    then show ?thesis using client m g
      by (simp add: UpdateDNSRecord_def Let_def split: sum.splits option.splits)
  qed
  show ?thesis
    using create_found create_ok create_missing update_found update_missing by blast
qed

theorem dns_adopt_on_conflict_and_recover_witness:
  "fst (GetClientForHostname (credManager (exampleEnv occupiedRemote))
          (dnsHostname exampleService) (dnsCredential exampleService) (exampleWorld [] ())) =
     Inr ''default'' \<and>
   map_sum id CFID
     (fst (CreateDNSRecord (exampleEnv occupiedRemote) exampleContainer exampleService
             (exampleWorld [] ()))) = Inr ''cf1'' \<and>
   CFID (emptyResource\<lparr>ID := ''r1''\<rparr>) = '''' \<and>
   CFID (fst (snd (UpdateDNSRecord (exampleEnv occupiedRemote) (emptyResource\<lparr>ID := ''r1''\<rparr>)
                     exampleService (exampleWorld [] ())))) = ''cf1''"
proof -
  let ?e = "exampleEnv occupiedRemote"
  let ?w = "exampleWorld [] () :: unit world"
  let ?host = "dnsHostname exampleService" and ?ty = "dnsType exampleService"
  let ?res = "emptyResource\<lparr>ID := ''r1''\<rparr>"
  let ?g = "GetClientForHostname (credManager ?e) ?host (dnsCredential exampleService) ?w"
  let ?w1 = "snd ?g"
  have ts: "TrimSuffix ''app.example.com'' ''.'' = ''app.example.com''"
    by (simp add: TrimSuffix_def HasSuffix_def)
  note defs = prod_eq_iff GetClientForHostname_def GetCredentialForZone_def GetClient_def
    setClient_def exampleEnv_def exampleManager_def exampleWorld_def exampleService_def
    DefaultDNSService_def exampleContainer_def exampleRecord_def
    clientGetZoneID_def clientOf_def NewClient_def invoke_def
    GetZoneID_def loadZones_def matchZoneForHostname_def walkZones.simps ts Let_def
    CreateRecord_def buildRecordBody_def convertRecordResponse_def GetRecordByName_def
    isAlreadyExistsError_def HasPrefix_def
  have g: "?g = (Inr ''default'', ?w1)"
    by (simp add: defs)
  have t: "resolveTarget ?e (dnsTarget exampleService) exampleContainer ?w1 = (Inr ''203.0.113.7'', ?w1)"
    by (simp add: resolveTarget_def exampleService_def)
  let ?z = "clientGetZoneID ?e ''default'' ?host ?w1"
  have z: "?z = (Inr ''z1'', snd ?z)"
    by (simp add: defs)
  let ?rec = "\<lparr>recID = '''', recZoneID = ''z1'', recZoneName = '''',
        recName = dnsHostname exampleService, recType = dnsType exampleService,
        recContent = ''203.0.113.7'', recProxied = dnsProxied exampleService,
        recTTL = dnsTTL exampleService, recPriority = dnsPriority exampleService,
        recComment = ''Managed by labelgate [container:'' @ ciName exampleContainer @
                     '' service:'' @ dnsServiceName exampleService @ '']''\<rparr>"
  let ?c = "CreateRecord ?e ''default'' ?rec (snd ?z)"
  let ?err = "''failed to create DNS record: An identical record already exists.''"
  have c: "?c = (Inl ?err, snd ?c)"
    by (simp add: defs)
  have ae: "isAlreadyExistsError ?err"
    by (simp add: isAlreadyExistsError_def HasPrefix_def)
  let ?l = "GetRecordByName ?e ''default'' ?host ?ty (snd ?c)"
  have l: "?l = (Inr (Some (exampleRecord\<lparr>recZoneID := ''z1''\<rparr>)), snd ?l)"
    by (simp add: defs)
  have fresh: "uuids ?e (uuidsUsed (snd ?l)) \<notin> ID ` set (ledger (snd ?l))"
    by (simp add: defs)
  let ?l1 = "GetRecordByName ?e ''default'' ?host ?ty ?w1"
  have l1: "?l1 = (Inr (Some (exampleRecord\<lparr>recZoneID := ''z1''\<rparr>)), snd ?l1)"
    by (simp add: defs)
  have m: "CFID ?res = '''' \<or> ZoneID ?res = ''''"
    by (simp add: emptyResource_def)
  note th = dns_adopt_on_conflict_and_recover[OF g, where container = exampleContainer
      and target = "''203.0.113.7''" and ?w2.0 = "?w1" and zoneID = "''z1''" and ?w3.0 = "snd ?z"
      and err = "?err" and ?w4.0 = "snd ?c"
      and existing = "exampleRecord\<lparr>recZoneID := ''z1''\<rparr>" and ?w5.0 = "snd ?l"
      and resource = "?res" and found = "exampleRecord\<lparr>recZoneID := ''z1''\<rparr>"
      and ?v2.0 = "snd ?l1"]
  have p: "resolveTarget ?e (dnsTarget exampleService) exampleContainer ?w1 = (Inr ''203.0.113.7'', ?w1) \<and>
     clientGetZoneID ?e ''default'' ?host ?w1 = (Inr ''z1'', snd ?z) \<and>
     CreateRecord ?e ''default'' ?rec (snd ?z) = (Inl ?err, snd ?c) \<and>
     isAlreadyExistsError ?err"
    using t z c ae by (intro conjI)
  note a = th[THEN conjunct1, THEN mp, OF p, THEN conjunct1, THEN mp, OF l, THEN conjunct2,
      THEN mp, OF fresh]
  from a obtain r w6 where r: "CreateDNSRecord ?e exampleContainer exampleService ?w = (Inr r, w6)"
    "CFID r = recID (exampleRecord\<lparr>recZoneID := ''z1''\<rparr>)" by blast
  have k1: "map_sum id CFID (fst (CreateDNSRecord ?e exampleContainer exampleService ?w)) = Inr ''cf1''"
    using r by (simp add: exampleRecord_def)
  note b = th[THEN conjunct2, THEN mp, OF m, THEN conjunct1, THEN mp, OF l1]
  have k2: "CFID (fst (snd (UpdateDNSRecord ?e ?res exampleService ?w))) = ''cf1''"
    unfolding b
    by (simp add: exampleService_def DefaultDNSService_def exampleRecord_def UpdateRecord_def
        buildRecordBody_def invoke_def exampleEnv_def convertRecordResponse_def
        SaveResource_stamped stampResource_def Let_def case_prod_beta)
  have k0: "fst ?g = Inr ''default''" by (simp add: defs)
  have k3: "CFID ?res = ''''" by (simp add: emptyResource_def)
  from k0 k1 k3 k2 show ?thesis by (intro conjI)
qed


section \<open>Ledger rows of one key during a pass of the naming operator\<close>

lemma sameKey_keyOf: "sameKey a b \<longleftrightarrow> keyOf a = keyOf b"
  by (auto simp: sameKey_def keyOf_def)

lemma keyOf_upsertRow [simp]: "keyOf (upsertRow old new) = keyOf old"
  by (simp add: keyOf_def upsertRow_def)

lemma keyOf_stampResource [simp]: "keyOf (fst (stampResource e r w)) = keyOf r"
  by (simp add: keyOf_def)

lemma kRows_map_keypres:
  "(\<And>x. keyOf (f x) = keyOf x) \<Longrightarrow> kRows K (map f L) = map f (kRows K L)"
  by (induction L) (simp_all add: kRows_def)

lemma upsertLedger_cases:
  "snd (upsertLedger r L) = map (\<lambda>x. if sameKey x r then upsertRow x r else x) L \<and>
     (\<exists>x \<in> set L. sameKey x r) \<or>
   snd (upsertLedger r L) = L \<or>
   snd (upsertLedger r L) = L @ [r] \<and> \<not> (\<exists>x \<in> set L. sameKey x r)"
  by (simp add: upsertLedger_def)

lemma kRows_upsert_length:
  assumes "length (kRows K L) = 1"
  shows "length (kRows K (snd (upsertLedger r L))) = 1"
proof -
  have kp: "keyOf (if sameKey x r then upsertRow x r else x) = keyOf x" for x by simp
  from upsertLedger_cases[of r L] show ?thesis
  proof (elim disjE conjE)
    assume "snd (upsertLedger r L) = map (\<lambda>x. if sameKey x r then upsertRow x r else x) L"
    then show ?thesis using assms kRows_map_keypres[of "\<lambda>x. if sameKey x r then upsertRow x r else x" K L, OF kp]
      by simp
  next
    assume "snd (upsertLedger r L) = L"
    then show ?thesis using assms by simp
  next
    assume a: "snd (upsertLedger r L) = L @ [r]" "\<not> (\<exists>x \<in> set L. sameKey x r)"
    from assms obtain y where "kRows K L = [y]" by (cases "kRows K L") auto
    then have "y \<in> set (kRows K L)" by simp
    then have "y \<in> set L" "keyOf y = K" by (simp_all add: kRows_def)
    with a(2) have "keyOf r \<noteq> K" by (auto simp: sameKey_keyOf)
    with a(1) assms show ?thesis by (simp add: kRows_def)
  qed
qed

lemma evolves_one:
  "evolves L L' \<Longrightarrow> length (kRows K L) = 1 \<Longrightarrow> length (kRows K L') = 1"
proof (induction rule: evolves.induct)
  case (evolves_refl L)
  then show ?case by simp
next
  case (evolves_upsert L L1 r)
  then show ?case by (simp add: kRows_upsert_length)
next
  case (evolves_touch L L1 f)
  then show ?case by (simp add: kRows_map_keypres)
qed

lemma evolves_trans: "evolves L1 L2 \<Longrightarrow> evolves L0 L1 \<Longrightarrow> evolves L0 L2"
  by (induction rule: evolves.induct) (auto intro: evolves.intros)

text \<open>The ledger after each statement, in terms of the ledger before.\<close>

lemma ledgerS_SaveResource:
  "fst (storeOf (snd (snd (SaveResource e r w)))) =
     snd (upsertLedger (fst (stampResource e r w)) (fst (storeOf w)))"
  by (simp add: SaveResource_def Let_def case_prod_beta storeOf_def)

lemma ledgerS_UpdateResourceError:
  "fst (storeOf (snd (UpdateResourceError e i s m w))) =
     map (\<lambda>x. if ID x = i then x\<lparr>Status := s, LastError := m, UpdatedAt := clock e (ticks w)\<rparr>
               else x) (fst (storeOf w))"
  by (simp add: UpdateResourceError_def Let_def case_prod_beta storeOf_def Now_def)

lemma ledgerS_UpdateResourceStatus:
  "fst (storeOf (snd (UpdateResourceStatus e i s w))) =
     map (\<lambda>x. if ID x = i then
                 (if s = StatusDeleted
                  then x\<lparr>Status := s, UpdatedAt := clock e (ticks w),
                         DeletedAt := Some (clock e (ticks w))\<rparr>
                  else x\<lparr>Status := s, UpdatedAt := clock e (ticks w)\<rparr>)
               else x) (fst (storeOf w))"
  by (simp add: UpdateResourceStatus_def Let_def case_prod_beta storeOf_def Now_def)

lemmas ledgerS = ledgerS_SaveResource ledgerS_UpdateResourceError ledgerS_UpdateResourceStatus

lemma evolves_status_touch:
  "evolves L L1 \<Longrightarrow>
   evolves L (map (\<lambda>x. if ID x = i then x\<lparr>Status := s, LastError := m, UpdatedAt := t\<rparr> else x) L1)"
  by (rule evolves_touch) (simp_all add: keyOf_def)

lemma evolves_orphan_touch:
  "evolves L L1 \<Longrightarrow>
   evolves L (map (\<lambda>x. if ID x = i then
                 (if s = StatusDeleted
                  then x\<lparr>Status := s, UpdatedAt := t, DeletedAt := Some t\<rparr>
                  else x\<lparr>Status := s, UpdatedAt := t\<rparr>)
               else x) L1)"
  by (rule evolves_touch) (simp_all add: keyOf_def)

lemmas evolves_steps = evolves_refl evolves_upsert evolves_status_touch evolves_orphan_touch

text \<open>Every function of the naming operator changes the ledger by such steps only.\<close>

lemma storeOf_resolveTarget [simp]: "storeOf (snd (resolveTarget e t c w)) = storeOf w"
  by (simp add: resolveTarget_def split: list.splits prod.splits)

lemma ev_CreateDNSRecord:
  "evolves L (fst (storeOf w)) \<Longrightarrow> evolves L (fst (storeOf (snd (CreateDNSRecord e c s w))))"
  by (simp add: CreateDNSRecord_def Let_def case_prod_beta ledgerS evolves_steps
      split: sum.splits option.splits)

lemma ev_UpdateDNSRecord:
  "evolves L (fst (storeOf w)) \<Longrightarrow>
   evolves L (fst (storeOf (snd (snd (UpdateDNSRecord e r s w)))))"
  by (simp add: UpdateDNSRecord_def Let_def case_prod_beta ledgerS evolves_steps
      split: sum.splits option.splits)

lemma ev_dnsCreateBranch:
  "evolves L (fst (storeOf w)) \<Longrightarrow> evolves L (fst (storeOf (dnsCreateBranch e d w)))"
  by (simp add: dnsCreateBranch_def Let_def case_prod_beta ledgerS evolves_steps ev_CreateDNSRecord
      split: sum.splits option.splits)

lemma ev_dnsUpdateBranch:
  "evolves L (fst (storeOf w)) \<Longrightarrow> evolves L (fst (storeOf (dnsUpdateBranch e d cur w)))"
  by (simp add: dnsUpdateBranch_def Let_def case_prod_beta ledgerS evolves_steps ev_UpdateDNSRecord
      split: sum.splits option.splits)

lemma ev_dnsReconcileLoop:
  "evolves L (fst (storeOf w)) \<Longrightarrow>
   evolves L (fst (storeOf (snd (dnsReconcileLoop e ds (cm, w)))))"
proof (induction ds arbitrary: cm w)
  case Nil
  then show ?case by simp
next
  case (Cons a ds)
  obtain key d where a: "a = (key, d)" by (cases a)
  show ?case
  proof (cases "map_of cm key")
    case None
    then show ?thesis using Cons.prems a by (simp add: Cons.IH ev_dnsCreateBranch)
  next
    case (Some cur)
    then show ?thesis using Cons.prems a by (simp add: Cons.IH ev_dnsUpdateBranch)
  qed
qed

lemma ev_markOrphaned:
  "evolves L (fst (storeOf w)) \<Longrightarrow> evolves L (fst (storeOf (markOrphaned e rs w)))"
proof (induction rs arbitrary: w)
  case Nil
  then show ?case by simp
next
  case (Cons r rs)
  show ?case using Cons.prems by (simp add: Cons.IH ledgerS evolves_steps)
qed

lemma ev_DNS_Reconcile:
  "evolves (ledger w) (ledger (snd (DNS_Reconcile e desired w)))"
proof -
  have "evolves (fst (storeOf w)) (fst (storeOf (snd (DNS_Reconcile e desired w))))"
    unfolding DNS_Reconcile_def Let_def case_prod_beta snd_conv
    by (intro ev_markOrphaned) (metis ev_dnsReconcileLoop evolves_refl)
  then show ?thesis by (simp add: storeOf_def)
qed

text \<open>Rows of a key are left alone by an upsert of another key and by an update of
  the row of another ID.\<close>

lemma kRows_upsert_other:
  assumes "keyOf r \<noteq> K"
  shows "kRows K (snd (upsertLedger r L)) = kRows K L"
proof -
  let ?f = "\<lambda>x. if sameKey x r then upsertRow x r else x"
  have kp: "keyOf (?f x) = keyOf x" for x by simp
  have "kRows K (map ?f L) = map ?f (kRows K L)" by (rule kRows_map_keypres[OF kp])
  also have "\<dots> = kRows K L"
    using assms by (intro map_idI) (auto simp: kRows_def sameKey_keyOf)
  finally have m: "kRows K (map ?f L) = kRows K L" .
  from upsertLedger_cases[of r L] show ?thesis
    using m assms by (auto simp: kRows_def)
qed

lemma kRows_touch_other:
  assumes "i \<notin> ID ` set (kRows K L)" and kp: "\<And>x. keyOf (g x) = keyOf x"
  shows "kRows K (map (\<lambda>x. if ID x = i then g x else x) L) = kRows K L"
proof -
  let ?f = "\<lambda>x. if ID x = i then g x else x"
  have "keyOf (?f x) = keyOf x" for x by (simp add: kp)
  then have "kRows K (map ?f L) = map ?f (kRows K L)" by (rule kRows_map_keypres)
  also have "\<dots> = kRows K L" using assms(1) by (intro map_idI) auto
  finally show ?thesis .
qed

lemma kRows_status_touch:
  "i \<notin> ID ` set (kRows K L) \<Longrightarrow>
   kRows K (map (\<lambda>x. if ID x = i then x\<lparr>Status := s, LastError := m, UpdatedAt := t\<rparr> else x) L) =
   kRows K L"
  by (rule kRows_touch_other) (simp_all add: keyOf_def)

lemma kRows_orphan_touch:
  "i \<notin> ID ` set (kRows K L) \<Longrightarrow>
   kRows K (map (\<lambda>x. if ID x = i then
                 (if s = StatusDeleted
                  then x\<lparr>Status := s, UpdatedAt := t, DeletedAt := Some t\<rparr>
                  else x\<lparr>Status := s, UpdatedAt := t\<rparr>)
               else x) L) = kRows K L"
  by (rule kRows_touch_other) (simp_all add: keyOf_def)

lemma upsertLedger_err: "fst (upsertLedger r L) = Some m \<Longrightarrow> snd (upsertLedger r L) = L"
  by (auto simp: upsertLedger_def split: if_splits)

lemma ledgerS_SaveResource_err:
  "fst (SaveResource e r w) = Some m \<Longrightarrow>
   fst (storeOf (snd (snd (SaveResource e r w)))) = fst (storeOf w)"
  using upsertLedger_err[of "fst (stampResource e r w)" "ledger w" m]
  by (simp add: SaveResource_err SaveResource_ledger storeOf_def)

lemma CreateDNSRecord_fail_ledger:
  "fst (CreateDNSRecord e c s w) = Inl err \<Longrightarrow>
   fst (storeOf (snd (CreateDNSRecord e c s w))) = fst (storeOf w)"
  by (auto simp: CreateDNSRecord_def Let_def case_prod_beta ledgerS_SaveResource_err
      split: sum.splits option.splits if_splits)

lemma keyOf_CreateDNSRecord:
  "fst (CreateDNSRecord e c s w) = Inr r \<Longrightarrow> keyOf r = (ResourceTypeDNS, dnsHostname s, dnsType s)"
  by (auto simp: CreateDNSRecord_def Let_def case_prod_beta SaveResource_stamped keyOf_def
      split: sum.splits option.splits if_splits)

lemma keyOf_SaveResource [simp]: "keyOf (fst (snd (SaveResource e r w))) = keyOf r"
  by (simp add: SaveResource_stamped)

lemma ID_SaveResource: "ID r \<noteq> '''' \<Longrightarrow> ID (fst (snd (SaveResource e r w))) = ID r"
  by (simp add: SaveResource_stamped stampResource_ID)

lemma keyOf_UpdateDNSRecord [simp]: "keyOf (fst (snd (UpdateDNSRecord e r s w))) = keyOf r"
  by (auto simp: UpdateDNSRecord_def Let_def case_prod_beta keyOf_def SaveResource_stamped
      split: sum.splits option.splits)

lemma ID_UpdateDNSRecord: "ID r \<noteq> '''' \<Longrightarrow> ID (fst (snd (UpdateDNSRecord e r s w))) = ID r"
  by (auto simp: UpdateDNSRecord_def Let_def case_prod_beta ID_SaveResource
      split: sum.splits option.splits)

lemma kr_CreateDNSRecord:
  "(ResourceTypeDNS, dnsHostname s, dnsType s) \<noteq> K \<Longrightarrow>
   kRows K (fst (storeOf (snd (CreateDNSRecord e c s w)))) = kRows K (fst (storeOf w))"
  by (simp add: CreateDNSRecord_def Let_def case_prod_beta ledgerS kRows_upsert_other keyOf_def
      split: sum.splits option.splits)

lemma kr_UpdateDNSRecord:
  "keyOf r \<noteq> K \<Longrightarrow>
   kRows K (fst (storeOf (snd (snd (UpdateDNSRecord e r s w))))) = kRows K (fst (storeOf w))"
  by (simp add: UpdateDNSRecord_def Let_def case_prod_beta ledgerS kRows_upsert_other keyOf_def
      split: sum.splits option.splits)

lemma kr_dnsCreateBranch:
  assumes "(ResourceTypeDNS, dnsHostname (snd d), dnsType (snd d)) \<noteq> K"
  shows "kRows K (fst (storeOf (dnsCreateBranch e d w))) = kRows K (fst (storeOf w))"
proof (cases "fst (CreateDNSRecord e (Info (fst d)) (snd d) w)")
  case (Inl err)
  then show ?thesis using assms
    by (simp add: dnsCreateBranch_def Let_def case_prod_beta ledgerS kRows_upsert_other
        kr_CreateDNSRecord keyOf_def)
next
  case (Inr r)
  from keyOf_CreateDNSRecord[OF Inr] assms have "keyOf (r\<lparr>AgentID := a\<rparr>) \<noteq> K" for a
    by (simp add: keyOf_def)
  then show ?thesis using assms Inr
    by (simp add: dnsCreateBranch_def Let_def case_prod_beta ledgerS kRows_upsert_other
        kr_CreateDNSRecord)
qed

lemma kr_dnsUpdateBranch:
  assumes k: "keyOf cur \<noteq> K" and i: "ID cur \<noteq> ''''"
    and n: "ID cur \<notin> ID ` set (kRows K (fst (storeOf w)))"
  shows "kRows K (fst (storeOf (dnsUpdateBranch e d cur w))) = kRows K (fst (storeOf w))"
proof -
  let ?a = "cur\<lparr>AgentID := pcAgentID (fst d)\<rparr>"
  have ka: "keyOf ?a \<noteq> K" using k by (simp add: keyOf_def)
  have ia: "ID ?a \<noteq> ''''" using i by simp
  let ?c1 = "fst (snd (SaveResource e ?a w))"
  have kc1: "keyOf ?c1 \<noteq> K" using ka by simp
  have ic1: "ID ?c1 = ID cur" using ID_SaveResource[OF ia, of e w] by simp
  have s1: "kRows K (fst (storeOf (snd (snd (SaveResource e ?a w))))) = kRows K (fst (storeOf w))"
    using ka by (simp add: ledgerS kRows_upsert_other)
  have u: "kRows K (fst (storeOf (snd (snd (UpdateDNSRecord e r (snd d) v))))) = kRows K (fst (storeOf v))"
    if "keyOf r \<noteq> K" for r v
    using that by (rule kr_UpdateDNSRecord)
  have iu: "ID (fst (snd (UpdateDNSRecord e r (snd d) v))) = ID cur" if "ID r = ID cur" for r v
    using ID_UpdateDNSRecord[of r e "snd d" v] that i by simp
  show ?thesis
    using k i n kc1 ic1 s1
    by (simp add: dnsUpdateBranch_def Let_def case_prod_beta ledgerS kRows_status_touch u iu
        split: option.splits)
qed

lemma set_AList_delete: "set (AList.delete k m) \<subseteq> set m"
  by (auto simp: AList.delete_eq)

lemma kr_dnsReconcileLoop:
  assumes "\<forall>(k', d') \<in> set ds. (ResourceTypeDNS, dnsHostname (snd d'), dnsType (snd d')) \<noteq> K"
    and "\<forall>(k', cur) \<in> set cm. keyOf cur \<noteq> K \<and> ID cur \<noteq> '''' \<and>
           ID cur \<notin> ID ` set (kRows K (fst (storeOf w)))"
  shows "kRows K (fst (storeOf (snd (dnsReconcileLoop e ds (cm, w))))) = kRows K (fst (storeOf w)) \<and>
         set (fst (dnsReconcileLoop e ds (cm, w))) \<subseteq> set cm"
  using assms
proof (induction ds arbitrary: cm w)
  case Nil
  then show ?case by simp
next
  case (Cons a ds)
  obtain key d where a: "a = (key, d)" by (cases a)
  from Cons.prems(1) a have d: "(ResourceTypeDNS, dnsHostname (snd d), dnsType (snd d)) \<noteq> K"
    and ds: "\<forall>(k', d') \<in> set ds. (ResourceTypeDNS, dnsHostname (snd d'), dnsType (snd d')) \<noteq> K"
    by auto
  show ?case
  proof (cases "map_of cm key")
    case None
    let ?w = "dnsCreateBranch e d w"
    have kw: "kRows K (fst (storeOf ?w)) = kRows K (fst (storeOf w))"
      by (rule kr_dnsCreateBranch[OF d])
    have "\<forall>(k', cur) \<in> set cm. keyOf cur \<noteq> K \<and> ID cur \<noteq> '''' \<and>
           ID cur \<notin> ID ` set (kRows K (fst (storeOf ?w)))"
      using Cons.prems(2) unfolding kw by simp
    from Cons.IH[OF ds this] show ?thesis using None a kw by simp
  next
    case (Some cur)
    then have m: "(key, cur) \<in> set cm" by (rule map_of_SomeD)
    with Cons.prems(2) have c: "keyOf cur \<noteq> K" "ID cur \<noteq> ''''"
      "ID cur \<notin> ID ` set (kRows K (fst (storeOf w)))" by auto
    let ?w = "dnsUpdateBranch e d cur w"
    have kw: "kRows K (fst (storeOf ?w)) = kRows K (fst (storeOf w))"
      by (rule kr_dnsUpdateBranch[OF c])
    have "\<forall>(k', cur) \<in> set (AList.delete key cm). keyOf cur \<noteq> K \<and> ID cur \<noteq> '''' \<and>
           ID cur \<notin> ID ` set (kRows K (fst (storeOf ?w)))"
      using Cons.prems(2) set_AList_delete[of key cm] unfolding kw by auto
    from Cons.IH[OF ds this] show ?thesis using Some a kw set_AList_delete[of key cm] by auto
  qed
qed

lemma kr_markOrphaned:
  "\<forall>r \<in> set rs. ID r \<notin> ID ` set (kRows K (fst (storeOf w))) \<Longrightarrow>
   kRows K (fst (storeOf (markOrphaned e rs w))) = kRows K (fst (storeOf w))"
proof (induction rs arbitrary: w)
  case Nil
  then show ?case by simp
next
  case (Cons r rs)
  let ?w = "snd (UpdateResourceStatus e (ID r) StatusOrphaned w)"
  have kw: "kRows K (fst (storeOf ?w)) = kRows K (fst (storeOf w))"
    using Cons.prems by (simp add: ledgerS kRows_orphan_touch)
  have "\<forall>r \<in> set rs. ID r \<notin> ID ` set (kRows K (fst (storeOf ?w)))"
    using Cons.prems unfolding kw by simp
  from Cons.IH[OF this] Cons.IH[of w] Cons.prems kw show ?case by simp
qed

lemma set_rangeMap: "set (rangeMap ord m) \<subseteq> set m"
  by (auto simp: rangeMap_def List.map_filter_def dest: map_of_SomeD)

text \<open>The ledger rows a pass lists are found again in its map of current rows.\<close>

lemma currentDNSMap_keys:
  "dom (map_of (currentDNSMap rs m)) =
     dom (map_of m) \<union> (\<lambda>r. dnsKey (Hostname r) (RecordType r)) ` set rs"
  by (induction rs arbitrary: m) (auto simp: AList.update_conv')

lemma currentDNSMap_listed:
  assumes "x \<in> set (ledger v)" "ResourceType x = ResourceTypeDNS"
    "Status x \<in> {StatusActive, StatusError, StatusOrphaned}"
  shows "map_of (currentDNSMap (ListResources ResourceTypeDNS
                   [StatusActive, StatusError, StatusOrphaned] v) [])
           (dnsKey (Hostname x) (RecordType x)) \<noteq> None"
proof -
  have "x \<in> set (ListResources ResourceTypeDNS [StatusActive, StatusError, StatusOrphaned] v)"
    using assms by (auto simp: ListResources_def)
  then have "dnsKey (Hostname x) (RecordType x) \<in>
      dom (map_of (currentDNSMap (ListResources ResourceTypeDNS
                   [StatusActive, StatusError, StatusOrphaned] v) []))"
    unfolding currentDNSMap_keys by blast
  then show ?thesis by (simp add: domIff)
qed

text \<open>Claim C7.  Let the loop of \<open>Reconcile\<close> reach a desired naming entry whose key
  is not in the map of current rows, let no ledger row carry its (kind, hostname,
  record type), and let \<open>CreateDNSRecord\<close> fail with some error.  Let the UUID drawn
  for the error row be new, and let the other desired entries and the current rows
  of the pass be for other (hostname, record type) pairs, the current rows having
  non-empty IDs.  Then the loop goes on with the remaining entries; saving the
  error row sends no request; and at the end of the pass, after the remaining
  entries and the marking of orphans, the ledger holds exactly one row for the
  key, which has status error and the failure message as last error.  In any
  later pass, over any desired set, that starts from a ledger with exactly one
  listed row for the key, the key is found in the map of current rows, so that an
  entry with this key takes the update branch of the loop; the pass returns no
  error and the ledger still holds exactly one row for the key.\<close>

theorem dns_create_failure_recorded_once:
  assumes absent: "map_of currentMap (dnsKey (dnsHostname service) (dnsType service)) = None"
    and fail: "CreateDNSRecord e (Info container) service w = (Inl err, w1)"
    and norow: "kRows (ResourceTypeDNS, dnsHostname service, dnsType service) (ledger w) = []"
    and fresh: "uuids e (uuidsUsed w1) \<notin> ID ` set (ledger w) \<union> ID ` snd ` set currentMap"
    and others: "\<forall>(k', d') \<in> set rest.
                   (dnsHostname (snd d'), dnsType (snd d')) \<noteq> (dnsHostname service, dnsType service)"
    and currents: "\<forall>(k', cur) \<in> set currentMap.
                   (Hostname cur, RecordType cur) \<noteq> (dnsHostname service, dnsType service) \<and>
                   ID cur \<noteq> ''''"
  shows
   "dnsReconcileLoop e ((dnsKey (dnsHostname service) (dnsType service), (container, service)) # rest)
      (currentMap, w) =
      dnsReconcileLoop e rest (currentMap, dnsCreateBranch e (container, service) w) \<and>
    netOf (dnsCreateBranch e (container, service) w) = netOf w1 \<and>
    kRows (ResourceTypeDNS, dnsHostname service, dnsType service)
      (ledger
         (markOrphaned e
            (map snd (rangeMap (rangeOrder e)
               (fst (dnsReconcileLoop e
                       ((dnsKey (dnsHostname service) (dnsType service), (container, service)) # rest)
                       (currentMap, w)))))
            (snd (dnsReconcileLoop e
                    ((dnsKey (dnsHostname service) (dnsType service), (container, service)) # rest)
                    (currentMap, w))))) =
      [emptyResource
         \<lparr>ResourceType := ResourceTypeDNS, Hostname := dnsHostname service,
          RecordType := dnsType service, Content := dnsTarget service,
          Proxied := dnsProxied service, TTL := dnsTTL service,
          ContainerID := ciID (Info container), ContainerName := ciName (Info container),
          ServiceName := dnsServiceName service, AgentID := pcAgentID container,
          Status := StatusError, LastError := err, CleanupEnabled := dnsCleanup service,
          ID := uuids e (uuidsUsed w1), CreatedAt := clock e (ticks w1),
          UpdatedAt := clock e (Suc (ticks w1))\<rparr>] \<and>
    (\<forall>v ds x.
       kRows (ResourceTypeDNS, dnsHostname service, dnsType service) (ledger v) = [x] \<and>
       Status x \<in> {StatusActive, StatusError, StatusOrphaned} \<longrightarrow>
         map_of (currentDNSMap (ListResources ResourceTypeDNS
                    [StatusActive, StatusError, StatusOrphaned] v) [])
           (dnsKey (dnsHostname service) (dnsType service)) \<noteq> None \<and>
         fst (DNS_Reconcile e ds v) = None \<and>
         length (kRows (ResourceTypeDNS, dnsHostname service, dnsType service)
                   (ledger (snd (DNS_Reconcile e ds v)))) = 1) \<and>
    (\<forall>cm current rest' v.
       map_of cm (dnsKey (dnsHostname service) (dnsType service)) = Some current \<longrightarrow>
         dnsReconcileLoop e
           ((dnsKey (dnsHostname service) (dnsType service), (container, service)) # rest') (cm, v) =
         dnsReconcileLoop e rest'
           (AList.delete (dnsKey (dnsHostname service) (dnsType service)) cm,
            dnsUpdateBranch e (container, service) current v))"
proof -
  let ?K = "(ResourceTypeDNS, dnsHostname service, dnsType service)"
  let ?key = "dnsKey (dnsHostname service) (dnsType service)"
  let ?d = "(container, service)"
  let ?errRes = "emptyResource
         \<lparr>ResourceType := ResourceTypeDNS, Hostname := dnsHostname service,
          RecordType := dnsType service, Content := dnsTarget service,
          Proxied := dnsProxied service, TTL := dnsTTL service,
          ContainerID := ciID (Info container), ContainerName := ciName (Info container),
          ServiceName := dnsServiceName service, AgentID := pcAgentID container,
          Status := StatusError, LastError := err, CleanupEnabled := dnsCleanup service\<rparr>"
  let ?row = "?errRes\<lparr>ID := uuids e (uuidsUsed w1), CreatedAt := clock e (ticks w1),
                      UpdatedAt := clock e (Suc (ticks w1))\<rparr>"
  let ?w2 = "dnsCreateBranch e ?d w"
  have step: "dnsReconcileLoop e ((?key, ?d) # rest) (currentMap, w) =
              dnsReconcileLoop e rest (currentMap, ?w2)"
    using absent by simp
  have br: "?w2 = snd (snd (SaveResource e ?errRes w1))"
    using fail by (simp add: dnsCreateBranch_def Let_def case_prod_beta)
  have net: "netOf ?w2 = netOf w1" unfolding br by simp
  have l1: "ledger w1 = ledger w"
    using CreateDNSRecord_fail_ledger[of e "Info container" service w err] fail
    by (simp add: storeOf_def)
  have st: "fst (stampResource e ?errRes w1) = ?row"
    by (simp add: stampResource_def Let_def case_prod_beta uuidNew_def Now_def emptyResource_def)
  have kr: "keyOf ?row = ?K" by (simp add: keyOf_def)
  have nokey: "\<not> (\<exists>x \<in> set (ledger w). sameKey x ?row)"
  proof
    assume "\<exists>x \<in> set (ledger w). sameKey x ?row"
    then obtain x where "x \<in> set (ledger w)" "keyOf x = ?K"
      unfolding sameKey_keyOf kr by blast
    then have "x \<in> set (kRows ?K (ledger w))" by (simp add: kRows_def)
    with norow show False by simp
  qed
  have noid: "\<not> (\<exists>x \<in> set (ledger w). ID x = ID ?row)"
    using fresh by (auto simp: image_iff)
  have up: "snd (upsertLedger ?row (ledger w)) = ledger w @ [?row]"
    using nokey noid unfolding upsertLedger_def by (simp only: if_False snd_conv)
  have lw2: "ledger ?w2 = ledger w @ [?row]"
    unfolding br SaveResource_ledger st l1 up ..
  have k2: "kRows ?K (ledger ?w2) = [?row]"
    unfolding lw2 using norow kr by (simp add: kRows_def)
  have k2s: "kRows ?K (fst (storeOf ?w2)) = [?row]"
    using k2 by (simp add: storeOf_def)
  have o: "\<forall>(k', d') \<in> set rest. (ResourceTypeDNS, dnsHostname (snd d'), dnsType (snd d')) \<noteq> ?K"
    using others by auto
  have c: "\<forall>(k', cur) \<in> set currentMap.
             keyOf cur \<noteq> ?K \<and> ID cur \<noteq> '''' \<and> ID cur \<notin> ID ` set (kRows ?K (fst (storeOf ?w2)))"
    unfolding k2s using currents fresh by (auto simp: keyOf_def image_iff)
  let ?loop = "dnsReconcileLoop e rest (currentMap, ?w2)"
  from kr_dnsReconcileLoop[OF o c, of e]
  have kl: "kRows ?K (fst (storeOf (snd ?loop))) = [?row]" and sub: "set (fst ?loop) \<subseteq> set currentMap"
    unfolding k2s by simp_all
  have m: "\<forall>r \<in> set (map snd (rangeMap (rangeOrder e) (fst ?loop))).
             ID r \<notin> ID ` set (kRows ?K (fst (storeOf (snd ?loop))))"
  proof
    fix r assume "r \<in> set (map snd (rangeMap (rangeOrder e) (fst ?loop)))"
    then obtain k where "(k, r) \<in> set (rangeMap (rangeOrder e) (fst ?loop))" by auto
    with set_rangeMap[of "rangeOrder e" "fst ?loop"] sub have "(k, r) \<in> set currentMap" by blast
    with fresh have "ID r \<noteq> uuids e (uuidsUsed w1)" by force
    then show "ID r \<notin> ID ` set (kRows ?K (fst (storeOf (snd ?loop))))"
      unfolding kl by simp
  qed
  have fin: "kRows ?K (ledger (markOrphaned e (map snd (rangeMap (rangeOrder e) (fst ?loop))) (snd ?loop))) = [?row]"
    using kr_markOrphaned[OF m, of e] kl by (simp add: storeOf_def)
  have second: "map_of (currentDNSMap (ListResources ResourceTypeDNS
                    [StatusActive, StatusError, StatusOrphaned] v) []) ?key \<noteq> None \<and>
         fst (DNS_Reconcile e ds v) = None \<and>
         length (kRows ?K (ledger (snd (DNS_Reconcile e ds v)))) = 1"
    if h: "kRows ?K (ledger v) = [x] \<and> Status x \<in> {StatusActive, StatusError, StatusOrphaned}"
    for v ds x
  proof -
    from h have "x \<in> set (kRows ?K (ledger v))" by simp
    then have x: "x \<in> set (ledger v)" "keyOf x = ?K" by (simp_all add: kRows_def)
    then have xf: "ResourceType x = ResourceTypeDNS" "Hostname x = dnsHostname service"
      "RecordType x = dnsType service" by (simp_all add: keyOf_def)
    from currentDNSMap_listed[OF x(1) xf(1)] h xf
    have a: "map_of (currentDNSMap (ListResources ResourceTypeDNS
                    [StatusActive, StatusError, StatusOrphaned] v) []) ?key \<noteq> None" by simp
    have b: "fst (DNS_Reconcile e ds v) = None"
      by (simp add: DNS_Reconcile_def Let_def case_prod_beta)
    from h have "length (kRows ?K (ledger v)) = 1" by simp
    from evolves_one[OF ev_DNS_Reconcile this]
    have "length (kRows ?K (ledger (snd (DNS_Reconcile e ds v)))) = 1" .
    with a b show ?thesis by simp
  qed
  have upd: "dnsReconcileLoop e ((?key, ?d) # rest') (cm, v) =
         dnsReconcileLoop e rest' (AList.delete ?key cm, dnsUpdateBranch e ?d current v)"
    if "map_of cm ?key = Some current" for cm current rest' v
    using that by simp
  show ?thesis
    unfolding step
    using net fin second upd by (intro conjI allI impI refl) blast+
qed

theorem dns_create_failure_recorded_once_witness:
  "fst (CreateDNSRecord (exampleEnv rejectAll) exampleContainer exampleService
          (exampleWorld [exampleOldRow] ())) = Inl ''failed to list zones: token expired'' \<and>
   kRows (ResourceTypeDNS, ''app.example.com'', ''A'') [exampleOldRow] = [] \<and>
   map (\<lambda>x. (ID x, Hostname x, RecordType x, Status x, LastError x))
     (kRows (ResourceTypeDNS, ''app.example.com'', ''A'')
        (ledger (snd (DNS_Reconcile (exampleEnv rejectAll) [exampleParsed]
                        (exampleWorld [exampleOldRow] ()))))) =
     [(''u'', ''app.example.com'', ''A'', ''error'', ''failed to list zones: token expired'')] \<and>
   length (kRows (ResourceTypeDNS, ''app.example.com'', ''A'')
             (ledger (snd (DNS_Reconcile (exampleEnv rejectAll) [exampleParsed]
                (snd (DNS_Reconcile (exampleEnv rejectAll) [exampleParsed]
                        (exampleWorld [exampleOldRow] ()))))))) = 1"
proof -
  let ?e = "exampleEnv rejectAll"
  let ?w = "exampleWorld [exampleOldRow] () :: unit world"
  let ?K = "(ResourceTypeDNS, dnsHostname exampleService, dnsType exampleService)"
  let ?key = "dnsKey (dnsHostname exampleService) (dnsType exampleService)"
  let ?cm = "[(''old.example.com:A'', exampleOldRow)]"
  let ?c = "CreateDNSRecord ?e (Info exampleParsed) exampleService ?w"
  let ?err = "''failed to list zones: token expired''"
  note defs = prod_eq_iff GetClientForHostname_def GetCredentialForZone_def GetClient_def
    setClient_def exampleEnv_def exampleManager_def exampleWorld_def exampleService_def
    DefaultDNSService_def exampleContainer_def exampleParsed_def rejectAll_def
    clientGetZoneID_def clientOf_def NewClient_def invoke_def resolveTarget_def
    GetZoneID_def loadZones_def Let_def CreateDNSRecord_def
  have hs: "dnsHostname exampleService = ''app.example.com''" "dnsType exampleService = ''A''"
    by (simp_all add: exampleService_def DefaultDNSService_def)
  have absent: "map_of ?cm ?key = None"
    by (simp add: dnsKey_def hs)
  have fail: "?c = (Inl ?err, snd ?c)"
    by (simp add: defs)
  have norow: "kRows ?K (ledger ?w) = []"
    by (simp add: kRows_def keyOf_def exampleWorld_def exampleOldRow_def emptyResource_def hs)
  have u0: "uuidsUsed (snd ?c) = 0" "ticks (snd ?c) = 0"
    by (simp_all add: defs)
  have fresh: "uuids ?e (uuidsUsed (snd ?c)) \<notin> ID ` set (ledger ?w) \<union> ID ` snd ` set ?cm"
    unfolding u0 by (simp add: exampleEnv_def exampleWorld_def exampleOldRow_def)
  have others: "\<forall>(k', d') \<in> set ([] :: (string \<times> ParsedContainer \<times> DNSService) list).
                   (dnsHostname (snd d'), dnsType (snd d')) \<noteq>
                   (dnsHostname exampleService, dnsType exampleService)"
    by simp
  have currents: "\<forall>(k', cur) \<in> set ?cm.
                   (Hostname cur, RecordType cur) \<noteq> (dnsHostname exampleService, dnsType exampleService) \<and>
                   ID cur \<noteq> ''''"
    by (simp add: exampleOldRow_def hs)
  note th = dns_create_failure_recorded_once[OF absent fail norow fresh others currents]
  have pass: "snd (DNS_Reconcile ?e [exampleParsed] ?w) =
      markOrphaned ?e
        (map snd (rangeMap (rangeOrder ?e)
           (fst (dnsReconcileLoop ?e [(?key, (exampleParsed, exampleService))] (?cm, ?w)))))
        (snd (dnsReconcileLoop ?e [(?key, (exampleParsed, exampleService))] (?cm, ?w)))"
    by (simp add: DNS_Reconcile_def Let_def case_prod_beta ListResources_def
        exampleWorld_def exampleOldRow_def emptyResource_def exampleParsed_def
        ResourceTypeDNS_def StatusActive_def StatusError_def StatusOrphaned_def
        rangeMap_def rangeKeys_def List.map_filter_def exampleEnv_def dnsKey_def hs)
  note fin = th[THEN conjunct2, THEN conjunct2, THEN conjunct1, folded pass]
  have k1: "fst (CreateDNSRecord ?e exampleContainer exampleService ?w) = Inl ?err"
    by (simp add: defs)
  have k0: "kRows (ResourceTypeDNS, ''app.example.com'', ''A'') [exampleOldRow] = []"
    using norow by (simp add: hs exampleWorld_def)
  have k2: "map (\<lambda>x. (ID x, Hostname x, RecordType x, Status x, LastError x))
     (kRows (ResourceTypeDNS, ''app.example.com'', ''A'')
        (ledger (snd (DNS_Reconcile ?e [exampleParsed] ?w)))) =
     [(''u'', ''app.example.com'', ''A'', ''error'', ?err)]"
    using fin unfolding u0
    by (simp add: hs exampleEnv_def StatusError_def)
  note second = th[THEN conjunct2, THEN conjunct2, THEN conjunct2, THEN conjunct1, THEN spec,
      THEN spec, THEN spec, THEN mp, THEN conjunct2, THEN conjunct2]
  have k3: "length (kRows (ResourceTypeDNS, ''app.example.com'', ''A'')
             (ledger (snd (DNS_Reconcile ?e [exampleParsed]
                (snd (DNS_Reconcile ?e [exampleParsed] ?w)))))) = 1"
    using second[of "snd (DNS_Reconcile ?e [exampleParsed] ?w)" _ "[exampleParsed]"] fin
    by (simp add: hs StatusError_def StatusActive_def StatusOrphaned_def)
  from k1 k0 k2 k3 show ?thesis by (intro conjI)
qed


section \<open>Conflicts in the access operator\<close>

lemma calls_setClient [simp]: "calls (setClient ref c w) = calls w"
  by (simp add: setClient_def)

lemma calls_GetClient [simp]: "calls (snd (GetClient cred w)) = calls w"
  by (simp add: GetClient_def split: option.splits)

lemma calls_GetTunnelClient [simp]: "calls (snd (GetTunnelClient cm n w)) = calls w"
  by (simp add: GetTunnelClient_def SetAccountID_def Let_def case_prod_beta
      split: sum.splits option.splits list.splits)

lemma calls_invoke: "calls (snd (invoke e c w)) = calls w @ [c]"
  by (simp add: invoke_def case_prod_beta)

lemma findAppByDomain_find:
  "find (\<lambda>a. aaDomain a = hostname) apps = Some app \<Longrightarrow>
   findAppByDomain apps hostname = (aaID app, aaName app)"
  by (induction apps) (auto split: if_splits)

text \<open>A range over a map visits each key once.\<close>

lemma rangeMap_Nil [simp]: "rangeMap ord [] = []"
  by (simp add: rangeMap_def rangeKeys_def List.map_filter_def)

lemma rangeKeys_distinct: "distinct (rangeKeys ord ks)"
  by (auto simp: rangeKeys_def Let_def)

lemma rangeMap_fst: "map fst (rangeMap ord m) = filter (\<lambda>k. map_of m k \<noteq> None) (rangeKeys ord (map fst m))"
proof -
  have "map fst (List.map_filter (\<lambda>k. map_option (Pair k) (map_of m k)) ks) =
        filter (\<lambda>k. map_of m k \<noteq> None) ks" for ks
    by (induction ks) (auto simp: List.map_filter_def)
  then show ?thesis by (simp add: rangeMap_def)
qed

lemma rangeMap_distinct: "distinct (map fst (rangeMap ord m))"
  unfolding rangeMap_fst by (intro distinct_filter rangeKeys_distinct)

text \<open>The loop of \<open>ReconcileBindings\<close> over a list of entries is the loop over its
  first part followed by the loop over the rest.\<close>

lemma accessReconcileLoop_append:
  "accessReconcileLoop e (pre @ post) s = accessReconcileLoop e post (accessReconcileLoop e pre s)"
proof (induction pre arbitrary: s)
  case Nil
  show ?case by simp
next
  case (Cons a pre)
  obtain h b where a: "a = (h, b)" by (cases a)
  obtain cm w where s: "s = (cm, w)" by (cases s)
  show ?case unfolding a s by (simp add: Cons.IH split: option.splits)
qed

text \<open>The keys of the two maps of \<open>ReconcileBindings\<close> are the hostnames of their
  entries.\<close>

lemma set_AList_update: "set (AList.update k v al) \<subseteq> insert (k, v) (set al)"
  by (induction al) auto

lemma desiredAccessMap_keys:
  "(k, b) \<in> set (desiredAccessMap bs m) \<Longrightarrow> (k, b) \<in> set m \<or> k = bHostname b"
proof (induction bs arbitrary: m)
  case Nil
  then show ?case by simp
next
  case (Cons a bs)
  from Cons.IH[of "AList.update (bHostname a) a m"] Cons.prems
  have "(k, b) \<in> set (AList.update (bHostname a) a m) \<or> k = bHostname b" by simp
  with set_AList_update[of "bHostname a" a m] show ?case by auto
qed

lemma currentAccessMap_entries:
  "(k, x) \<in> set (currentAccessMap rs m) \<Longrightarrow> (k, x) \<in> set m \<or> x \<in> set rs \<and> k = Hostname x"
proof (induction rs arbitrary: m)
  case Nil
  then show ?case by simp
next
  case (Cons r rs)
  from Cons.IH[of "AList.update (Hostname r) r m"] Cons.prems
  have "(k, x) \<in> set (AList.update (Hostname r) r m) \<or> x \<in> set rs \<and> k = Hostname x" by simp
  with set_AList_update[of "Hostname r" r m] show ?case by auto
qed

text \<open>Rows of a key are left alone by the branches of the loop that work on
  another hostname.\<close>

lemma kr_EnsureAccess:
  "(ResourceTypeAccessApp, bHostname b, '''') \<noteq> K \<Longrightarrow>
   kRows K (fst (storeOf (snd (EnsureAccess e b w)))) = kRows K (fst (storeOf w))"
  by (simp add: EnsureAccess_def Let_def case_prod_beta ledgerS kRows_upsert_other keyOf_def
      emptyResource_def split: sum.splits option.splits)

lemma kr_accessCreateBranch:
  assumes "(ResourceTypeAccessApp, h, '''') \<noteq> K" and "(ResourceTypeAccessApp, bHostname b, '''') \<noteq> K"
  shows "kRows K (fst (storeOf (accessCreateBranch e h b w))) = kRows K (fst (storeOf w))"
proof (cases "fst (EnsureAccess e b w)")
  case (Inl err)
  then show ?thesis using assms
    by (simp add: accessCreateBranch_def Let_def case_prod_beta ledgerS kRows_upsert_other
        kr_EnsureAccess keyOf_def emptyResource_def)
next
  case (Inr r)
  then show ?thesis using assms
    by (simp add: accessCreateBranch_def Let_def case_prod_beta kr_EnsureAccess)
qed

lemma keyOf_updateAccess [simp]: "keyOf (fst (snd (updateAccess e cur b w))) = keyOf cur"
  by (auto simp: updateAccess_def Let_def case_prod_beta keyOf_def SaveResource_stamped
      split: sum.splits option.splits)

lemma ID_updateAccess: "ID cur \<noteq> '''' \<Longrightarrow> ID (fst (snd (updateAccess e cur b w))) = ID cur"
  by (auto simp: updateAccess_def Let_def case_prod_beta SaveResource_stamped stampResource_ID
      split: sum.splits option.splits)

lemma kr_updateAccess:
  "keyOf cur \<noteq> K \<Longrightarrow>
   kRows K (fst (storeOf (snd (snd (updateAccess e cur b w))))) = kRows K (fst (storeOf w))"
  by (simp add: updateAccess_def Let_def case_prod_beta ledgerS kRows_upsert_other keyOf_def
      split: sum.splits option.splits)

lemma kr_accessUpdateBranch:
  assumes k: "keyOf cur \<noteq> K" and i: "ID cur \<noteq> ''''"
    and n: "ID cur \<notin> ID ` set (kRows K (fst (storeOf w)))"
  shows "kRows K (fst (storeOf (accessUpdateBranch e b cur w))) = kRows K (fst (storeOf w))"
proof -
  let ?u = "updateAccess e cur b w"
  have s: "kRows K (fst (storeOf (snd (snd ?u)))) = kRows K (fst (storeOf w))"
    by (rule kr_updateAccess[OF k])
  have iu: "ID (fst (snd ?u)) = ID cur" by (rule ID_updateAccess[OF i])
  have n': "ID cur \<notin> ID ` set (kRows K (fst (storeOf (snd (snd ?u)))))"
    unfolding s by (rule n)
  show ?thesis
    using n'
    by (simp add: accessUpdateBranch_def case_prod_beta ledgerS kRows_status_touch iu s
        split: option.splits)
qed

lemma kr_accessReconcileLoop:
  assumes "\<forall>(h, b) \<in> set ds. (ResourceTypeAccessApp, h, '''') \<noteq> K \<and>
                              (ResourceTypeAccessApp, bHostname b, '''') \<noteq> K"
    and "\<forall>(k', cur) \<in> set cm. keyOf cur \<noteq> K \<and> ID cur \<noteq> '''' \<and>
           ID cur \<notin> ID ` set (kRows K (fst (storeOf w)))"
  shows "kRows K (fst (storeOf (snd (accessReconcileLoop e ds (cm, w))))) = kRows K (fst (storeOf w)) \<and>
         set (fst (accessReconcileLoop e ds (cm, w))) \<subseteq> set cm"
  using assms
proof (induction ds arbitrary: cm w)
  case Nil
  then show ?case by simp
next
  case (Cons a ds)
  obtain h b where a: "a = (h, b)" by (cases a)
  from Cons.prems(1) a have d: "(ResourceTypeAccessApp, h, '''') \<noteq> K"
      "(ResourceTypeAccessApp, bHostname b, '''') \<noteq> K"
    and ds: "\<forall>(h, b) \<in> set ds. (ResourceTypeAccessApp, h, '''') \<noteq> K \<and>
                              (ResourceTypeAccessApp, bHostname b, '''') \<noteq> K"
    by auto
  show ?case
  proof (cases "map_of cm h")
    case None
    let ?w = "accessCreateBranch e h b w"
    have kw: "kRows K (fst (storeOf ?w)) = kRows K (fst (storeOf w))"
      by (rule kr_accessCreateBranch[OF d])
    have "\<forall>(k', cur) \<in> set cm. keyOf cur \<noteq> K \<and> ID cur \<noteq> '''' \<and>
           ID cur \<notin> ID ` set (kRows K (fst (storeOf ?w)))"
      using Cons.prems(2) unfolding kw by simp
    from Cons.IH[OF ds this] show ?thesis using None a kw by simp
  next
    case (Some cur)
    then have m: "(h, cur) \<in> set cm" by (rule map_of_SomeD)
    with Cons.prems(2) have c: "keyOf cur \<noteq> K" "ID cur \<noteq> ''''"
      "ID cur \<notin> ID ` set (kRows K (fst (storeOf w)))" by auto
    let ?w = "accessUpdateBranch e b cur w"
    have kw: "kRows K (fst (storeOf ?w)) = kRows K (fst (storeOf w))"
      by (rule kr_accessUpdateBranch[OF c])
    have "\<forall>(k', cur) \<in> set (AList.delete h cm). keyOf cur \<noteq> K \<and> ID cur \<noteq> '''' \<and>
           ID cur \<notin> ID ` set (kRows K (fst (storeOf ?w)))"
      using Cons.prems(2) set_AList_delete[of h cm] unfolding kw by auto
    from Cons.IH[OF ds this] show ?thesis using Some a kw set_AList_delete[of h cm] by auto
  qed
qed

text \<open>Claim C5, as stated, when the listing of the remote applications fails: the
  remote system holds an application for \<open>admin.example.com\<close> and refuses to list
  its applications; the ledger is empty.  The pass over the binding for that
  hostname does not fail with a conflict error: \<open>EnsureAccess\<close> goes on after the
  failed probe, creates a policy and a second application for the hostname, and
  the ledger row of the hostname is saved as active, without an error message.\<close>

theorem access_conflict_unlisted_counterexample:
  "aaDomain exampleApp = bHostname exampleBinding \<and>
   remote (exampleWorld [] [exampleApp]) = [exampleApp] \<and>
   ledger (exampleWorld [] [exampleApp]) = [] \<and>
   (case fst (EnsureAccess (exampleEnv unlistableRemote) exampleBinding
                (exampleWorld [] [exampleApp])) of
      Inl err \<Rightarrow> False
    | Inr row \<Rightarrow> Status row = ''active'' \<and> AccessAppID row = ''app10'') \<and>
   filter isMutating
     (calls (snd (ReconcileBindings (exampleEnv unlistableRemote) [exampleBinding]
                    (exampleWorld [] [exampleApp])))) =
     [AccessPolicyNew ''tok'' ''acct1''
        \<lparr>polDecision = ''allow'', polName = '''', polInclude = [], polRequire = [],
         polExclude = []\<rparr> ''labelgate-allow-0'',
      AccessAppNew ''tok'' ''acct1'' ''admin.example.com'' ''labelgate-internal'' ''24h''
        [(''pol1'', 1)]] \<and>
   map (\<lambda>x. (ResourceType x, Hostname x, Status x, LastError x, AccessAppID x))
     (ledger (snd (ReconcileBindings (exampleEnv unlistableRemote) [exampleBinding]
                     (exampleWorld [] [exampleApp])))) =
     [(''access_app'', ''admin.example.com'', ''active'', '''', ''app10'')] \<and>
   remote (snd (ReconcileBindings (exampleEnv unlistableRemote) [exampleBinding]
                  (exampleWorld [] [exampleApp]))) =
     [exampleApp,
      \<lparr>aaID = ''app10'', aaName = ''labelgate-internal'', aaDomain = ''admin.example.com''\<rparr>]"
proof -
  let ?e = "exampleEnv unlistableRemote"
  let ?w = "exampleWorld [] [exampleApp]"
  note defs = GetTunnelClient_def GetTunnelCredential_def GetClient_def SetAccountID_def
    setClient_def clientOf_def NewClient_def exampleEnv_def exampleManager_def exampleWorld_def
    exampleBinding_def exampleApp_def invoke_def Let_def NewAccessClient_def
    FindExistingAccessApp_def EnsureAccessForHostname_def createReusablePolicy_def
    createApplication_def DefaultAccessPolicyDef_def SaveResource_def stampResource_def
    uuidNew_def Now_def upsertLedger_def emptyResource_def sameKey_def
    ResourceTypeAccessApp_def StatusActive_def StatusError_def StatusOrphaned_def
  have it: "itoa 0 = ''0''" by (simp add: itoa.simps digitChar_def char_of_def bit_Suc_0_iff)
  have ea: "EnsureAccess ?e exampleBinding ?w =
     (Inr (emptyResource
             \<lparr>ResourceType := ''access_app'', Hostname := ''admin.example.com'', CFID := ''app10'',
              AccessAppID := ''app10'', AccountID := ''acct1'', ContainerID := ''c1'',
              ContainerName := ''web'', ServiceName := ''web'', AgentID := '''',
              Status := ''active'', CleanupEnabled := True, ID := ''u'', CreatedAt := 1000,
              UpdatedAt := 1001\<rparr>),
      \<lparr>ledger = [emptyResource
             \<lparr>ResourceType := ''access_app'', Hostname := ''admin.example.com'', CFID := ''app10'',
              AccessAppID := ''app10'', AccountID := ''acct1'', ContainerID := ''c1'',
              ContainerName := ''web'', ServiceName := ''web'', AgentID := '''',
              Status := ''active'', CleanupEnabled := True, ID := ''u'', CreatedAt := 1000,
              UpdatedAt := 1001\<rparr>],
       ticks = 2, uuidsUsed = 1,
       clients = [(''default'', \<lparr>apiToken = ''tok'', accountID = ''acct1'', zoneCache = Map.empty,
                                 zonesLoaded = False\<rparr>)],
       remote = [exampleApp,
                 \<lparr>aaID = ''app10'', aaName = ''labelgate-internal'',
                  aaDomain = ''admin.example.com''\<rparr>],
       calls = [AccessAppsList ''tok'' ''acct1'',
                AccessPolicyNew ''tok'' ''acct1''
                  \<lparr>polDecision = ''allow'', polName = '''', polInclude = [], polRequire = [],
                   polExclude = []\<rparr> ''labelgate-allow-0'',
                AccessAppNew ''tok'' ''acct1'' ''admin.example.com'' ''labelgate-internal''
                  ''24h'' [(''pol1'', 1)]]\<rparr>)"
    by (simp add: EnsureAccess_def defs it)
  have dm: "rangeMap (rangeOrder ?e) (desiredAccessMap [exampleBinding] []) =
              [(''admin.example.com'', exampleBinding)]"
    by (simp add: rangeMap_def rangeKeys_def List.map_filter_def exampleEnv_def exampleBinding_def)
  have cm: "currentAccessMap
              (ListResources ResourceTypeAccessApp [StatusActive, StatusError, StatusOrphaned] ?w)
              [] = []"
    by (simp add: ListResources_def exampleWorld_def)
  have cb: "accessCreateBranch ?e ''admin.example.com'' exampleBinding ?w =
            snd (EnsureAccess ?e exampleBinding ?w)"
    unfolding accessCreateBranch_def ea by simp
  have rb: "snd (ReconcileBindings ?e [exampleBinding] ?w) = snd (EnsureAccess ?e exampleBinding ?w)"
    unfolding ReconcileBindings_def Let_def case_prod_beta snd_conv dm cm
    by (simp add: cb)
  have k0: "aaDomain exampleApp = bHostname exampleBinding"
    by (simp add: exampleApp_def exampleBinding_def)
  have k1: "remote ?w = [exampleApp]" by (simp add: exampleWorld_def)
  have k2: "ledger ?w = []" by (simp add: exampleWorld_def)
  have k3: "(case fst (EnsureAccess ?e exampleBinding ?w) of
      Inl err \<Rightarrow> False
    | Inr row \<Rightarrow> Status row = ''active'' \<and> AccessAppID row = ''app10'')"
    unfolding ea by (simp add: emptyResource_def)
  have k4: "filter isMutating (calls (snd (ReconcileBindings ?e [exampleBinding] ?w))) =
     [AccessPolicyNew ''tok'' ''acct1''
        \<lparr>polDecision = ''allow'', polName = '''', polInclude = [], polRequire = [],
         polExclude = []\<rparr> ''labelgate-allow-0'',
      AccessAppNew ''tok'' ''acct1'' ''admin.example.com'' ''labelgate-internal'' ''24h''
        [(''pol1'', 1)]]"
    unfolding rb ea by simp
  have k5: "map (\<lambda>x. (ResourceType x, Hostname x, Status x, LastError x, AccessAppID x))
     (ledger (snd (ReconcileBindings ?e [exampleBinding] ?w))) =
     [(''access_app'', ''admin.example.com'', ''active'', '''', ''app10'')]"
    unfolding rb ea by (simp add: emptyResource_def)
  have k6: "remote (snd (ReconcileBindings ?e [exampleBinding] ?w)) =
     [exampleApp,
      \<lparr>aaID = ''app10'', aaName = ''labelgate-internal'', aaDomain = ''admin.example.com''\<rparr>]"
    unfolding rb ea by simp
  from k0 k1 k2 k3 k4 k5 k6 show ?thesis by (intro conjI)
qed

text \<open>Claim C5, amended.  Let a pass of \<open>ReconcileBindings\<close> start from a ledger
  that has no access row for a hostname (and no row without an ID), and let the
  pass reach the binding of that hostname.  At that moment let the access client
  and a non-empty account ID be available, let the listing of the remote
  applications succeed and contain an application for the hostname (the first such
  application having a non-empty ID and a name of ASCII bytes), and let the next
  UUID be fresh.  Then \<open>EnsureAccess\<close> fails with the conflict error naming that
  application, having sent the listing request and nothing else and having left
  the ledger untouched; saving the error row sends no request; the pass returns no
  error, and at its end, after the remaining bindings and the marking of orphans,
  the ledger holds exactly one row for the hostname, with status error, the
  conflict message as last error and no application ID.\<close>

theorem access_conflict_refused_and_recorded:
  assumes order: "rangeMap (rangeOrder e) (desiredAccessMap bindings []) =
                    pre @ (hostname, binding) # rest"
    and reach: "accessReconcileLoop e pre
                  (currentAccessMap
                     (ListResources ResourceTypeAccessApp
                        [StatusActive, StatusError, StatusOrphaned] w0) [], w0) = (currentMap, w)"
    and norow: "\<forall>x \<in> set (ledger w0). ResourceType x = ResourceTypeAccessApp \<longrightarrow> Hostname x \<noteq> hostname"
    and ids: "\<forall>x \<in> set (ledger w0). ID x \<noteq> ''''"
    and fresh: "uuids e (uuidsUsed w) \<notin> ID ` set (ledger w0) \<union> ID ` set (ledger w)"
    and tc: "GetTunnelClient (credManager e) ''default'' w = (Inr (client, tunnelCred), w1)"
    and acct: "acct = (let acct0 = (case tunnelCred of Some tc \<Rightarrow> tcAccountID tc | None \<Rightarrow> '''')
                       in if acct0 = '''' then accountID (clientOf w1 client) else acct0)"
    and acct_ok: "acct \<noteq> ''''"
    and probe: "invoke e (AccessAppsList (apiToken (clientOf w1 client)) acct) w1 = (RespApps apps, w2)"
    and found: "find (\<lambda>a. aaDomain a = hostname) apps = Some app"
    and app_id: "aaID app \<noteq> ''''"
    and ascii: "\<forall>c \<in> set (aaName app). (of_char c :: nat) < 0x80"
  shows
   "bHostname binding = hostname \<and>
    EnsureAccess e binding w = (Inl (conflictMessage (aaName app) (aaID app) hostname), w2) \<and>
    calls w2 = calls w @ [AccessAppsList (apiToken (clientOf w1 client)) acct] \<and>
    storeOf w2 = storeOf w \<and>
    netOf (accessCreateBranch e hostname binding w) = netOf w2 \<and>
    fst (ReconcileBindings e bindings w0) = None \<and>
    kRows (ResourceTypeAccessApp, hostname, '''')
      (ledger (snd (ReconcileBindings e bindings w0))) =
      [emptyResource
         \<lparr>ResourceType := ResourceTypeAccessApp, Hostname := hostname,
          ContainerID := bContainerID binding, ContainerName := bContainerName binding,
          ServiceName := bServiceName binding, AgentID := bAgentID binding,
          Status := StatusError,
          LastError := conflictMessage (aaName app) (aaID app) hostname,
          CleanupEnabled := bCleanup binding,
          ID := uuids e (uuidsUsed w), CreatedAt := clock e (ticks w),
          UpdatedAt := clock e (Suc (ticks w))\<rparr>]"
proof -
  let ?K = "(ResourceTypeAccessApp, hostname, '''')"
  let ?msg = "conflictMessage (aaName app) (aaID app) hostname"
  let ?errRes = "emptyResource
                   \<lparr>ResourceType := ResourceTypeAccessApp, Hostname := hostname,
                    ContainerID := bContainerID binding,
                    ContainerName := bContainerName binding,
                    ServiceName := bServiceName binding, AgentID := bAgentID binding,
                    Status := StatusError, LastError := ?msg,
                    CleanupEnabled := bCleanup binding\<rparr>"
  let ?row = "?errRes\<lparr>ID := uuids e (uuidsUsed w), CreatedAt := clock e (ticks w),
                      UpdatedAt := clock e (Suc (ticks w))\<rparr>"
  let ?dm = "desiredAccessMap bindings []"
  let ?ds = "rangeMap (rangeOrder e) ?dm"
  let ?cm0 = "currentAccessMap
                (ListResources ResourceTypeAccessApp [StatusActive, StatusError, StatusOrphaned] w0) []"
  text \<open>The entries of the desired map: keyed by their hostnames, each key once.\<close>
  have keyed: "k = bHostname b" if "(k, b) \<in> set ?ds" for k b
    using that set_rangeMap[of "rangeOrder e" ?dm] desiredAccessMap_keys[of k b bindings "[]"]
    by auto
  have hb: "bHostname binding = hostname"
    using keyed[of hostname binding] order by simp
  have dist: "distinct (map fst (pre @ (hostname, binding) # rest))"
    using rangeMap_distinct[of "rangeOrder e" ?dm] unfolding order .
  have other: "(ResourceTypeAccessApp, h, '''') \<noteq> ?K \<and> (ResourceTypeAccessApp, bHostname b, '''') \<noteq> ?K"
    if "(h, b) \<in> set pre \<or> (h, b) \<in> set rest" for h b
  proof -
    from dist have "hostname \<notin> fst ` set pre" "hostname \<notin> fst ` set rest" by auto
    moreover from that have "h \<in> fst ` set pre \<or> h \<in> fst ` set rest"
      by (auto simp: image_iff intro: bexI[of _ "(h, b)"])
    ultimately have "h \<noteq> hostname" by auto
    moreover from that have "(h, b) \<in> set ?ds" unfolding order by auto
    then have "h = bHostname b" by (rule keyed)
    ultimately show ?thesis by simp
  qed
  text \<open>The rows of the map of current rows.\<close>
  have k0: "kRows ?K (ledger w0) = []"
    using norow by (auto simp: kRows_def keyOf_def filter_empty_conv)
  have cur0: "keyOf x \<noteq> ?K \<and> ID x \<noteq> '''' \<and> ID x \<noteq> uuids e (uuidsUsed w) \<and> k \<noteq> hostname"
    if "(k, x) \<in> set ?cm0" for k x
  proof -
    from currentAccessMap_entries[OF that]
    have x: "x \<in> set (ListResources ResourceTypeAccessApp [StatusActive, StatusError, StatusOrphaned] w0)"
      and k: "k = Hostname x" by simp_all
    from x have xl: "x \<in> set (ledger w0)" and xt: "ResourceType x = ResourceTypeAccessApp"
      by (auto simp: ListResources_def ResourceTypeAccessApp_def)
    from norow xl xt have "Hostname x \<noteq> hostname" by blast
    moreover from ids xl have "ID x \<noteq> ''''" by blast
    moreover from fresh xl have "ID x \<noteq> uuids e (uuidsUsed w)" by force
    ultimately show ?thesis using k by (simp add: keyOf_def)
  qed
  have pre_ok: "\<forall>(h, b) \<in> set pre. (ResourceTypeAccessApp, h, '''') \<noteq> ?K \<and>
                                     (ResourceTypeAccessApp, bHostname b, '''') \<noteq> ?K"
    using other by blast
  have rest_ok: "\<forall>(h, b) \<in> set rest. (ResourceTypeAccessApp, h, '''') \<noteq> ?K \<and>
                                       (ResourceTypeAccessApp, bHostname b, '''') \<noteq> ?K"
    using other by blast
  have cm0_ok: "\<forall>(k', cur) \<in> set ?cm0. keyOf cur \<noteq> ?K \<and> ID cur \<noteq> '''' \<and>
                  ID cur \<notin> ID ` set (kRows ?K (fst (storeOf w0)))"
    using cur0 k0 by (auto simp: storeOf_def)
  from kr_accessReconcileLoop[OF pre_ok cm0_ok, of e] reach
  have kw: "kRows ?K (ledger w) = []" and sub: "set currentMap \<subseteq> set ?cm0"
    using k0 by (simp_all add: storeOf_def)
  have absent: "map_of currentMap hostname = None"
  proof (cases "map_of currentMap hostname")
    case None
    then show ?thesis .
  next
    case (Some x)
    then have "(hostname, x) \<in> set currentMap" by (rule map_of_SomeD)
    with sub cur0[of hostname x] show ?thesis by auto
  qed
  text \<open>The refusal.\<close>
  have f: "FindExistingAccessApp e (NewAccessClient w1 client acct) (bHostname binding) w1 =
             (Inr (aaID app, aaName app), w2)"
    using probe acct_ok findAppByDomain_find[OF found] hb
    by (simp add: FindExistingAccessApp_def NewAccessClient_def)
  have ea: "EnsureAccess e binding w = (Inl ?msg, w2)"
    using tc acct[symmetric] acct_ok f app_id hb
    by (simp add: EnsureAccess_def Let_def)
  have c1: "calls w1 = calls w"
    using calls_GetTunnelClient[of "credManager e" "''default''" w] tc by simp
  have c2: "calls w2 = calls w1 @ [AccessAppsList (apiToken (clientOf w1 client)) acct]"
    using calls_invoke[of e "AccessAppsList (apiToken (clientOf w1 client)) acct" w1] probe by simp
  have s1: "storeOf w1 = storeOf w"
    using storeOf_GetTunnelClient[of "credManager e" "''default''" w] tc by simp
  have s2: "storeOf w2 = storeOf w1"
    using storeOf_invoke[of e "AccessAppsList (apiToken (clientOf w1 client)) acct" w1] probe by simp
  have s: "storeOf w2 = storeOf w" using s1 s2 by simp
  text \<open>The error row.\<close>
  let ?wb = "accessCreateBranch e hostname binding w"
  have br: "?wb = snd (snd (SaveResource e ?errRes w2))"
    using ea by (simp add: accessCreateBranch_def Let_def case_prod_beta)
  have n: "netOf ?wb = netOf w2" unfolding br by simp
  have st: "fst (stampResource e ?errRes w2) = ?row"
    using s
    by (simp add: stampResource_def Let_def case_prod_beta uuidNew_def Now_def emptyResource_def
        storeOf_def)
  have kr: "keyOf ?row = ?K" by (simp add: keyOf_def emptyResource_def)
  have l2: "ledger w2 = ledger w" using s by (simp add: storeOf_def)
  have nokey: "\<not> (\<exists>x \<in> set (ledger w). sameKey x ?row)"
  proof
    assume "\<exists>x \<in> set (ledger w). sameKey x ?row"
    then obtain x where "x \<in> set (ledger w)" "keyOf x = ?K"
      unfolding sameKey_keyOf kr by blast
    then have "x \<in> set (kRows ?K (ledger w))" by (simp add: kRows_def)
    with kw show False by simp
  qed
  have noid: "\<not> (\<exists>x \<in> set (ledger w). ID x = ID ?row)"
    using fresh by (auto simp: image_iff)
  have up: "snd (upsertLedger ?row (ledger w)) = ledger w @ [?row]"
    using nokey noid unfolding upsertLedger_def by (simp only: if_False snd_conv)
  have lwb: "ledger ?wb = ledger w @ [?row]"
    unfolding br SaveResource_ledger st l2 up ..
  have kb: "kRows ?K (fst (storeOf ?wb)) = [?row]"
    using kw kr by (simp add: storeOf_def lwb kRows_def)
  text \<open>The remaining bindings and the marking of orphans.\<close>
  have cm_ok: "\<forall>(k', cur) \<in> set currentMap. keyOf cur \<noteq> ?K \<and> ID cur \<noteq> '''' \<and>
                 ID cur \<notin> ID ` set (kRows ?K (fst (storeOf ?wb)))"
    unfolding kb using cur0 sub by auto
  let ?loop = "accessReconcileLoop e rest (currentMap, ?wb)"
  from kr_accessReconcileLoop[OF rest_ok cm_ok, of e]
  have kl: "kRows ?K (fst (storeOf (snd ?loop))) = [?row]" and sub2: "set (fst ?loop) \<subseteq> set currentMap"
    unfolding kb by simp_all
  have m: "\<forall>r \<in> set (map snd (rangeMap (rangeOrder e) (fst ?loop))).
             ID r \<notin> ID ` set (kRows ?K (fst (storeOf (snd ?loop))))"
  proof
    fix r assume "r \<in> set (map snd (rangeMap (rangeOrder e) (fst ?loop)))"
    then obtain k where "(k, r) \<in> set (rangeMap (rangeOrder e) (fst ?loop))" by auto
    with set_rangeMap[of "rangeOrder e" "fst ?loop"] sub2 sub have "(k, r) \<in> set ?cm0" by blast
    then have "ID r \<noteq> uuids e (uuidsUsed w)" using cur0 by blast
    then show "ID r \<notin> ID ` set (kRows ?K (fst (storeOf (snd ?loop))))"
      unfolding kl by simp
  qed
  have whole: "accessReconcileLoop e ?ds (?cm0, w0) = ?loop"
    unfolding order accessReconcileLoop_append reach using absent by simp
  have pass: "snd (ReconcileBindings e bindings w0) =
              markOrphaned e (map snd (rangeMap (rangeOrder e) (fst ?loop))) (snd ?loop)"
    by (simp add: ReconcileBindings_def Let_def case_prod_beta whole)
  have fin: "kRows ?K (ledger (snd (ReconcileBindings e bindings w0))) = [?row]"
    unfolding pass using kr_markOrphaned[OF m, of e] kl by (simp add: storeOf_def)
  have none: "fst (ReconcileBindings e bindings w0) = None"
    by (simp add: ReconcileBindings_def Let_def case_prod_beta)
  from hb ea c1 c2 s n none fin show ?thesis by simp
qed

theorem access_conflict_refused_and_recorded_witness:
  "rangeMap (rangeOrder (exampleEnv occupiedRemote)) (desiredAccessMap [exampleBinding] []) =
     [] @ (''admin.example.com'', exampleBinding) # [] \<and>
   find (\<lambda>a. aaDomain a = ''admin.example.com'') [exampleApp] = Some exampleApp \<and>
   fst (EnsureAccess (exampleEnv occupiedRemote) exampleBinding (exampleWorld [exampleOldRow] ())) =
     Inl (conflictMessage ''Admin'' ''app9'' ''admin.example.com'') \<and>
   conflictMessage ''Admin'' ''app9'' ''admin.example.com'' =
     ''access application '' @ [CHR 0x22] @ ''Admin'' @ [CHR 0x22] @
     '' (ID: app9) already exists for hostname admin.example.com, not managed by labelgate '' @
     [CHR 0xC3, CHR 0xA2, CHR 0xE2, CHR 0x82, CHR 0xAC, CHR 0xE2, CHR 0x80, CHR 0x9D] @
     '' refusing to overwrite'' \<and>
   fst (ReconcileBindings (exampleEnv occupiedRemote) [exampleBinding]
          (exampleWorld [exampleOldRow] ())) = None \<and>
   calls (snd (ReconcileBindings (exampleEnv occupiedRemote) [exampleBinding]
                 (exampleWorld [exampleOldRow] ()))) = [AccessAppsList ''tok'' ''acct1''] \<and>
   map (\<lambda>x. (ID x, Hostname x, Status x, LastError x, AccessAppID x))
     (kRows (ResourceTypeAccessApp, ''admin.example.com'', '''')
        (ledger (snd (ReconcileBindings (exampleEnv occupiedRemote) [exampleBinding]
                        (exampleWorld [exampleOldRow] ()))))) =
     [(''u'', ''admin.example.com'', ''error'',
       conflictMessage ''Admin'' ''app9'' ''admin.example.com'', '''')]"
proof -
  let ?e = "exampleEnv occupiedRemote"
  let ?w = "exampleWorld [exampleOldRow] () :: unit world"
  let ?h = "''admin.example.com''"
  let ?tc = "hd (tunnelCredentials exampleManager)"
  let ?g = "GetTunnelClient (credManager ?e) ''default'' ?w"
  note defs = GetTunnelClient_def GetTunnelCredential_def GetClient_def SetAccountID_def
    setClient_def clientOf_def NewClient_def exampleEnv_def exampleManager_def exampleWorld_def
    exampleBinding_def exampleApp_def invoke_def Let_def
  have order: "rangeMap (rangeOrder ?e) (desiredAccessMap [exampleBinding] []) =
                 [] @ (?h, exampleBinding) # []"
    by (simp add: rangeMap_def rangeKeys_def List.map_filter_def exampleEnv_def exampleBinding_def)
  have reach: "accessReconcileLoop ?e []
                 (currentAccessMap
                    (ListResources ResourceTypeAccessApp
                       [StatusActive, StatusError, StatusOrphaned] ?w) [], ?w) = ([], ?w)"
    by (simp add: ListResources_def exampleWorld_def exampleOldRow_def emptyResource_def
        ResourceTypeAccessApp_def)
  have norow: "\<forall>x \<in> set (ledger ?w). ResourceType x = ResourceTypeAccessApp \<longrightarrow> Hostname x \<noteq> ?h"
    by (simp add: exampleWorld_def exampleOldRow_def emptyResource_def)
  have ids: "\<forall>x \<in> set (ledger ?w). ID x \<noteq> ''''"
    by (simp add: exampleWorld_def exampleOldRow_def emptyResource_def)
  have fresh: "uuids ?e (uuidsUsed ?w) \<notin> ID ` set (ledger ?w) \<union> ID ` set (ledger ?w)"
    by (simp add: exampleWorld_def exampleEnv_def exampleOldRow_def emptyResource_def)
  have g: "?g = (Inr (''default'', Some ?tc), snd ?g)"
    by (simp add: prod_eq_iff defs)
  have acct: "''acct1'' = (let acct0 = (case Some ?tc of Some tc \<Rightarrow> tcAccountID tc | None \<Rightarrow> '''')
                       in if acct0 = '''' then accountID (clientOf (snd ?g) ''default'') else acct0)"
    by (simp add: defs)
  have acct_ok: "''acct1'' \<noteq> ''''" by simp
  let ?call = "AccessAppsList (apiToken (clientOf (snd ?g) ''default'')) ''acct1''"
  let ?p = "invoke ?e ?call (snd ?g)"
  have probe: "?p = (RespApps [exampleApp], snd ?p)"
    by (simp add: prod_eq_iff defs)
  have found: "find (\<lambda>a. aaDomain a = ?h) [exampleApp] = Some exampleApp"
    by (simp add: exampleApp_def)
  have app_id: "aaID exampleApp \<noteq> ''''" by (simp add: exampleApp_def)
  have ascii: "\<forall>c \<in> set (aaName exampleApp). (of_char c :: nat) < 0x80"
    by (simp add: exampleApp_def)
  note th = access_conflict_refused_and_recorded[OF order reach norow ids fresh g acct acct_ok
      probe found app_id ascii]
  have tok: "apiToken (clientOf (snd ?g) ''default'') = ''tok''"
    by (simp add: defs)
  have cw: "calls ?w = []" by (simp add: exampleWorld_def)
  have nm: "aaName exampleApp = ''Admin''" "aaID exampleApp = ''app9''"
    by (simp_all add: exampleApp_def)
  have k1: "fst (EnsureAccess ?e exampleBinding ?w) = Inl (conflictMessage ''Admin'' ''app9'' ?h)"
    using th[THEN conjunct2, THEN conjunct1] by (simp add: nm)
  have k2: "conflictMessage ''Admin'' ''app9'' ?h =
     ''access application '' @ [CHR 0x22] @ ''Admin'' @ [CHR 0x22] @
     '' (ID: app9) already exists for hostname admin.example.com, not managed by labelgate '' @
     [CHR 0xC3, CHR 0xA2, CHR 0xE2, CHR 0x82, CHR 0xAC, CHR 0xE2, CHR 0x80, CHR 0x9D] @
     '' refusing to overwrite''"
    by (simp add: conflictMessage_def quoted_def quoteByte_def)
  have k3: "fst (ReconcileBindings ?e [exampleBinding] ?w) = None"
    by (rule th[THEN conjunct2, THEN conjunct2, THEN conjunct2, THEN conjunct2, THEN conjunct2,
          THEN conjunct1])
  have pass: "snd (ReconcileBindings ?e [exampleBinding] ?w) = accessCreateBranch ?e ?h exampleBinding ?w"
    unfolding ReconcileBindings_def Let_def case_prod_beta snd_conv order
    using reach by simp
  have k4: "calls (snd (ReconcileBindings ?e [exampleBinding] ?w)) = [AccessAppsList ''tok'' ''acct1'']"
    unfolding pass
    using th[THEN conjunct2, THEN conjunct2, THEN conjunct1]
      th[THEN conjunct2, THEN conjunct2, THEN conjunct2, THEN conjunct2, THEN conjunct1] tok cw
    by (simp add: netOf_def)
  have k5: "map (\<lambda>x. (ID x, Hostname x, Status x, LastError x, AccessAppID x))
     (kRows (ResourceTypeAccessApp, ?h, '''')
        (ledger (snd (ReconcileBindings ?e [exampleBinding] ?w)))) =
     [(''u'', ?h, ''error'', conflictMessage ''Admin'' ''app9'' ?h, '''')]"
    using th[THEN conjunct2, THEN conjunct2, THEN conjunct2, THEN conjunct2, THEN conjunct2,
          THEN conjunct2]
    by (simp add: nm exampleEnv_def exampleWorld_def emptyResource_def StatusError_def)
  from order found k1 k2 k3 k4 k5 show ?thesis by (intro conjI)
qed


section \<open>A pass over a converged ledger\<close>






lemma currentDNSMap_rows: "snd ` set (currentDNSMap rs m) \<subseteq> set rs \<union> snd ` set m"
proof (induction rs arbitrary: m)
  case Nil
  show ?case by simp
next
  case (Cons r rs)
  from Cons.IH[of "AList.update (dnsKey (Hostname r) (RecordType r)) r m"]
    set_AList_update[of "dnsKey (Hostname r) (RecordType r)" r m]
  show ?case by force
qed










lemma ListExpiredOrphans_ledger:
  "ledger w' = ledger w \<Longrightarrow> ListExpiredOrphans c w' = ListExpiredOrphans c w"
  by (simp add: ListExpiredOrphans_def)








end
